(* ===== verification/Prelude.thy ===== *)
theory Prelude
  imports Main "HOL-Library.Word"
begin

text \<open>
  The prelude of the development: the collections its simplifier sets are built from, the
  run-time errors of the modelled code as values, the shape of an asynchronous service call
  (explicit state passing with a rejected or a fulfilled result) and the generic facts on
  lists that several components share.
\<close>

named_theorems call_simps \<open>equations of service calls: await, try/catch, return and throw\<close>
named_theorems wire_simps \<open>reads and writes of byte buffers\<close>

type_synonym byte = "8 word"

section \<open>Strings\<close>

text \<open>A string of the language is a sequence of UTF-16 code units.\<close>

type_synonym code_unit = "16 word"
type_synonym jstring = "code_unit list"

text \<open>A literal of the source: each character is one code unit.\<close>

definition js :: "string \<Rightarrow> jstring" where
  "js s = map (\<lambda>c. of_nat (of_char c)) s"

lemma js_simps [simp]:
  "js [] = []" "js (c # s) = of_nat (of_char c) # js s" "js (s @ t) = js s @ js t"
  by (simp_all add: js_def)

lemma js_inj [simp]: "js s = js t \<longleftrightarrow> s = t"
proof -
  have "inj (\<lambda>c. of_nat (of_char c) :: code_unit)"
  proof (rule injI)
    fix c d :: char
    have less: "of_char c < (256 :: nat)" for c :: char by simp
    assume "(of_nat (of_char c) :: code_unit) = of_nat (of_char d)"
    then have "of_char c mod 65536 = (of_char d mod 65536 :: nat)"
      by (simp add: word_of_nat_eq_iff take_bit_eq_mod)
    then have "of_char c = (of_char d :: nat)" using less [of c] less [of d] by simp
    then show "c = d" by simp
  qed
  then show ?thesis by (simp add: js_def inj_map_eq_map)
qed

lemma js_eq_Nil [simp]: "js s = [] \<longleftrightarrow> s = []"
  by (simp add: js_def)

lemma length_js [simp]: "length (js s) = length s"
  by (simp add: js_def)

section \<open>Errors and service calls\<close>

text \<open>
  What a \<open>throw\<close> of the code (or of a library it calls) carries. Only the class of the
  error and its \<open>message\<close> are ever looked at by the code.
\<close>

datatype js_error =
    Error (message: jstring)
  | TypeError (message: jstring)
  | RangeError (message: jstring)

text \<open>
  An \<open>async\<close> method run to completion: it takes the state of the world it acts on and
  returns the settled promise (\<open>Inl\<close> rejected, \<open>Inr\<close> fulfilled) and the state it leaves.
  A rejection does not undo what was written before it.
\<close>

type_synonym ('w, 'a) call = "'w \<Rightarrow> (js_error + 'a) \<times> 'w"

definition return :: "'a \<Rightarrow> ('w, 'a) call" where
  "return a w = (Inr a, w)"

definition throw :: "js_error \<Rightarrow> ('w, 'a) call" where
  "throw e w = (Inl e, w)"

text \<open>\<open>await m\<close> followed by the rest of the method, \<open>k\<close>.\<close>

definition await :: "('w, 'a) call \<Rightarrow> ('a \<Rightarrow> ('w, 'b) call) \<Rightarrow> ('w, 'b) call" where
  "await m k w = (case m w of (Inl e, w') \<Rightarrow> (Inl e, w') | (Inr a, w') \<Rightarrow> k a w')"

text \<open>\<open>try { m } catch (e) { h e }\<close>\<close>

definition try_catch :: "('w, 'a) call \<Rightarrow> (js_error \<Rightarrow> ('w, 'a) call) \<Rightarrow> ('w, 'a) call" where
  "try_catch m h w = (case m w of (Inl e, w') \<Rightarrow> h e w' | (Inr a, w') \<Rightarrow> (Inr a, w'))"

lemma return_run [call_simps]: "return a w = (Inr a, w)"
  by (simp add: return_def)

lemma throw_run [call_simps]: "throw e w = (Inl e, w)"
  by (simp add: throw_def)

lemma await_fulfilled [call_simps]: "m w = (Inr a, w') \<Longrightarrow> await m k w = k a w'"
  by (simp add: await_def)

lemma await_rejected [call_simps]: "m w = (Inl e, w') \<Longrightarrow> await m k w = (Inl e, w')"
  by (simp add: await_def)

lemma try_catch_fulfilled [call_simps]: "m w = (Inr a, w') \<Longrightarrow> try_catch m h w = (Inr a, w')"
  by (simp add: try_catch_def)

lemma try_catch_rejected [call_simps]: "m w = (Inl e, w') \<Longrightarrow> try_catch m h w = h e w'"
  by (simp add: try_catch_def)

text \<open>Re-throwing in the handler, as most handlers of the code do after logging, is no handler.\<close>

lemma try_catch_throw [call_simps]: "try_catch m throw = m"
  by (auto simp: try_catch_def throw_def fun_eq_iff split: prod.splits sum.splits)

lemma await_eq_Inr:
  "await m k w = (Inr b, w'') \<longleftrightarrow> (\<exists>a w'. m w = (Inr a, w') \<and> k a w' = (Inr b, w''))"
  by (auto simp: await_def split: prod.splits sum.splits)

text \<open>Sequencing of plain expressions that may throw.\<close>

definition bind :: "js_error + 'a \<Rightarrow> ('a \<Rightarrow> js_error + 'b) \<Rightarrow> js_error + 'b" where
  "bind m k = (case m of Inl e \<Rightarrow> Inl e | Inr a \<Rightarrow> k a)"

lemma bind_simps [simp, wire_simps, call_simps]: "bind (Inl e) k = Inl e" "bind (Inr a) k = k a"
  by (simp_all add: bind_def)

section \<open>Lists\<close>

lemma take_append_length [simp]: "length xs = n \<Longrightarrow> take n (xs @ ys) = xs"
  by simp

lemma drop_append_length [simp]: "length xs = n \<Longrightarrow> drop n (xs @ ys) = ys"
  by simp

end
