(* ===== verification/JSNumber.thy ===== *)
theory JSNumber
  imports Prelude
begin

text \<open>
  The numbers of the modelled language: IEEE 754 values, kept as sign, mantissa and binary
  exponent. \<open>Finite s m e\<close> is \<open>(-1)^s * m * 2^e\<close> with \<open>m\<close> odd (or \<open>m = 0\<close> and \<open>e = 0\<close>), so a value
  has one representation whatever its format, and widening a binary32 to a binary64 value is
  the identity. The theory holds rounding to a format (nearest, ties to even), the integer
  conversions of the typed-array setters, the binary32 layout, \<open>parseInt\<close> of radix 16 and
  the shortest decimal form that \<open>Number::toString\<close> prints.
\<close>

datatype js_number = NaN | Infinity bool | Finite bool nat int

section \<open>Bit length and normal form\<close>

fun bit_len :: "nat \<Rightarrow> nat" where
  "bit_len n = (if n = 0 then 0 else Suc (bit_len (n div 2)))"

declare bit_len.simps [simp del]

lemma bit_len_0 [simp]: "bit_len 0 = 0"
  by (subst bit_len.simps) simp

lemma bit_len_double [simp]: "0 < n \<Longrightarrow> bit_len (2 * n) = Suc (bit_len n)"
  by (subst bit_len.simps) simp

lemma bit_len_pos: "0 < n \<Longrightarrow> 0 < bit_len n"
  by (subst bit_len.simps) simp

lemma bit_len_upper: "n < 2 ^ bit_len n"
proof (induction n rule: bit_len.induct)
  case (1 n)
  then show ?case
    by (cases "n = 0") (auto simp: bit_len.simps [of n])
qed

lemma bit_len_lower2: "0 < n \<Longrightarrow> 2 ^ bit_len n \<le> 2 * n"
proof (induction n rule: bit_len.induct)
  case (1 n)
  show ?case
  proof (cases "n div 2 = 0")
    case True
    with 1 show ?thesis by (simp add: bit_len.simps [of n])
  next
    case False
    with 1 have "2 ^ bit_len (n div 2) \<le> 2 * (n div 2)" by simp
    with "1.prems" show ?thesis by (simp add: bit_len.simps [of n])
  qed
qed

lemma bit_len_lower: "0 < n \<Longrightarrow> 2 ^ (bit_len n - 1) \<le> n"
  using bit_len_lower2 [of n] bit_len_pos [of n] by (cases "bit_len n") auto

lemma bit_len_shift: "0 < n \<Longrightarrow> bit_len (n * 2 ^ k) = bit_len n + k"
proof (induction k)
  case (Suc k)
  then have "bit_len (2 * (n * 2 ^ k)) = Suc (bit_len n + k)" by simp
  then show ?case by (simp add: mult.left_commute)
qed simp

lemma bit_len_le: "n < 2 ^ k \<Longrightarrow> bit_len n \<le> k"
proof (rule ccontr)
  assume n: "n < 2 ^ k" and "\<not> bit_len n \<le> k"
  then have k: "k \<le> bit_len n - 1" and "0 < n" by (auto intro: gr0I)
  from k have "(2::nat) ^ k \<le> 2 ^ (bit_len n - 1)" by (rule power_increasing) simp
  also have "\<dots> \<le> n" using \<open>0 < n\<close> by (rule bit_len_lower)
  finally show False using n by simp
qed

lemma bit_len_ge: "2 ^ k \<le> n \<Longrightarrow> k < bit_len n"
proof (rule ccontr)
  assume n: "2 ^ k \<le> n" and "\<not> k < bit_len n"
  then have "(2::nat) ^ bit_len n \<le> 2 ^ k" by simp
  with n bit_len_upper [of n] show False by linarith
qed

text \<open>Strip the factors of two of a mantissa into the exponent.\<close>

function odd_form :: "nat \<Rightarrow> int \<Rightarrow> nat \<times> int" where
  "odd_form m e =
     (if m = 0 then (0, 0) else if even m then odd_form (m div 2) (e + 1) else (m, e))"
  by pat_completeness auto
termination
  by (relation "measure fst") auto

declare odd_form.simps [simp del]

lemma odd_form_0 [simp]: "odd_form 0 e = (0, 0)"
  by (subst odd_form.simps) simp

lemma odd_form_odd [simp]: "odd m \<Longrightarrow> odd_form m e = (m, e)"
  by (subst odd_form.simps) auto

lemma odd_form_double [simp]: "0 < m \<Longrightarrow> odd_form (2 * m) e = odd_form m (e + 1)"
  by (subst odd_form.simps) simp

lemma odd_form_shift: "0 < m \<Longrightarrow> odd_form (m * 2 ^ k) e = odd_form m (e + int k)"
proof (induction k arbitrary: e)
  case (Suc k)
  have "odd_form (2 * (m * 2 ^ k)) e = odd_form (m * 2 ^ k) (e + 1)"
    using Suc.prems by (intro odd_form_double) simp
  also have "\<dots> = odd_form m (e + 1 + int k)" using Suc by simp
  finally show ?case by (simp add: mult.left_commute add.assoc)
qed simp

text \<open>What \<open>odd_form\<close> returns: an odd mantissa of the same value.\<close>

lemma odd_form_spec:
  "0 < m \<Longrightarrow> odd_form m e = (m', e') \<Longrightarrow>
     odd m' \<and> (\<exists>k. m = m' * 2 ^ k \<and> e' = e + int k)"
proof (induction m e rule: odd_form.induct)
  case (1 m e)
  show ?case
  proof (cases "even m")
    case False
    with 1 show ?thesis by (auto intro!: exI [of _ 0])
  next
    case True
    then obtain h where h: "m = 2 * h" by blast
    with "1.prems" have "0 < h" by simp
    with True "1.IH" "1.prems" h obtain k where
      "odd m'" "h = m' * 2 ^ k" "e' = e + 1 + int k" by auto
    with h show ?thesis by (auto intro!: exI [of _ "Suc k"])
  qed
qed

section \<open>Rounding to a format\<close>

text \<open>The quotient rounded to the nearest integer, ties to the even one.\<close>

definition round_half_even :: "nat \<Rightarrow> nat \<Rightarrow> nat" where
  "round_half_even num den =
     (let q = num div den; r = num mod den
      in if 2 * r < den \<or> (2 * r = den \<and> even q) then q else q + 1)"

lemma round_half_even_exact [simp]: "0 < den \<Longrightarrow> round_half_even (q * den) den = q"
  by (simp add: round_half_even_def)

text \<open>
  The exponent of the last mantissa bit: for a positive rational \<open>num / den\<close>, the \<open>q\<close> with
  \<open>2^(p-1) <= num / den / 2^q < 2^p\<close>, but not below the format's smallest exponent.
\<close>

definition last_bit_exp :: "nat \<Rightarrow> int \<Rightarrow> nat \<Rightarrow> nat \<Rightarrow> int" where
  "last_bit_exp p emin num den =
     (let d = int (bit_len num) - int (bit_len den);
          below = (if 0 \<le> d then num < den * 2 ^ nat d else num * 2 ^ nat (- d) < den)
      in max (if below then d - int p else d - int p + 1) emin)"

definition round_ratio :: "nat \<Rightarrow> int \<Rightarrow> int \<Rightarrow> bool \<Rightarrow> nat \<Rightarrow> nat \<Rightarrow> js_number" where
  "round_ratio p emin emax s num den =
     (if num = 0 then Finite s 0 0
      else
        (let q = last_bit_exp p emin num den;
             m = (if 0 \<le> q then round_half_even num (den * 2 ^ nat q)
                  else round_half_even (num * 2 ^ nat (- q)) den);
             (m', e') = odd_form m q
         in if emax + 1 < int (bit_len m) + q then Infinity s else Finite s m' e'))"

text \<open>A number as a ratio of naturals, and rounding to binary32 and to binary64.\<close>

definition numerator :: "nat \<Rightarrow> int \<Rightarrow> nat" where
  "numerator m e = (if 0 \<le> e then m * 2 ^ nat e else m)"

definition denominator :: "int \<Rightarrow> nat" where
  "denominator e = (if 0 \<le> e then 1 else 2 ^ nat (- e))"

fun round32 :: "js_number \<Rightarrow> js_number" where
  "round32 (Finite s m e) = round_ratio 24 (-149) 127 s (numerator m e) (denominator e)"
| "round32 x = x"

definition round64 :: "bool \<Rightarrow> nat \<Rightarrow> nat \<Rightarrow> js_number" where
  "round64 = round_ratio 53 (-1074) 1023"

text \<open>The finite values of a format: \<open>p\<close> mantissa bits, exponents from \<open>emin\<close>, below \<open>2^(emax+1)\<close>.\<close>

definition representable :: "nat \<Rightarrow> int \<Rightarrow> int \<Rightarrow> nat \<Rightarrow> int \<Rightarrow> bool" where
  "representable p emin emax m e \<longleftrightarrow>
     (m = 0 \<and> e = 0) \<or>
     (odd m \<and> bit_len m \<le> p \<and> emin \<le> e \<and> int (bit_len m) + e \<le> emax + 1)"

fun is_binary64 :: "js_number \<Rightarrow> bool" where
  "is_binary64 (Finite s m e) = representable 53 (-1074) 1023 m e"
| "is_binary64 x = True"

fun is_binary32 :: "js_number \<Rightarrow> bool" where
  "is_binary32 (Finite s m e) = representable 24 (-149) 127 m e"
| "is_binary32 x = True"

lemma bit_len_pow2 [simp]: "bit_len (2 ^ k) = Suc k"
  using bit_len_shift [of 1 k] by (simp add: bit_len.simps)

lemma bit_len_1 [simp]: "bit_len (Suc 0) = Suc 0"
  using bit_len_pow2 [of 0] by simp

lemma bit_len_numerator: "0 < m \<Longrightarrow> bit_len (numerator m e) = bit_len m + nat e"
  by (simp add: numerator_def bit_len_shift)

lemma bit_len_denominator: "bit_len (denominator e) = Suc (nat (- e))"
  by (simp add: denominator_def)

lemma denominator_pos [simp]: "0 < denominator e"
  by (simp add: denominator_def)

text \<open>A ratio that is a dyadic number: the last bit of \<open>m * 2^e\<close> sits at \<open>bit_len m + e - p\<close>.\<close>

lemma last_bit_exp_dyadic:
  assumes "0 < m"
  shows "last_bit_exp p emin (numerator m e) (denominator e) = max (int (bit_len m) + e - int p) emin"
proof -
  let ?L = "bit_len m" and ?d = "int (bit_len m) + e - 1"
  have d: "int (bit_len (numerator m e)) - int (bit_len (denominator e)) = ?d"
    using assms by (simp add: bit_len_numerator bit_len_denominator)
  have low: "2 ^ (?L - 1) \<le> m" using assms by (rule bit_len_lower)
  have L: "1 \<le> ?L" using bit_len_pos [OF assms] by simp
  have "\<not> numerator m e < denominator e * 2 ^ nat ?d" if "0 \<le> ?d"
  proof (cases "0 \<le> e")
    case True
    then have "(2::nat) ^ nat ?d = 2 ^ (?L - 1) * 2 ^ nat e"
      using L by (simp add: power_add [symmetric] nat_diff_distrib' nat_add_distrib algebra_simps of_nat_diff)
    with low True show ?thesis by (simp add: numerator_def denominator_def)
  next
    case False
    then have "denominator e * 2 ^ nat ?d = 2 ^ (?L - 1)"
      using L that by (simp add: denominator_def power_add [symmetric] nat_add_distrib [symmetric])
    with low False show ?thesis by (simp add: numerator_def)
  qed
  moreover have "\<not> numerator m e * 2 ^ nat (- ?d) < denominator e" if "\<not> 0 \<le> ?d"
  proof -
    from that L have e: "\<not> 0 \<le> e" by linarith
    then have "(2::nat) ^ nat (- e) = 2 ^ (?L - 1) * 2 ^ nat (- ?d)"
      using L that by (simp add: power_add [symmetric] nat_add_distrib [symmetric])
    with low e show ?thesis by (simp add: numerator_def denominator_def)
  qed
  ultimately show ?thesis
    unfolding last_bit_exp_def Let_def d by (auto simp: algebra_simps)
qed

text \<open>Scaling a dyadic number to a smaller exponent \<open>q\<close> is exact, so rounding there is too.\<close>

lemma scaled_exact:
  assumes "q \<le> e"
  shows "(if 0 \<le> q then round_half_even (numerator m e) (denominator e * 2 ^ nat q)
          else round_half_even (numerator m e * 2 ^ nat (- q)) (denominator e)) = m * 2 ^ nat (e - q)"
proof (cases "0 \<le> q")
  case True
  with assms have "nat e = nat (e - q) + nat q" by simp
  with True assms have num: "numerator m e = m * 2 ^ nat (e - q) * 2 ^ nat q"
    and den: "denominator e * 2 ^ nat q = 2 ^ nat q"
    by (simp_all add: numerator_def denominator_def power_add)
  have "round_half_even (numerator m e) (denominator e * 2 ^ nat q) = m * 2 ^ nat (e - q)"
    unfolding num den by (rule round_half_even_exact) simp
  with True show ?thesis by simp
next
  case False
  have "numerator m e * 2 ^ nat (- q) = m * 2 ^ nat (e - q) * denominator e"
  proof (cases "0 \<le> e")
    case True
    with False have "nat (e - q) = nat e + nat (- q)" by simp
    with True show ?thesis by (simp add: numerator_def denominator_def power_add)
  next
    case neg: False
    with assms have "nat (- q) = nat (e - q) + nat (- e)" by simp
    with neg show ?thesis by (simp add: numerator_def denominator_def power_add)
  qed
  with False show ?thesis by simp
qed

lemma round_ratio_representable:
  assumes "representable p emin emax m e"
  shows "round_ratio p emin emax s (numerator m e) (denominator e) = Finite s m e"
proof (cases "m = 0")
  case True
  with assms show ?thesis by (simp add: representable_def round_ratio_def numerator_def)
next
  case False
  with assms have m: "odd m" "bit_len m \<le> p" "emin \<le> e" "int (bit_len m) + e \<le> emax + 1" "0 < m"
    by (auto simp: representable_def)
  define q where "q = last_bit_exp p emin (numerator m e) (denominator e)"
  have q: "q \<le> e" using m by (simp add: q_def last_bit_exp_dyadic)
  have "odd_form (m * 2 ^ nat (e - q)) q = (m, e)"
    using m q by (simp add: odd_form_shift)
  moreover have "\<not> emax + 1 < int (bit_len (m * 2 ^ nat (e - q))) + q"
    using m q by (simp add: bit_len_shift)
  moreover have "numerator m e \<noteq> 0" using m by (simp add: numerator_def)
  ultimately show ?thesis
    unfolding round_ratio_def Let_def q_def [symmetric] scaled_exact [OF q] by simp
qed

lemma round32_id [simp]: "is_binary32 x \<Longrightarrow> round32 x = x"
  by (cases x) (simp_all add: round_ratio_representable)

lemma binary32_is_binary64: "is_binary32 x \<Longrightarrow> is_binary64 x"
  by (cases x) (auto simp: representable_def)

text \<open>
  Rounding produces a value of the format. \<open>below_pow2 num den d\<close> is \<open>num / den < 2^d\<close> over
  the naturals.
\<close>

definition below_pow2 :: "nat \<Rightarrow> nat \<Rightarrow> int \<Rightarrow> bool" where
  "below_pow2 num den d \<longleftrightarrow> num * 2 ^ nat (- d) < den * 2 ^ nat d"

lemma below_pow2_step: "below_pow2 num den d \<Longrightarrow> below_pow2 num den (d + 1)"
proof (cases "0 \<le> d")
  case True
  assume "below_pow2 num den d"
  with True show ?thesis by (simp add: below_pow2_def nat_add_distrib)
next
  case False
  assume "below_pow2 num den d"
  moreover from False have "nat (- d) = Suc (nat (- (d + 1)))" by simp
  ultimately show ?thesis using False by (simp add: below_pow2_def)
qed

lemma below_pow2_mono: "d \<le> d' \<Longrightarrow> below_pow2 num den d \<Longrightarrow> below_pow2 num den d'"
  by (induction d' rule: int_ge_induct) (auto intro: below_pow2_step)

lemma below_pow2_add:
  assumes "below_pow2 num den (q + int p)"
  shows "num * 2 ^ nat (- q) < 2 ^ p * (den * 2 ^ nat q)"
proof (cases "0 \<le> q")
  case True
  with assms show ?thesis
    by (simp add: below_pow2_def nat_add_distrib power_add mult.commute mult.left_commute)
next
  case neg: False
  show ?thesis
  proof (cases "0 \<le> q + int p")
    case True
    with neg have "p = nat (q + int p) + nat (- q)" by simp
    then have "(2::nat) ^ p = 2 ^ nat (q + int p) * 2 ^ nat (- q)"
      by (metis power_add)
    with True neg assms show ?thesis by (simp add: below_pow2_def mult.commute mult.left_commute)
  next
    case False
    with neg have "nat (- q) = nat (- (q + int p)) + p" by simp
    then have "num * 2 ^ nat (- q) = num * 2 ^ nat (- (q + int p)) * 2 ^ p"
      by (simp only: power_add mult.assoc)
    moreover from False assms have "num * 2 ^ nat (- (q + int p)) < den"
      by (simp add: below_pow2_def)
    moreover have "2 ^ p * (den * 2 ^ nat q) = den * 2 ^ p" using neg by simp
    ultimately show ?thesis by (simp only: mult_less_cancel2) simp
  qed
qed

lemma below_pow2_bit_len:
  assumes "0 < den" and "0 < num"
  shows "below_pow2 num den (int (bit_len num) - int (bit_len den) + 1)"
proof -
  have n: "num < 2 ^ bit_len num" by (rule bit_len_upper)
  have d: "2 ^ bit_len den \<le> 2 * den" using assms(1) by (rule bit_len_lower2)
  show ?thesis
  proof (cases "bit_len den \<le> bit_len num")
    case True
    then obtain k where "bit_len num = bit_len den + k" using le_Suc_ex by blast
    moreover from this n d have "num < 2 * den * 2 ^ k"
      by (simp add: power_add) (meson leD le_less_trans mult_le_mono1 not_le_imp_less order.trans)
    ultimately show ?thesis by (simp add: below_pow2_def nat_add_distrib mult.commute)
  next
    case False
    then obtain k where k: "bit_len den = bit_len num + Suc k"
      by (metis less_imp_Suc_add add_Suc_right linorder_not_le)
    have "num * 2 ^ k < 2 ^ bit_len num * 2 ^ k" using n by simp
    also have "\<dots> \<le> den" using d k by (simp add: power_add)
    finally show ?thesis using k by (simp add: below_pow2_def)
  qed
qed

lemma last_bit_exp_upper:
  assumes "0 < den" and "0 < num"
  shows "below_pow2 num den (last_bit_exp p emin num den + int p)"
proof -
  let ?d = "int (bit_len num) - int (bit_len den)"
  show ?thesis
  proof (cases "below_pow2 num den ?d")
    case True
    have "?d \<le> last_bit_exp p emin num den + int p"
      by (auto simp: last_bit_exp_def Let_def)
    with True show ?thesis by (rule below_pow2_mono [rotated])
  next
    case False
    then have "?d + 1 \<le> last_bit_exp p emin num den + int p"
      by (auto simp: last_bit_exp_def Let_def below_pow2_def split: if_splits)
    then show ?thesis using assms by (rule below_pow2_mono [OF _ below_pow2_bit_len])
  qed
qed

lemma round_half_even_le: "0 < den \<Longrightarrow> num < k * den \<Longrightarrow> round_half_even num den \<le> k"
proof -
  assume "0 < den" "num < k * den"
  then have "num div den < k" by (simp add: less_mult_imp_div_less)
  then show ?thesis by (auto simp: round_half_even_def Let_def)
qed

lemma representable_odd_form:
  assumes "m \<le> 2 ^ p" "emin \<le> q" "int (bit_len m) + q \<le> emax + 1" "odd_form m q = (m', e')" "0 < p"
  shows "representable p emin emax m' e'"
proof (cases "m = 0")
  case True
  with assms show ?thesis by (simp add: representable_def)
next
  case False
  with assms(4) obtain k where k: "odd m'" "m = m' * 2 ^ k" "e' = q + int k"
    using odd_form_spec by blast
  then have L: "bit_len m = bit_len m' + k" by (simp add: bit_len_shift odd_pos)
  have "bit_len m' \<le> p"
  proof (cases "m = 2 ^ p")
    case True
    with assms(4) odd_form_shift [of 1 p q] have "m' = 1" by simp
    with assms(5) show ?thesis by simp
  next
    case False
    with assms(1) have "m < 2 ^ p" by simp
    with L show ?thesis using bit_len_le by fastforce
  qed
  with k L assms show ?thesis by (simp add: representable_def)
qed

lemma round_ratio_format:
  assumes "0 < den" "0 < p" "round_ratio p emin emax s num den = Finite s' m' e'"
  shows "representable p emin emax m' e'"
proof (cases "num = 0")
  case True
  with assms show ?thesis by (auto simp: round_ratio_def representable_def)
next
  case False
  define q where "q = last_bit_exp p emin num den"
  define m where "m = (if 0 \<le> q then round_half_even num (den * 2 ^ nat q)
                  else round_half_even (num * 2 ^ nat (- q)) den)"
  from False assms(1) have "num * 2 ^ nat (- q) < 2 ^ p * (den * 2 ^ nat q)"
    unfolding q_def by (intro below_pow2_add last_bit_exp_upper) simp_all
  then have "m \<le> 2 ^ p"
    using assms(1) by (auto simp: m_def intro!: round_half_even_le split: if_splits)
  moreover have "emin \<le> q" by (simp add: q_def last_bit_exp_def Let_def)
  moreover from False assms(3) have "int (bit_len m) + q \<le> emax + 1" "odd_form m q = (m', e')"
    by (auto simp: round_ratio_def Let_def q_def [symmetric] m_def [symmetric] split: if_splits prod.splits)
  ultimately show ?thesis using assms(2) by (intro representable_odd_form)
qed

lemma round32_is_binary32 [simp]: "is_binary32 (round32 x)"
proof (cases x)
  case (Finite s m e)
  then show ?thesis
    by (cases "round32 x") (auto dest!: round_ratio_format [rotated 2])
qed simp_all

lemma round64_is_binary64 [simp]: "0 < den \<Longrightarrow> is_binary64 (round64 s num den)"
  by (cases "round64 s num den") (auto simp: round64_def dest!: round_ratio_format [rotated 2])

section \<open>Integer conversions\<close>

text \<open>
  \<open>ToIntegerOrInfinity\<close> followed by the reduction modulo \<open>2^w\<close> that \<open>setUint8\<close>, \<open>setUint16\<close>,
  \<open>setUint32\<close> and the elements of a \<open>Uint8Array\<close> apply: a fraction is cut towards zero, and
  \<open>NaN\<close> and the infinities become 0.
\<close>

fun truncate_num :: "js_number \<Rightarrow> int" where
  "truncate_num (Finite s m e) =
     (if s then - 1 else 1) * int (numerator m e div denominator e)"
| "truncate_num x = 0"

definition to_uint :: "js_number \<Rightarrow> 'w::len word" where
  "to_uint x = word_of_int (truncate_num x)"

text \<open>The number with a given integer value (exact: used for integers below \<open>2^53\<close>).\<close>

definition num_of_int :: "int \<Rightarrow> js_number" where
  "num_of_int i = (let (m, e) = odd_form (nat \<bar>i\<bar>) 0 in Finite (i < 0) m e)"

abbreviation num_of_word :: "'w::len word \<Rightarrow> js_number" where
  "num_of_word w \<equiv> num_of_int (uint w)"

lemma truncate_num_of_int [simp]: "truncate_num (num_of_int i) = i"
proof (cases "i = 0")
  case True
  then show ?thesis by (simp add: num_of_int_def numerator_def denominator_def)
next
  case False
  obtain m e where me: "odd_form (nat \<bar>i\<bar>) 0 = (m, e)" by fastforce
  with False obtain k where "nat \<bar>i\<bar> = m * 2 ^ k" "e = int k"
    using odd_form_spec [of "nat \<bar>i\<bar>" 0 m e] by auto
  then have "int (numerator m e div denominator e) = \<bar>i\<bar>"
    by (simp add: numerator_def denominator_def) (metis abs_ge_zero int_nat_eq of_nat_mult of_nat_numeral of_nat_power)
  with me False show ?thesis by (simp add: num_of_int_def)
qed

lemma to_uint_num_of_int: "(to_uint (num_of_int i) :: 'w::len word) = word_of_int i"
  by (simp add: to_uint_def)

lemma to_uint_num_of_word [simp]: "to_uint (num_of_word w) = w"
  by (simp add: to_uint_def)

lemma to_uint_NaN [simp]: "to_uint NaN = 0" "to_uint (Infinity s) = 0"
  by (simp_all add: to_uint_def)

section \<open>The binary32 layout\<close>

text \<open>
  The 32 bits of a binary32 value (\<open>setFloat32\<close> after rounding) and back (\<open>getFloat32\<close>). For a
  finite value with last-bit exponent \<open>q\<close> and mantissa \<open>M\<close> at that exponent, exponent field and
  fraction together are \<open>(q + 149) * 2^23 + M\<close>: this covers the subnormal values (\<open>q = -149\<close>)
  and the normal ones, whose leading mantissa bit carries into the exponent field.
  The language leaves the bits of a stored \<open>NaN\<close> open; the model writes the quiet one.
\<close>

definition sign_bit :: "bool \<Rightarrow> nat" where
  "sign_bit s = (if s then 2 ^ 31 else 0)"

fun bits_of_binary32 :: "js_number \<Rightarrow> 32 word" where
  "bits_of_binary32 NaN = 0x7FC00000"
| "bits_of_binary32 (Infinity s) = of_nat (sign_bit s + 0x7F800000)"
| "bits_of_binary32 (Finite s m e) =
     (if m = 0 then of_nat (sign_bit s)
      else (let q = max (int (bit_len m) + e - 24) (-149)
            in of_nat (sign_bit s + nat (q + 149) * 2 ^ 23 + m * 2 ^ nat (e - q))))"

definition binary32_mantissa :: "nat \<Rightarrow> nat \<Rightarrow> nat" where
  "binary32_mantissa ex fr = (if ex = 0 then fr else fr + 2 ^ 23)"

definition binary32_exponent :: "nat \<Rightarrow> int" where
  "binary32_exponent ex = (if ex = 0 then -149 else int ex - 150)"

definition binary32_fields :: "bool \<Rightarrow> nat \<Rightarrow> nat \<Rightarrow> js_number" where
  "binary32_fields s ex fr =
     (if ex = 255 then (if fr = 0 then Infinity s else NaN)
      else (let (m, e) = odd_form (binary32_mantissa ex fr) (binary32_exponent ex) in Finite s m e))"

definition binary32_of_bits :: "32 word \<Rightarrow> js_number" where
  "binary32_of_bits w =
     (let n = unat w in binary32_fields (2 ^ 31 \<le> n) (n div 2 ^ 23 mod 2 ^ 8) (n mod 2 ^ 23))"

lemma nat_fields32:
  assumes "n < 2 ^ 32"
  shows "n = sign_bit (2 ^ 31 \<le> n) + n div 2 ^ 23 mod 2 ^ 8 * 2 ^ 23 + n mod 2 ^ 23"
proof -
  define a r where "a = n div 8388608" and "r = n mod 8388608"
  have n: "n = a * 8388608 + r" by (simp add: a_def r_def)
  define h where "h = a mod 256"
  have "a div 256 = n div 2147483648" by (simp add: a_def div_mult2_eq [symmetric])
  also have "\<dots> = (if 2147483648 \<le> n then 1 else 0)"
    using assms by (simp add: div_nat_eqI)
  finally have "a = (if 2147483648 \<le> n then 256 else 0) + h"
    using div_mult_mod_eq [of a 256] by (simp add: h_def split: if_splits)
  then have "n = sign_bit (2147483648 \<le> n) + h * 8388608 + r"
    using n by (cases "2147483648 \<le> n") (simp_all add: sign_bit_def)
  then show ?thesis by (simp add: h_def a_def r_def)
qed

lemma bit_len_mantissa:
  assumes "fr < 2 ^ 23"
  shows "ex = 0 \<Longrightarrow> bit_len (binary32_mantissa ex fr) \<le> 23"
    and "ex \<noteq> 0 \<Longrightarrow> bit_len (binary32_mantissa ex fr) = 24"
proof -
  show "bit_len (binary32_mantissa ex fr) \<le> 23" if "ex = 0"
    using that assms by (intro bit_len_le) (simp add: binary32_mantissa_def)
  show "bit_len (binary32_mantissa ex fr) = 24" if "ex \<noteq> 0"
  proof (rule antisym)
    show "bit_len (binary32_mantissa ex fr) \<le> 24"
      using that assms by (intro bit_len_le) (simp add: binary32_mantissa_def)
    show "24 \<le> bit_len (binary32_mantissa ex fr)"
      using that bit_len_ge [of 23 "binary32_mantissa ex fr"] by (simp add: binary32_mantissa_def)
  qed
qed

lemma bits_of_binary32_fields:
  assumes "fr < 2 ^ 23" and "ex < 256" and "binary32_fields s ex fr \<noteq> NaN"
  shows "bits_of_binary32 (binary32_fields s ex fr) = of_nat (sign_bit s + ex * 2 ^ 23 + fr)"
proof (cases "ex = 255")
  case True
  with assms show ?thesis by (simp add: binary32_fields_def split: if_splits)
next
  case fin: False
  let ?M = "binary32_mantissa ex fr" and ?E = "binary32_exponent ex"
  show ?thesis
  proof (cases "?M = 0")
    case True
    with fin show ?thesis by (auto simp: binary32_fields_def binary32_mantissa_def split: if_splits)
  next
    case False
    then obtain m e where me: "odd_form ?M ?E = (m, e)" by fastforce
    with False obtain k where k: "odd m" "?M = m * 2 ^ k" "e = ?E + int k"
      using odd_form_spec by blast
    have L: "int (bit_len m) + e = int (bit_len ?M) + ?E"
      using k by (simp add: bit_len_shift odd_pos)
    have q: "max (int (bit_len m) + e - 24) (-149) = ?E"
      unfolding L using assms(2) bit_len_mantissa [OF assms(1), of ex]
      by (cases "ex = 0") (simp_all add: binary32_exponent_def)
    have "bits_of_binary32 (binary32_fields s ex fr)
        = of_nat (sign_bit s + nat (?E + 149) * 2 ^ 23 + m * 2 ^ nat (e - ?E))"
      using fin me odd_pos [OF k(1)] by (simp add: binary32_fields_def Let_def q)
    also have "m * 2 ^ nat (e - ?E) = ?M" using k by simp
    also have "sign_bit s + nat (?E + 149) * 2 ^ 23 + ?M = sign_bit s + ex * 2 ^ 23 + fr"
    proof (cases "ex = 0")
      case False
      then have "nat (?E + 149) + 1 = ex" by (simp add: binary32_exponent_def)
      with False show ?thesis by (auto simp: binary32_mantissa_def algebra_simps)
    qed (simp add: binary32_exponent_def binary32_mantissa_def)
    finally show ?thesis .
  qed
qed

text \<open>Reading a stored value and storing it again gives the same bits, unless it is a \<open>NaN\<close>.\<close>

lemma bits_of_binary32_of_bits:
  assumes "binary32_of_bits w \<noteq> NaN"
  shows "bits_of_binary32 (binary32_of_bits w) = w"
proof -
  let ?n = "unat w"
  have n: "?n < 2 ^ 32" using unsigned_less [of w] by simp
  have "bits_of_binary32 (binary32_of_bits w)
      = of_nat (sign_bit (2 ^ 31 \<le> ?n) + ?n div 2 ^ 23 mod 2 ^ 8 * 2 ^ 23 + ?n mod 2 ^ 23)"
    using assms unfolding binary32_of_bits_def Let_def by (intro bits_of_binary32_fields) simp_all
  also have "\<dots> = of_nat ?n" using nat_fields32 [OF n] by simp
  finally show ?thesis by simp
qed

text \<open>Every bit pattern reads as a binary32 value.\<close>

lemma binary32_fields_format:
  assumes "fr < 2 ^ 23" and "ex < 256"
  shows "is_binary32 (binary32_fields s ex fr)"
proof -
  let ?M = "binary32_mantissa ex fr" and ?E = "binary32_exponent ex"
  obtain m e where me: "odd_form ?M ?E = (m, e)" by fastforce
  have "representable 24 (-149) 127 m e" if "ex \<noteq> 255"
  proof (rule representable_odd_form [OF _ _ _ me])
    show "?M \<le> 2 ^ 24" "-149 \<le> ?E"
      using assms by (simp_all add: binary32_mantissa_def binary32_exponent_def)
    show "int (bit_len ?M) + ?E \<le> 127 + 1"
      using assms(2) that bit_len_mantissa [OF assms(1), of ex]
      by (cases "ex = 0") (simp_all add: binary32_exponent_def)
  qed simp
  with me show ?thesis by (simp add: binary32_fields_def)
qed

lemma binary32_of_bits_format [simp]: "is_binary32 (binary32_of_bits w)"
  unfolding binary32_of_bits_def Let_def by (rule binary32_fields_format) simp_all

text \<open>Storing a binary32 value and reading it again gives the value.\<close>

lemma binary32_of_fields:
  assumes "fr < 2 ^ 23" and "ex < 256"
  shows "binary32_of_bits (of_nat (sign_bit s + ex * 2 ^ 23 + fr)) = binary32_fields s ex fr"
proof -
  define n where "n = sign_bit s + ex * 8388608 + fr"
  have n: "n < 2 ^ 32" "2147483648 \<le> n \<longleftrightarrow> s"
    using assms by (simp_all add: n_def sign_bit_def)
  define h where "h = ex + (if s then 256 else 0)"
  have "n = h * 8388608 + fr" by (simp add: n_def h_def sign_bit_def)
  then have "n div 8388608 = ex + (if s then 256 else 0)" "n mod 8388608 = fr"
    using assms(1) by (simp_all flip: h_def)
  moreover have "(ex + (if s then 256 else 0)) mod 256 = ex" using assms by simp
  moreover have "unat (of_nat n :: 32 word) = n"
    using n by (simp add: unsigned_of_nat take_bit_nat_eq_self)
  ultimately have "binary32_of_bits (of_nat n) = binary32_fields s ex fr"
    using n by (simp add: binary32_of_bits_def)
  then show ?thesis by (simp add: n_def)
qed

lemma binary32_bits_finite:
  assumes "odd m" "bit_len m \<le> 24" "-149 \<le> e" "int (bit_len m) + e \<le> 128"
  shows "binary32_of_bits (bits_of_binary32 (Finite s m e)) = Finite s m e"
proof -
  define q M where "q = max (int (bit_len m) + e - 24) (-149)" and "M = m * 2 ^ nat (e - q)"
  have q: "q \<le> e" "-149 \<le> q" "q \<le> 104" using assms by (auto simp: q_def)
  have bl: "bit_len M = bit_len m + nat (e - q)" using assms(1) by (simp add: M_def bit_len_shift odd_pos)
  moreover have "int (bit_len m) + e - 24 \<le> q" by (simp add: q_def)
  ultimately have "bit_len M \<le> 24" using q by linarith
  then have M: "M < 2 ^ 24" using bit_len_upper [of M] power_increasing [of "bit_len M" 24 "2::nat"] by linarith
  have "odd_form M q = odd_form m (q + int (nat (e - q)))"
    unfolding M_def using assms(1) by (intro odd_form_shift) (simp add: odd_pos)
  then have odd: "odd_form M q = (m, e)" using q assms(1) by simp
  have bits: "bits_of_binary32 (Finite s m e) = of_nat (sign_bit s + nat (q + 149) * 2 ^ 23 + M)"
    using odd_pos [OF assms(1)] by (simp add: q_def M_def Let_def)
  show ?thesis
  proof (cases "M < 2 ^ 23")
    case True
    then have "bit_len M \<le> 23" by (rule bit_len_le)
    then have "q = -149" using bl q by (simp add: q_def max_def split: if_splits)
    then show ?thesis
      using bits True odd binary32_of_fields [OF True, of 0 s]
      by (simp add: binary32_fields_def binary32_mantissa_def binary32_exponent_def)
  next
    case False
    define k fr where "k = nat (q + 149) + 1" and "fr = M - 2 ^ 23"
    have "sign_bit s + nat (q + 149) * 2 ^ 23 + M = sign_bit s + k * 2 ^ 23 + fr"
      using False by (simp add: k_def fr_def)
    with bits have "bits_of_binary32 (Finite s m e) = of_nat (sign_bit s + k * 2 ^ 23 + fr)" by (simp only:)
    moreover have fr: "fr < 2 ^ 23" "k < 255" "M = fr + 2 ^ 23" "int k = q + 150"
      using M q False by (simp_all add: k_def fr_def)
    moreover have "binary32_fields s k fr = Finite s m e"
      using odd q fr by (simp add: binary32_fields_def binary32_mantissa_def binary32_exponent_def)
    ultimately show ?thesis using binary32_of_fields [of fr k s] by (simp only:)
  qed
qed

lemma binary32_of_bits_of_binary32 [simp]:
  assumes "is_binary32 x"
  shows "binary32_of_bits (bits_of_binary32 x) = x"
proof (cases x)
  case NaN
  then show ?thesis using binary32_of_fields [of "2 ^ 22" 255 False]
    by (simp add: sign_bit_def binary32_fields_def)
next
  case (Infinity s)
  then show ?thesis using binary32_of_fields [of 0 255 s] by (simp add: binary32_fields_def)
next
  case (Finite s m e)
  show ?thesis
  proof (cases "m = 0")
    case True
    with Finite assms have "e = 0" by (auto simp: representable_def)
    with True Finite show ?thesis
      using binary32_of_fields [of 0 0 s] by (simp add: binary32_fields_def binary32_mantissa_def)
  next
    case False
    with Finite assms show ?thesis by (auto simp: representable_def intro!: binary32_bits_finite simp del: bits_of_binary32.simps)
  qed
qed

end
