(* ===== verification/JSText.thy ===== *)
theory JSText
  imports JSNumber
begin

text \<open>
  The strings of the modelled language: sequences of UTF-16 code units. The theory holds the
  pieces of the standard library the code uses on them: digits and \<open>toString(16)\<close>,
  \<open>padStart\<close>, \<open>split\<close>, \<open>join\<close>, \<open>parseInt(s, 16)\<close>, \<open>TextEncoder.encode\<close> and
  \<open>TextDecoder.decode\<close> (the UTF-8 encoder and decoder of the WHATWG Encoding standard, with
  replacement of malformed input).
\<close>

lemma unat_of_nat16 [simp]: "n < 65536 \<Longrightarrow> unat (of_nat n :: 16 word) = n"
  by (simp add: unsigned_of_nat take_bit_nat_eq_self)

lemma unat_of_nat8 [simp]: "n < 256 \<Longrightarrow> unat (of_nat n :: 8 word) = n"
  by (simp add: unsigned_of_nat take_bit_nat_eq_self)

lemma unat_lt_65536 [simp]: "unat (u :: 16 word) < 65536"
  using unsigned_less [of u] by simp

lemma unat_lt_256 [simp]: "unat (b :: 8 word) < 256"
  using unsigned_less [of b] by simp

lemma unat16_lt [simp]: "unat (u :: 16 word) < 0x110000"
  using unat_lt_65536 [of u] by linarith

lemma of_nat16_eq_iff:
  "m < 65536 \<Longrightarrow> n < 65536 \<Longrightarrow> (of_nat m :: 16 word) = of_nat n \<longleftrightarrow> m = n"
  by (metis unat_of_nat16)

section \<open>Digits\<close>

fun digits :: "nat \<Rightarrow> nat \<Rightarrow> nat list" where
  "digits b n = (if n < b \<or> b < 2 then [n] else digits b (n div b) @ [n mod b])"

declare digits.simps [simp del]

definition digits_value :: "nat \<Rightarrow> nat list \<Rightarrow> nat" where
  "digits_value b ds = foldl (\<lambda>a d. a * b + d) 0 ds"

lemma digits_value_append:
  "digits_value b (xs @ ys) = digits_value b xs * b ^ length ys + digits_value b ys"
proof (induction ys rule: rev_induct)
  case (snoc y ys)
  have "digits_value b (xs @ ys @ [y]) = digits_value b (xs @ ys) * b + y"
    by (simp add: digits_value_def)
  also have "\<dots> = digits_value b xs * b ^ length (ys @ [y]) + digits_value b (ys @ [y])"
    using snoc by (simp add: digits_value_def algebra_simps)
  finally show ?case .
qed (simp add: digits_value_def)

lemma digits_value_simps [simp]: "digits_value b [] = 0" "digits_value b [d] = d"
  by (simp_all add: digits_value_def)

lemma digits_value_digits [simp]: "digits_value b (digits b n) = n"
proof (induction b n rule: digits.induct)
  case (1 b n)
  then show ?case
    by (cases "n < b \<or> b < 2") (simp_all add: digits.simps [of b n] digits_value_append)
qed

lemma digits_nonempty [simp]: "digits b n \<noteq> []"
  by (subst digits.simps) simp

lemma digits_less: "2 \<le> b \<Longrightarrow> d \<in> set (digits b n) \<Longrightarrow> d < b"
proof (induction b n rule: digits.induct)
  case (1 b n)
  then show ?case by (auto simp: digits.simps [of b n] split: if_splits)
qed

lemma hd_digits_pos: "0 < n \<Longrightarrow> 2 \<le> b \<Longrightarrow> 0 < hd (digits b n)"
proof (induction b n rule: digits.induct)
  case (1 b n)
  show ?case
  proof (cases "n < b \<or> b < 2")
    case True
    with 1 show ?thesis by (simp add: digits.simps [of b n])
  next
    case False
    with 1 have "0 < hd (digits b (n div b))" by (simp add: div_greater_zero_iff)
    with False show ?thesis by (simp add: digits.simps [of b n])
  qed
qed

lemma digits_0 [simp]: "2 \<le> b \<Longrightarrow> digits b 0 = [0]"
  by (subst digits.simps) simp

text \<open>The code unit of a digit below 16, and back (upper-case letters are read too).\<close>

definition digit_unit :: "nat \<Rightarrow> code_unit" where
  "digit_unit d = of_nat (if d < 10 then 48 + d else 87 + d)"

definition hex_digit :: "code_unit \<Rightarrow> nat option" where
  "hex_digit u =
     (let n = unat u
      in if 48 \<le> n \<and> n \<le> 57 then Some (n - 48)
         else if 97 \<le> n \<and> n \<le> 102 then Some (n - 87)
         else if 65 \<le> n \<and> n \<le> 70 then Some (n - 55)
         else None)"

lemma unat_digit_unit: "d < 16 \<Longrightarrow> unat (digit_unit d) = (if d < 10 then 48 + d else 87 + d)"
  by (simp add: digit_unit_def)

lemma hex_digit_unit [simp]: "d < 16 \<Longrightarrow> hex_digit (digit_unit d) = Some d"
  by (auto simp: hex_digit_def unat_digit_unit Let_def)

definition to_string :: "nat \<Rightarrow> nat \<Rightarrow> jstring" where
  "to_string b n = map digit_unit (digits b n)"

definition pad_start :: "nat \<Rightarrow> code_unit \<Rightarrow> jstring \<Rightarrow> jstring" where
  "pad_start n c s = replicate (n - length s) c @ s"

section \<open>split and join\<close>

fun split_at :: "'a \<Rightarrow> 'a list \<Rightarrow> 'a list list" where
  "split_at c [] = [[]]"
| "split_at c (x # xs) =
     (if x = c then [] # split_at c xs
      else (case split_at c xs of [] \<Rightarrow> [[x]] | y # ys \<Rightarrow> (x # y) # ys))"

fun join_with :: "'a \<Rightarrow> 'a list list \<Rightarrow> 'a list" where
  "join_with c [] = []"
| "join_with c [xs] = xs"
| "join_with c (xs # ys # zs) = xs @ c # join_with c (ys # zs)"

lemma split_at_nonempty [simp]: "split_at c xs \<noteq> []"
  by (induction xs) (auto split: list.splits)

lemma split_at_fresh: "c \<notin> set xs \<Longrightarrow> split_at c xs = [xs]"
  by (induction xs) auto

lemma split_at_append: "c \<notin> set xs \<Longrightarrow> split_at c (xs @ c # ys) = xs # split_at c ys"
  by (induction xs) auto

lemma split_at_join: "xss \<noteq> [] \<Longrightarrow> \<forall>xs\<in>set xss. c \<notin> set xs \<Longrightarrow> split_at c (join_with c xss) = xss"
  by (induction c xss rule: join_with.induct) (auto simp: split_at_fresh split_at_append)

lemma join_split_at: "join_with c (split_at c xs) = xs"
proof (induction xs)
  case (Cons x xs)
  then show ?case by (cases "split_at c xs"; cases "tl (split_at c xs)") auto
qed simp

lemma length_split_at: "length (split_at c xs) = Suc (count_list xs c)"
  by (induction xs) (auto split: list.splits)

section \<open>parseInt with radix 16\<close>

text \<open>White space and line terminators that \<open>parseInt\<close> skips.\<close>

definition is_js_space :: "code_unit \<Rightarrow> bool" where
  "is_js_space u = (let n = unat u
     in (9 \<le> n \<and> n \<le> 13) \<or> n = 32 \<or> n = 160 \<or> n = 0x1680 \<or> (0x2000 \<le> n \<and> n \<le> 0x200A)
        \<or> n \<in> {0x2028, 0x2029, 0x202F, 0x205F, 0x3000, 0xFEFF})"

fun hex_prefix :: "jstring \<Rightarrow> nat list" where
  "hex_prefix [] = []"
| "hex_prefix (u # us) = (case hex_digit u of None \<Rightarrow> [] | Some d \<Rightarrow> d # hex_prefix us)"

definition drop_sign :: "jstring \<Rightarrow> bool \<times> jstring" where
  "drop_sign s = (case s of
       [] \<Rightarrow> (False, [])
     | u # us \<Rightarrow> if u = 45 then (True, us) else if u = 43 then (False, us) else (False, s))"

definition drop_0x :: "jstring \<Rightarrow> jstring" where
  "drop_0x s = (case s of u # v # us \<Rightarrow> if u = 48 \<and> (v = 120 \<or> v = 88) then us else s | _ \<Rightarrow> s)"

definition parse_int16 :: "jstring \<Rightarrow> js_number" where
  "parse_int16 s =
     (let (neg, t) = drop_sign (dropWhile is_js_space s);
          ds = hex_prefix (drop_0x t)
      in if ds = [] then NaN else round64 neg (digits_value 16 ds) 1)"

lemma hex_prefix_digits: "\<forall>d\<in>set ds. d < 16 \<Longrightarrow> hex_prefix (map digit_unit ds) = ds"
  by (induction ds) auto

lemma parse_int16_empty [simp]: "parse_int16 [] = NaN"
  by (simp add: parse_int16_def drop_sign_def drop_0x_def)

lemma round64_nat:
  assumes "n < 2 ^ 53"
  shows "round64 False n 1 = num_of_int (int n)"
proof (cases "n = 0")
  case True
  then show ?thesis by (simp add: round64_def round_ratio_def num_of_int_def)
next
  case False
  obtain m e where me: "odd_form n 0 = (m, e)" by fastforce
  with False obtain k where k: "odd m" "n = m * 2 ^ k" "e = int k"
    using odd_form_spec [of n 0 m e] by auto
  have "bit_len n \<le> 53" using assms by (rule bit_len_le)
  then have "bit_len m + k \<le> 53" using k by (simp add: bit_len_shift odd_pos)
  then have "representable 53 (-1074) 1023 m e" using k by (simp add: representable_def)
  then have "round64 False (numerator m e) (denominator e) = Finite False m e"
    unfolding round64_def by (rule round_ratio_representable)
  moreover have "numerator m e = n" "denominator e = 1"
    using k by (simp_all add: numerator_def denominator_def)
  ultimately show ?thesis using me by (simp add: num_of_int_def)
qed

section \<open>Code points and surrogates\<close>

definition is_high :: "code_unit \<Rightarrow> bool" where
  "is_high u \<longleftrightarrow> 0xD800 \<le> unat u \<and> unat u < 0xDC00"

definition is_low :: "code_unit \<Rightarrow> bool" where
  "is_low u \<longleftrightarrow> 0xDC00 \<le> unat u \<and> unat u < 0xE000"

definition surrogate_pair :: "code_unit \<Rightarrow> code_unit \<Rightarrow> nat" where
  "surrogate_pair h l = 0x10000 + (unat h - 0xD800) * 0x400 + (unat l - 0xDC00)"

text \<open>The conversion to scalar values: an unpaired surrogate becomes U+FFFD.\<close>

fun code_points :: "jstring \<Rightarrow> nat list" where
  "code_points [] = []"
| "code_points [u] = [if is_high u \<or> is_low u then 0xFFFD else unat u]"
| "code_points (u # v # us) =
     (if is_high u then
        (if is_low v then surrogate_pair u v # code_points us else 0xFFFD # code_points (v # us))
      else if is_low u then 0xFFFD # code_points (v # us)
      else unat u # code_points (v # us))"

definition units_of :: "nat \<Rightarrow> jstring" where
  "units_of cp =
     (if cp < 0x10000 then [of_nat cp]
      else [of_nat (0xD800 + (cp - 0x10000) div 0x400), of_nat (0xDC00 + (cp - 0x10000) mod 0x400)])"

definition scalar_value :: "nat \<Rightarrow> bool" where
  "scalar_value cp \<longleftrightarrow> cp < 0xD800 \<or> (0xE000 \<le> cp \<and> cp < 0x110000)"

text \<open>No unpaired surrogate.\<close>

fun well_formed :: "jstring \<Rightarrow> bool" where
  "well_formed [] = True"
| "well_formed [u] = (\<not> is_high u \<and> \<not> is_low u)"
| "well_formed (u # v # us) =
     (if is_high u then is_low v \<and> well_formed us else \<not> is_low u \<and> well_formed (v # us))"

lemma not_high_low [simp]: "is_high u \<Longrightarrow> \<not> is_low u"
  by (simp add: is_high_def is_low_def)

lemma surrogate_pair_bounds:
  "is_high h \<Longrightarrow> is_low l \<Longrightarrow> 0x10000 \<le> surrogate_pair h l \<and> surrogate_pair h l < 0x110000"
  unfolding is_high_def is_low_def surrogate_pair_def by linarith

lemma units_of_pair: "is_high h \<Longrightarrow> is_low l \<Longrightarrow> units_of (surrogate_pair h l) = [h, l]"
proof -
  assume h: "is_high h" and l: "is_low l"
  define a b where "a = unat h - 0xD800" and "b = unat l - 0xDC00"
  have "surrogate_pair h l - 0x10000 = a * 0x400 + b"
    by (simp add: surrogate_pair_def a_def b_def)
  moreover have "b < 0x400" using l unfolding b_def is_low_def by linarith
  ultimately have "(surrogate_pair h l - 0x10000) div 0x400 = a"
    and "(surrogate_pair h l - 0x10000) mod 0x400 = b" by simp_all
  moreover have "0xD800 + a = unat h" "0xDC00 + b = unat l"
    using h l by (simp_all add: a_def b_def is_high_def is_low_def)
  moreover have "\<not> surrogate_pair h l < 0x10000" using surrogate_pair_bounds [OF h l] by simp
  ultimately show ?thesis unfolding units_of_def by simp
qed

lemma units_of_unit [simp]: "units_of (unat u) = [u]"
  by (simp add: units_of_def)

lemma code_points_scalar: "cp \<in> set (code_points s) \<Longrightarrow> scalar_value cp"
  by (induction s rule: code_points.induct)
     (auto simp: scalar_value_def is_high_def is_low_def surrogate_pair_def split: if_splits)

lemma units_of_code_points: "well_formed s \<Longrightarrow> concat (map units_of (code_points s)) = s"
  by (induction s rule: code_points.induct) (auto simp: units_of_pair split: if_splits)

lemma well_formed_append: "well_formed s \<Longrightarrow> well_formed t \<Longrightarrow> well_formed (s @ t)"
proof (induction s rule: well_formed.induct)
  case (2 u)
  then show ?case by (cases t) auto
qed (auto split: if_splits)

lemma well_formed_plain: "\<forall>u\<in>set s. \<not> is_high u \<and> \<not> is_low u \<Longrightarrow> well_formed s"
  by (induction s rule: well_formed.induct) auto

section \<open>TextEncoder and TextDecoder\<close>

definition utf8_bytes :: "nat \<Rightarrow> byte list" where
  "utf8_bytes cp =
     (if cp < 0x80 then [of_nat cp]
      else if cp < 0x800 then [of_nat (0xC0 + cp div 0x40), of_nat (0x80 + cp mod 0x40)]
      else if cp < 0x10000 then
        [of_nat (0xE0 + cp div 0x1000), of_nat (0x80 + cp div 0x40 mod 0x40), of_nat (0x80 + cp mod 0x40)]
      else
        [of_nat (0xF0 + cp div 0x40000), of_nat (0x80 + cp div 0x1000 mod 0x40),
         of_nat (0x80 + cp div 0x40 mod 0x40), of_nat (0x80 + cp mod 0x40)])"

definition text_encode :: "jstring \<Rightarrow> byte list" where
  "text_encode s = concat (map utf8_bytes (code_points s))"

text \<open>
  The decoder's state: the code point being built, the continuation bytes still needed, and
  the bounds of the next one. A byte out of bounds yields U+FFFD and is read again from the
  start state; so does the end of the input inside a sequence.
\<close>

fun utf8_decode :: "nat \<Rightarrow> nat \<Rightarrow> nat \<Rightarrow> nat \<Rightarrow> byte list \<Rightarrow> nat list" where
  "utf8_decode cp 0 lo hi [] = []"
| "utf8_decode cp (Suc n) lo hi [] = [0xFFFD]"
| "utf8_decode cp 0 lo hi (b # bs) =
     (let x = unat b in
      if x < 0x80 then x # utf8_decode 0 0 0x80 0xBF bs
      else if 0xC2 \<le> x \<and> x \<le> 0xDF then utf8_decode (x - 0xC0) 1 0x80 0xBF bs
      else if 0xE0 \<le> x \<and> x \<le> 0xEF then
        utf8_decode (x - 0xE0) 2 (if x = 0xE0 then 0xA0 else 0x80) (if x = 0xED then 0x9F else 0xBF) bs
      else if 0xF0 \<le> x \<and> x \<le> 0xF4 then
        utf8_decode (x - 0xF0) 3 (if x = 0xF0 then 0x90 else 0x80) (if x = 0xF4 then 0x8F else 0xBF) bs
      else 0xFFFD # utf8_decode 0 0 0x80 0xBF bs)"
| "utf8_decode cp (Suc n) lo hi (b # bs) =
     (let x = unat b in
      if lo \<le> x \<and> x \<le> hi then
        (if n = 0 then (cp * 0x40 + (x - 0x80)) # utf8_decode 0 0 0x80 0xBF bs
         else utf8_decode (cp * 0x40 + (x - 0x80)) n 0x80 0xBF bs)
      else 0xFFFD # utf8_decode 0 0 0x80 0xBF (b # bs))"

text \<open>A decoder strips a leading byte order mark.\<close>

definition text_decode :: "byte list \<Rightarrow> jstring" where
  "text_decode bs =
     (let cps = utf8_decode 0 0 0x80 0xBF bs
      in concat (map units_of (if cps \<noteq> [] \<and> hd cps = 0xFEFF then tl cps else cps)))"

lemma utf8_decode_cont:
  assumes "r < 0x40" "lo \<le> 0x80 + r" "0x80 + r \<le> hi"
  shows "utf8_decode cp (Suc n) lo hi ((0x80 + of_nat r) # bs) =
    (if n = 0 then (cp * 0x40 + r) # utf8_decode 0 0 0x80 0xBF bs
     else utf8_decode (cp * 0x40 + r) n 0x80 0xBF bs)"
proof -
  have "unat (0x80 + of_nat r :: byte) = 0x80 + r"
    using assms unat_of_nat8 [of "0x80 + r"] by simp
  then show ?thesis using assms by (simp only: utf8_decode.simps Let_def) simp
qed

lemma utf8_decode_lead2:
  assumes "2 \<le> a" "a < 0x20"
  shows "utf8_decode cp 0 lo hi ((0xC0 + of_nat a) # bs) = utf8_decode a 1 0x80 0xBF bs"
proof -
  have "unat (0xC0 + of_nat a :: byte) = 0xC0 + a"
    using assms unat_of_nat8 [of "0xC0 + a"] by simp
  then show ?thesis using assms by (simp only: utf8_decode.simps Let_def) simp
qed

lemma utf8_decode_lead3:
  assumes "a < 0x10"
  shows "utf8_decode cp 0 lo hi ((0xE0 + of_nat a) # bs) =
    utf8_decode a 2 (if a = 0 then 0xA0 else 0x80) (if a = 0xD then 0x9F else 0xBF) bs"
proof -
  have "unat (0xE0 + of_nat a :: byte) = 0xE0 + a"
    using assms unat_of_nat8 [of "0xE0 + a"] by simp
  then show ?thesis using assms by (simp only: utf8_decode.simps Let_def) simp
qed

lemma utf8_decode_lead4:
  assumes "a \<le> 4"
  shows "utf8_decode cp 0 lo hi ((0xF0 + of_nat a) # bs) =
    utf8_decode a 3 (if a = 0 then 0x90 else 0x80) (if a = 4 then 0x8F else 0xBF) bs"
proof -
  have "unat (0xF0 + of_nat a :: byte) = 0xF0 + a"
    using assms unat_of_nat8 [of "0xF0 + a"] by simp
  then show ?thesis using assms by (simp only: utf8_decode.simps Let_def) simp
qed

lemma utf8_decode_bytes:
  assumes "scalar_value cp"
  shows "utf8_decode 0 0 0x80 0xBF (utf8_bytes cp @ bs) = cp # utf8_decode 0 0 0x80 0xBF bs"
proof -
  consider "cp < 0x80" | "0x80 \<le> cp" "cp < 0x800" | "0x800 \<le> cp" "cp < 0x10000"
    | "0x10000 \<le> cp" "cp < 0x110000"
    using assms unfolding scalar_value_def by linarith
  then show ?thesis
  proof cases
    case 1
    then show ?thesis by (simp add: utf8_bytes_def)
  next
    case 2
    define a r where "a = cp div 0x40" and "r = cp mod 0x40"
    have cp: "cp = a * 0x40 + r" "r < 0x40" by (simp_all add: a_def r_def)
    with 2 have "2 \<le> a" "a < 0x20" by simp_all
    with 2 cp(2) have "utf8_decode 0 0 0x80 0xBF (utf8_bytes cp @ bs)
        = (a * 0x40 + r) # utf8_decode 0 0 0x80 0xBF bs"
      by (simp add: utf8_bytes_def a_def [symmetric] r_def [symmetric] utf8_decode_lead2 utf8_decode_cont
          del: utf8_decode.simps)
    with cp show ?thesis by simp
  next
    case 3
    define a m r where "a = cp div 0x1000" and "m = cp div 0x40 mod 0x40" and "r = cp mod 0x40"
    have cp: "cp = (a * 0x40 + m) * 0x40 + r" "m < 0x40" "r < 0x40"
      using div_mult_mod_eq [of cp "0x40"] div_mult_mod_eq [of "cp div 0x40" "0x40"]
      by (simp_all add: a_def m_def r_def div_mult2_eq [symmetric])
    have a: "a < 0x10" and lo: "a = 0 \<longrightarrow> 0x20 \<le> m" using 3 cp by simp_all
    moreover have hi: "a = 0xD \<longrightarrow> m < 0x20"
      using assms cp unfolding scalar_value_def by auto
    ultimately have "utf8_decode 0 0 0x80 0xBF (utf8_bytes cp @ bs)
        = ((a * 0x40 + m) * 0x40 + r) # utf8_decode 0 0 0x80 0xBF bs"
      using 3 cp(2,3)
      by (auto simp: utf8_bytes_def a_def [symmetric] m_def [symmetric] r_def [symmetric]
          utf8_decode_lead3 utf8_decode_cont numeral_2_eq_2 simp del: utf8_decode.simps)
    with cp show ?thesis by simp
  next
    case 4
    define a l m r where "a = cp div 0x40000" and "l = cp div 0x1000 mod 0x40"
      and "m = cp div 0x40 mod 0x40" and "r = cp mod 0x40"
    have cp: "cp = ((a * 0x40 + l) * 0x40 + m) * 0x40 + r" "l < 0x40" "m < 0x40" "r < 0x40"
      using div_mult_mod_eq [of cp "0x40"] div_mult_mod_eq [of "cp div 0x40" "0x40"]
        div_mult_mod_eq [of "cp div 0x1000" "0x40"]
      by (simp_all add: a_def l_def m_def r_def div_mult2_eq [symmetric])
    have a: "a \<le> 4" and lo: "a = 0 \<longrightarrow> 0x10 \<le> l" and hi: "a = 4 \<longrightarrow> l < 0x10" using 4 cp by simp_all
    then have "utf8_decode 0 0 0x80 0xBF (utf8_bytes cp @ bs)
        = (((a * 0x40 + l) * 0x40 + m) * 0x40 + r) # utf8_decode 0 0 0x80 0xBF bs"
      using 4 cp(2,3,4)
      by (auto simp: utf8_bytes_def a_def [symmetric] l_def [symmetric] m_def [symmetric] r_def [symmetric]
          utf8_decode_lead4 utf8_decode_cont numeral_3_eq_3 simp del: utf8_decode.simps)
    with cp show ?thesis by simp
  qed
qed

lemma utf8_decode_encode:
  "\<forall>cp\<in>set cps. scalar_value cp \<Longrightarrow>
     utf8_decode 0 0 0x80 0xBF (concat (map utf8_bytes cps)) = cps"
  by (induction cps) (simp_all add: utf8_decode_bytes)

text \<open>
  What the encoder writes the decoder reads back: for every string without unpaired
  surrogates that does not start with a byte order mark.
\<close>

lemma text_decode_encode:
  assumes "well_formed s" and "s = [] \<or> hd s \<noteq> 0xFEFF"
  shows "text_decode (text_encode s) = s"
proof -
  have "utf8_decode 0 0 0x80 0xBF (text_encode s) = code_points s"
    unfolding text_encode_def by (rule utf8_decode_encode) (simp add: code_points_scalar)
  moreover have "\<not> (code_points s \<noteq> [] \<and> hd (code_points s) = 0xFEFF)"
    using assms
    by (cases s rule: code_points.cases)
       (auto simp: surrogate_pair_def unsigned_word_eqI split: if_splits dest!: arg_cong [of _ _ "of_nat :: nat \<Rightarrow> code_unit"])
  ultimately show ?thesis
    using units_of_code_points [OF assms(1)] by (auto simp: text_decode_def Let_def)
qed

end
