(* ===== verification/ByteViews.thy ===== *)
theory ByteViews
  imports JSNumber
begin

text \<open>
  Typed arrays and data views of the modelled language. A \<open>Uint8Array\<close> is a window of a
  buffer; a \<open>DataView\<close> made of \<open>data.buffer\<close> spans the whole buffer, whatever the window is.
  Every accessor checks its bounds and throws a RangeError. The locale states what a
  fixed-width field of a buffer promises and is interpreted on the four widths the code uses.
\<close>

record uint8_array =
  buffer :: "byte list"
  byte_offset :: nat
  byte_length :: nat

definition array_ok :: "uint8_array \<Rightarrow> bool" where
  "array_ok a \<longleftrightarrow> byte_offset a + byte_length a \<le> length (buffer a)"

text \<open>An array over a whole buffer, the bytes of an array, and \<open>slice\<close>, which copies.\<close>

definition array_of :: "byte list \<Rightarrow> uint8_array" where
  "array_of bs = \<lparr> buffer = bs, byte_offset = 0, byte_length = length bs \<rparr>"

definition bytes_of :: "uint8_array \<Rightarrow> byte list" where
  "bytes_of a = take (byte_length a) (drop (byte_offset a) (buffer a))"

definition slice :: "uint8_array \<Rightarrow> nat \<Rightarrow> nat \<Rightarrow> byte list" where
  "slice a i j = take (j - i) (drop i (bytes_of a))"

definition subarray :: "uint8_array \<Rightarrow> nat \<Rightarrow> nat \<Rightarrow> uint8_array" where
  "subarray a i j = a \<lparr> byte_offset := byte_offset a + min i (byte_length a),
     byte_length := min j (byte_length a) - min i (byte_length a) \<rparr>"

lemma array_of_simps [simp]:
  "buffer (array_of bs) = bs" "byte_offset (array_of bs) = 0" "byte_length (array_of bs) = length bs"
  "bytes_of (array_of bs) = bs" "array_ok (array_of bs)"
  by (simp_all add: array_of_def bytes_of_def array_ok_def)

lemma length_bytes_of [simp]: "array_ok a \<Longrightarrow> length (bytes_of a) = byte_length a"
  by (simp add: bytes_of_def array_ok_def)

lemma array_ok_subarray: "array_ok a \<Longrightarrow> array_ok (subarray a i j)"
  by (auto simp: array_ok_def subarray_def)

lemma bytes_of_subarray:
  "i \<le> j \<Longrightarrow> j \<le> byte_length a \<Longrightarrow> bytes_of (subarray a i j) = slice a i j"
  by (simp add: bytes_of_def subarray_def slice_def drop_take add.commute min_def)

section \<open>Checked access to a buffer\<close>

definition out_of_bounds :: js_error where
  "out_of_bounds = RangeError (js ''Offset is outside the bounds of the DataView'')"

definition overwrite :: "byte list \<Rightarrow> nat \<Rightarrow> byte list \<Rightarrow> byte list" where
  "overwrite b off xs = take off b @ xs @ drop (off + length xs) b"

definition put_bytes :: "byte list \<Rightarrow> nat \<Rightarrow> byte list \<Rightarrow> js_error + byte list" where
  "put_bytes b off xs = (if off + length xs \<le> length b then Inr (overwrite b off xs) else Inl out_of_bounds)"

definition get_bytes :: "byte list \<Rightarrow> nat \<Rightarrow> nat \<Rightarrow> js_error + byte list" where
  "get_bytes b off n = (if off + n \<le> length b then Inr (take n (drop off b)) else Inl out_of_bounds)"

lemma length_overwrite [simp]: "off + length xs \<le> length b \<Longrightarrow> length (overwrite b off xs) = length b"
  by (simp add: overwrite_def)

text \<open>A write at the end of the part already written extends that part.\<close>

lemma overwrite_append:
  "length h = off \<Longrightarrow> length xs = n \<Longrightarrow> n \<le> length t \<Longrightarrow>
     overwrite (h @ t) off xs = (h @ xs) @ drop n t"
  by (simp add: overwrite_def)

lemma put_bytes_append:
  "length h = off \<Longrightarrow> length xs = n \<Longrightarrow> n \<le> length t \<Longrightarrow>
     put_bytes (h @ t) off xs = Inr ((h @ xs) @ drop n t)"
  by (simp add: put_bytes_def overwrite_append)

lemma put_bytes_Inr: "off + length xs \<le> length b \<Longrightarrow> put_bytes b off xs = Inr (overwrite b off xs)"
  by (simp add: put_bytes_def)

lemma get_bytes_put: "put_bytes b off xs = Inr b' \<Longrightarrow> get_bytes b' off (length xs) = Inr xs"
  by (auto simp: put_bytes_def get_bytes_def overwrite_def split: if_splits)

lemma get_bytes_put_other:
  assumes "put_bytes b off xs = Inr b'" and "off' + n \<le> off \<or> off + length xs \<le> off'"
  shows "get_bytes b' off' n = get_bytes b off' n"
proof -
  from assms(1) have b': "b' = overwrite b off xs" and len: "off + length xs \<le> length b"
    by (auto simp: put_bytes_def split: if_splits)
  from assms(2) have "take n (drop off' b') = take n (drop off' b)"
  proof
    assume "off' + n \<le> off"
    then show ?thesis using len unfolding b'
      by (intro nth_equalityI) (auto simp: overwrite_def nth_append)
  next
    assume "off + length xs \<le> off'"
    then show ?thesis using len by (simp add: b' overwrite_def)
  qed
  then show ?thesis using len by (simp add: get_bytes_def b')
qed

lemma get_bytes_append:
  "length h = off \<Longrightarrow> length xs = n \<Longrightarrow> get_bytes (h @ xs @ t) off n = Inr xs"
  by (simp add: get_bytes_def)

section \<open>Little-endian numbers\<close>

fun le_bytes :: "nat \<Rightarrow> nat \<Rightarrow> byte list" where
  "le_bytes 0 x = []"
| "le_bytes (Suc n) x = of_nat x # le_bytes n (x div 256)"

fun le_value :: "byte list \<Rightarrow> nat" where
  "le_value [] = 0"
| "le_value (b # bs) = unat b + 256 * le_value bs"

lemma unat_lt_byte: "unat (b :: byte) < 256"
  using unsigned_less [of b] by simp

lemma length_le_bytes [simp]: "length (le_bytes n x) = n"
  by (induction n arbitrary: x) auto

lemma le_value_bytes: "le_value (le_bytes n x) = x mod 256 ^ n"
proof (induction n arbitrary: x)
  case (Suc n)
  have "x mod 256 ^ Suc n = 256 * (x div 256 mod 256 ^ n) + x mod 256"
    by (simp add: mod_mult2_eq)
  with Suc show ?case by (simp add: unsigned_of_nat take_bit_eq_mod)
qed simp

lemma le_bytes_value: "le_bytes (length bs) (le_value bs) = bs"
proof (induction bs)
  case (Cons b bs)
  have "(of_nat (unat b + 256 * le_value bs) :: byte) = b"
    by (rule unsigned_word_eqI [where 'a = nat])
       (simp add: unsigned_of_nat take_bit_eq_mod mod_less [OF unat_lt_byte] del: of_nat_add of_nat_mult)
  moreover have "(unat b + 256 * le_value bs) div 256 = le_value bs"
    by (simp add: div_less [OF unat_lt_byte])
  ultimately show ?case using Cons by simp
qed simp

lemma le_value_less: "le_value bs < 256 ^ length bs"
  using le_value_bytes [of "length bs" "le_value bs"] le_bytes_value [of bs]
  by (metis mod_less_divisor zero_less_numeral zero_less_power)

section \<open>The accessors of a data view\<close>

definition set_field :: "('v \<Rightarrow> byte list) \<Rightarrow> byte list \<Rightarrow> nat \<Rightarrow> 'v \<Rightarrow> js_error + byte list" where
  "set_field enc b off v = put_bytes b off (enc v)"

definition get_field :: "nat \<Rightarrow> (byte list \<Rightarrow> 'v) \<Rightarrow> byte list \<Rightarrow> nat \<Rightarrow> js_error + 'v" where
  "get_field width dec b off = bind (get_bytes b off width) (\<lambda>bs. Inr (dec bs))"

definition uint8_bytes :: "js_number \<Rightarrow> byte list" where
  "uint8_bytes x = le_bytes 1 (unat (to_uint x :: 8 word))"

definition uint16_bytes :: "js_number \<Rightarrow> byte list" where
  "uint16_bytes x = le_bytes 2 (unat (to_uint x :: 16 word))"

definition uint32_bytes :: "js_number \<Rightarrow> byte list" where
  "uint32_bytes x = le_bytes 4 (unat (to_uint x :: 32 word))"

definition float32_bytes :: "js_number \<Rightarrow> byte list" where
  "float32_bytes x = le_bytes 4 (unat (bits_of_binary32 (round32 x)))"

definition uint_of_bytes :: "byte list \<Rightarrow> js_number" where
  "uint_of_bytes bs = num_of_int (int (le_value bs))"

definition float32_of_bytes :: "byte list \<Rightarrow> js_number" where
  "float32_of_bytes bs = binary32_of_bits (of_nat (le_value bs))"

abbreviation "set_uint8 \<equiv> set_field uint8_bytes"
abbreviation "set_uint16 \<equiv> set_field uint16_bytes"
abbreviation "set_uint32 \<equiv> set_field uint32_bytes"
abbreviation "set_float32 \<equiv> set_field float32_bytes"
abbreviation "get_uint8 \<equiv> get_field 1 uint_of_bytes"
abbreviation "get_uint16 \<equiv> get_field 2 uint_of_bytes"
abbreviation "get_uint32 \<equiv> get_field 4 uint_of_bytes"
abbreviation "get_float32 \<equiv> get_field 4 float32_of_bytes"

text \<open>What an unsigned field of \<open>n\<close> bits keeps of a number: its value modulo \<open>2^n\<close>.\<close>

definition uint8_stored :: "js_number \<Rightarrow> js_number" where
  "uint8_stored x = num_of_word (to_uint x :: 8 word)"

definition uint16_stored :: "js_number \<Rightarrow> js_number" where
  "uint16_stored x = num_of_word (to_uint x :: 16 word)"

definition uint32_stored :: "js_number \<Rightarrow> js_number" where
  "uint32_stored x = num_of_word (to_uint x :: 32 word)"

section \<open>The contract of a fixed-width field\<close>

locale view_field =
  fixes width :: nat
    and enc :: "'v \<Rightarrow> byte list"
    and dec :: "byte list \<Rightarrow> 'v"
    and stored :: "'v \<Rightarrow> 'v"
  assumes enc_length: "length (enc v) = width"
    and dec_enc: "dec (enc v) = stored v"
    and enc_stored: "enc (stored v) = enc v"
begin

lemma stored_idem: "stored (stored v) = stored v"
  by (metis dec_enc enc_stored)

lemma set_in_bounds:
  "off + width \<le> length b \<Longrightarrow> set_field enc b off v = Inr (overwrite b off (enc v))"
  by (simp add: set_field_def put_bytes_def enc_length)

lemma set_length: "set_field enc b off v = Inr b' \<Longrightarrow> length b' = length b"
  by (auto simp: set_field_def put_bytes_def enc_length split: if_splits)

lemma get_set: "set_field enc b off v = Inr b' \<Longrightarrow> get_field width dec b' off = Inr (stored v)"
  using get_bytes_put [of b off "enc v" b'] by (simp add: set_field_def get_field_def enc_length dec_enc)

lemma get_set_other:
  "set_field enc b off v = Inr b' \<Longrightarrow> off' + n \<le> off \<or> off + width \<le> off' \<Longrightarrow>
     get_field n dec' b' off' = get_field n dec' b off'"
  using get_bytes_put_other [of b off "enc v" b' off' n]
  by (simp add: set_field_def get_field_def enc_length)

lemma set_append:
  "length h = off \<Longrightarrow> width \<le> length t \<Longrightarrow>
     set_field enc (h @ t) off v = Inr ((h @ enc v) @ drop width t)"
  by (simp add: set_field_def put_bytes_append enc_length)

lemma get_append: "length h = off \<Longrightarrow> get_field width dec (h @ enc v @ t) off = Inr (stored v)"
  by (simp add: get_field_def get_bytes_append enc_length dec_enc)

end

lemma uint_field:
  fixes w :: "'w::len word"
  assumes "LENGTH('w) = 8 * n"
  shows "le_value (le_bytes n (unat w)) = unat w"
proof -
  have "(256 :: nat) ^ n = 2 ^ LENGTH('w)" by (simp add: assms power_mult)
  then show ?thesis using unsigned_less [of w] by (simp add: le_value_bytes)
qed

interpretation u8: view_field 1 uint8_bytes uint_of_bytes uint8_stored
  by unfold_locales
     (simp_all add: uint8_bytes_def uint_of_bytes_def uint8_stored_def uint_field del: le_bytes.simps One_nat_def)

interpretation u16: view_field 2 uint16_bytes uint_of_bytes uint16_stored
  by unfold_locales (simp_all add: uint16_bytes_def uint_of_bytes_def uint16_stored_def uint_field)

interpretation u32: view_field 4 uint32_bytes uint_of_bytes uint32_stored
  by unfold_locales (simp_all add: uint32_bytes_def uint_of_bytes_def uint32_stored_def uint_field)

interpretation f32: view_field 4 float32_bytes float32_of_bytes round32
  by unfold_locales (simp_all add: float32_bytes_def float32_of_bytes_def uint_field)

lemmas field_length [wire_simps] = u8.enc_length u16.enc_length u32.enc_length f32.enc_length

text \<open>The bytes of a field read as a number are the field's bytes again.\<close>

lemma uint8_bytes_of [wire_simps]: "uint8_bytes (uint_of_bytes [b]) = [b]"
  by (simp add: uint8_bytes_def uint_of_bytes_def to_uint_num_of_int)

lemma uint16_bytes_of [wire_simps]: "length bs = 2 \<Longrightarrow> uint16_bytes (uint_of_bytes bs) = bs"
  using le_value_less [of bs] le_bytes_value [of bs]
  by (simp add: uint16_bytes_def uint_of_bytes_def to_uint_num_of_int unsigned_of_nat take_bit_nat_eq_self)

lemma float32_bytes_of [wire_simps]:
  assumes "length bs = 4" and "float32_of_bytes bs \<noteq> NaN"
  shows "float32_bytes (float32_of_bytes bs) = bs"
proof -
  have "unat (of_nat (le_value bs) :: 32 word) = le_value bs"
    using le_value_less [of bs] assms(1) by (simp add: unsigned_of_nat take_bit_nat_eq_self)
  moreover have "le_bytes 4 (le_value bs) = bs" using le_bytes_value [of bs] assms(1) by simp
  ultimately show ?thesis
    using assms(2) by (simp add: float32_bytes_def float32_of_bytes_def bits_of_binary32_of_bits)
qed

end
