(* ===== verification/BleProtocol.thy ===== *)
theory BleProtocol
  imports JSText ByteViews
begin

text \<open>
  \<open>src/common/protocol/ble-protocol.ts\<close>: the UUIDs of the GATT services and characteristics,
  the flag and command bytes, the node states, and the 17-byte advertisement of a node with
  its encoder and its parser.
\<close>

section \<open>UUIDs\<close>

text \<open>The objects of constants as tables from property names to values.\<close>

type_synonym 'v constants = "(string \<times> 'v) list"

definition createUUID :: "jstring \<Rightarrow> jstring" where
  "createUUID shortForm = js ''0000'' @ shortForm @ js ''-0000-1000-8000-00805f9b34fb''"

definition BASE_UUID :: jstring where
  "BASE_UUID = js ''00000000-0000-1000-8000-00805f9b34fb''"

definition STANDARD_SERVICES :: "jstring constants" where
  "STANDARD_SERVICES =
    [(''DEVICE_INFORMATION'', js ''0000180a-0000-1000-8000-00805f9b34fb''),
     (''BATTERY_SERVICE'', js ''0000180f-0000-1000-8000-00805f9b34fb'')]"

definition STANDARD_CHARACTERISTICS :: "jstring constants" where
  "STANDARD_CHARACTERISTICS =
    [(''MANUFACTURER_NAME'', js ''00002a29-0000-1000-8000-00805f9b34fb''),
     (''MODEL_NUMBER'', js ''00002a24-0000-1000-8000-00805f9b34fb''),
     (''SERIAL_NUMBER'', js ''00002a25-0000-1000-8000-00805f9b34fb''),
     (''HARDWARE_REVISION'', js ''00002a27-0000-1000-8000-00805f9b34fb''),
     (''FIRMWARE_REVISION'', js ''00002a26-0000-1000-8000-00805f9b34fb''),
     (''SOFTWARE_REVISION'', js ''00002a28-0000-1000-8000-00805f9b34fb''),
     (''BATTERY_LEVEL'', js ''00002a19-0000-1000-8000-00805f9b34fb'')]"

definition INDUSTRIAL_SENSOR_SERVICE :: jstring where
  "INDUSTRIAL_SENSOR_SERVICE = js ''00001000-0000-1000-8000-00805f9b34fb''"

definition INDUSTRIAL_SENSOR_CHARACTERISTICS :: "jstring constants" where
  "INDUSTRIAL_SENSOR_CHARACTERISTICS =
    [(''READING'', js ''00001001-0000-1000-8000-00805f9b34fb''),
     (''CONFIG'', js ''00001002-0000-1000-8000-00805f9b34fb''),
     (''CALIBRATION'', js ''00001003-0000-1000-8000-00805f9b34fb''),
     (''BINDING'', js ''00001004-0000-1000-8000-00805f9b34fb''),
     (''DIAGNOSTICS'', js ''00001005-0000-1000-8000-00805f9b34fb''),
     (''LOG_EXPORT'', js ''00001006-0000-1000-8000-00805f9b34fb''),
     (''COMMAND'', js ''00001007-0000-1000-8000-00805f9b34fb'')]"

definition HUB_MANAGEMENT_SERVICE :: jstring where
  "HUB_MANAGEMENT_SERVICE = js ''00002000-0000-1000-8000-00805f9b34fb''"

definition HUB_MANAGEMENT_CHARACTERISTICS :: "jstring constants" where
  "HUB_MANAGEMENT_CHARACTERISTICS =
    [(''STATUS'', js ''00002001-0000-1000-8000-00805f9b34fb''),
     (''NODES'', js ''00002002-0000-1000-8000-00805f9b34fb''),
     (''SCAN_CONTROL'', js ''00002003-0000-1000-8000-00805f9b34fb''),
     (''COMMISSIONING'', js ''00002004-0000-1000-8000-00805f9b34fb''),
     (''HUB_CONFIG'', js ''00002005-0000-1000-8000-00805f9b34fb'')]"

definition FIRMWARE_UPDATE_SERVICE :: jstring where
  "FIRMWARE_UPDATE_SERVICE = js ''00003000-0000-1000-8000-00805f9b34fb''"

definition FIRMWARE_UPDATE_CHARACTERISTICS :: "jstring constants" where
  "FIRMWARE_UPDATE_CHARACTERISTICS =
    [(''CONTROL_POINT'', js ''00003001-0000-1000-8000-00805f9b34fb''),
     (''DATA'', js ''00003002-0000-1000-8000-00805f9b34fb''),
     (''STATUS'', js ''00003003-0000-1000-8000-00805f9b34fb'')]"

text \<open>Every UUID of the file.\<close>

definition all_uuids :: "jstring list" where
  "all_uuids =
     map snd STANDARD_SERVICES @ map snd STANDARD_CHARACTERISTICS @
     INDUSTRIAL_SENSOR_SERVICE # map snd INDUSTRIAL_SENSOR_CHARACTERISTICS @
     HUB_MANAGEMENT_SERVICE # map snd HUB_MANAGEMENT_CHARACTERISTICS @
     FIRMWARE_UPDATE_SERVICE # map snd FIRMWARE_UPDATE_CHARACTERISTICS"

section \<open>Flags, commands and states\<close>

definition FAULT_FLAGS :: "byte constants" where
  "FAULT_FLAGS =
    [(''SENSOR_HIGH'', 0x01), (''SENSOR_LOW'', 0x02), (''SENSOR_DISCONNECTED'', 0x04),
     (''ADC_SATURATION'', 0x08), (''LOW_BATTERY'', 0x10), (''WATCHDOG_RESET'', 0x20),
     (''CONFIG_CORRUPT'', 0x40), (''RESERVED'', 0x80)]"

definition NODE_COMMANDS :: "byte constants" where
  "NODE_COMMANDS =
    [(''ENTER_COMMISSIONING'', 0x01), (''EXIT_COMMISSIONING'', 0x02),
     (''ENTER_MAINTENANCE'', 0x03), (''EXIT_MAINTENANCE'', 0x04), (''TRIGGER_SAMPLE'', 0x05),
     (''CLEAR_FAULTS'', 0x06), (''FACTORY_RESET'', 0x07), (''REBOOT'', 0x08)]"

definition HUB_SCAN_COMMANDS :: "byte constants" where
  "HUB_SCAN_COMMANDS = [(''START_SCAN'', 0x01), (''STOP_SCAN'', 0x02), (''REFRESH_NODES'', 0x03)]"

datatype NodeState = FACTORY | UNCOMMISSIONED | COMMISSIONING | OPERATIONAL | MAINTENANCE | FAULT

fun NodeState_value :: "NodeState \<Rightarrow> string" where
  "NodeState_value FACTORY = ''factory''"
| "NodeState_value UNCOMMISSIONED = ''uncommissioned''"
| "NodeState_value COMMISSIONING = ''commissioning''"
| "NodeState_value OPERATIONAL = ''operational''"
| "NodeState_value MAINTENANCE = ''maintenance''"
| "NodeState_value FAULT = ''fault''"

definition QUALITY_FLAGS :: "byte constants" where
  "QUALITY_FLAGS = [(''VALID'', 0x01), (''CALIBRATED'', 0x02), (''IN_RANGE'', 0x04), (''STABLE'', 0x08)]"

section \<open>Payload records\<close>

record NodeAdvertisement =
  companyId :: js_number
  version :: js_number
  nodeId :: jstring
  batteryPercent :: js_number
  lastReading :: js_number
  faultFlags :: js_number
  counter :: js_number
  rssi :: "js_number option"

record ReadingPayload =
  timestamp :: js_number
  reading_value :: js_number
  unit_name :: jstring
  quality :: js_number

record DiagnosticsPayload =
  uptime :: js_number
  sampleCount :: js_number
  faultCount :: js_number
  lastFaultCode :: js_number
  avgBatteryMv :: js_number
  minReading :: js_number
  maxReading :: js_number
  connectionCount :: js_number
  lastConnection :: js_number

section \<open>Advertisements\<close>

text \<open>The identifier of a node as text: its six bytes in two hexadecimal digits each.\<close>

definition mac_text :: "byte list \<Rightarrow> jstring" where
  "mac_text bs = join_with 58 (map (\<lambda>b. pad_start 2 48 (to_string 16 (unat b))) bs)"

text \<open>
  The record under construction reads its fields in the order of the source; a RangeError of
  an accessor is caught.
\<close>

definition read_advertisement :: "uint8_array \<Rightarrow> js_error + NodeAdvertisement" where
  "read_advertisement data =
     (let view = buffer data in
      bind (get_uint16 view 0) (\<lambda>company.
      bind (get_uint8 view 2) (\<lambda>ver.
      let node = mac_text (slice data 3 9) in
      bind (get_uint8 view 9) (\<lambda>battery.
      bind (get_float32 view 10) (\<lambda>reading.
      bind (get_uint8 view 14) (\<lambda>faults.
      bind (get_uint16 view 15) (\<lambda>count.
        Inr \<lparr> companyId = company, version = ver, nodeId = node, batteryPercent = battery,
              lastReading = reading, faultFlags = faults, counter = count, rssi = None \<rparr>)))))))"

definition parseNodeAdvertisement :: "uint8_array \<Rightarrow> NodeAdvertisement option" where
  "parseNodeAdvertisement data =
     (if byte_length data < 17 then None
      else case read_advertisement data of Inl e \<Rightarrow> None | Inr adv \<Rightarrow> Some adv)"

definition mac_numbers :: "jstring \<Rightarrow> js_number list" where
  "mac_numbers node = map parse_int16 (split_at 58 node)"

text \<open>\<open>bytes.set(numbers, off)\<close>: each number is stored modulo 256, \<open>NaN\<close> as zero.\<close>

definition set_numbers :: "byte list \<Rightarrow> nat \<Rightarrow> js_number list \<Rightarrow> js_error + byte list" where
  "set_numbers b off xs =
     (if off + length xs \<le> length b then Inr (overwrite b off (map to_uint xs))
      else Inl (RangeError (js ''offset is out of bounds'')))"

definition encodeNodeAdvertisement :: "NodeAdvertisement \<Rightarrow> js_error + uint8_array" where
  "encodeNodeAdvertisement adv =
     bind (set_uint16 (replicate 17 0) 0 (companyId adv)) (\<lambda>b.
     bind (set_uint8 b 2 (version adv)) (\<lambda>b.
     bind (set_numbers b 3 (mac_numbers (nodeId adv))) (\<lambda>b.
     bind (set_uint8 b 9 (batteryPercent adv)) (\<lambda>b.
     bind (set_float32 b 10 (lastReading adv)) (\<lambda>b.
     bind (set_uint8 b 14 (faultFlags adv)) (\<lambda>b.
     bind (set_uint16 b 15 (counter adv)) (\<lambda>b.
       Inr (array_of b))))))))"

section \<open>Node identifiers\<close>

definition hex2 :: "byte \<Rightarrow> jstring" where
  "hex2 b = pad_start 2 48 (to_string 16 (unat b))"

lemma digits_16_byte:
  "n < 256 \<Longrightarrow> digits 16 n = (if n < 16 then [n] else [n div 16, n mod 16])"
  using less_mult_imp_div_less [of n 16 16]
  by (simp add: digits.simps [of 16 n] digits.simps [of 16 "n div 16"])

lemma hex2_digits: "hex2 b = [digit_unit (unat b div 16), digit_unit (unat b mod 16)]"
proof -
  have "unat b < 256" by (rule unat_lt_byte)
  moreover have "(48 :: code_unit) = digit_unit 0" by (simp add: digit_unit_def)
  ultimately show ?thesis
    by (simp add: hex2_def pad_start_def to_string_def digits_16_byte)
qed

lemma digit_unit_neq:
  "d < 16 \<Longrightarrow> digit_unit d \<noteq> 58 \<and> digit_unit d \<noteq> 45 \<and> digit_unit d \<noteq> 43 \<and> digit_unit d \<noteq> 120
     \<and> digit_unit d \<noteq> 88 \<and> \<not> is_js_space (digit_unit d)"
  using unat_digit_unit [of d] by (auto simp: is_js_space_def Let_def split: if_splits)

lemma byte_halves: "unat (b :: byte) div 16 < 16" "unat b mod 16 < 16"
  by (simp_all add: less_mult_imp_div_less)

lemma colon_not_in_hex2: "58 \<notin> set (hex2 b)"
  using digit_unit_neq [OF byte_halves(1)] digit_unit_neq [OF byte_halves(2)]
  by (metis empty_iff empty_set hex2_digits set_ConsD)

lemma parse_int16_hex2: "parse_int16 (hex2 b) = num_of_word b"
proof -
  let ?a = "unat b div 16" and ?c = "unat b mod 16"
  note d = digit_unit_neq [OF byte_halves(1) [of b]] digit_unit_neq [OF byte_halves(2) [of b]]
  have "hex_prefix (hex2 b) = [?a, ?c]"
    using hex_prefix_digits [of "[?a, ?c]"] byte_halves [of b] by (simp add: hex2_digits)
  moreover have "drop_sign (dropWhile is_js_space (hex2 b)) = (False, hex2 b)" "drop_0x (hex2 b) = hex2 b"
    using d by (simp_all add: hex2_digits drop_sign_def drop_0x_def)
  moreover have "digits_value 16 [?a, ?c] = unat b"
    using div_mult_mod_eq [of "unat b" 16] by (simp add: digits_value_def)
  moreover have "round64 False (unat b) 1 = num_of_int (int (unat b))"
    by (intro round64_nat less_trans [OF unat_lt_byte]) simp
  ultimately show ?thesis by (simp add: parse_int16_def)
qed

lemma mac_text_hex2: "mac_text bs = join_with 58 (map hex2 bs)"
  by (simp add: mac_text_def hex2_def [abs_def])

lemma split_mac_text: "bs \<noteq> [] \<Longrightarrow> split_at 58 (mac_text bs) = map hex2 bs"
  unfolding mac_text_hex2 by (rule split_at_join) (auto simp: colon_not_in_hex2)

lemma mac_numbers_text: "bs \<noteq> [] \<Longrightarrow> mac_numbers (mac_text bs) = map (\<lambda>b. num_of_word b) bs"
  by (simp add: mac_numbers_def split_mac_text parse_int16_hex2)

section \<open>The layout\<close>

text \<open>The six identifier bytes that remain in the buffer when all fields are written.\<close>

definition node_bytes :: "jstring \<Rightarrow> byte list" where
  "node_bytes node = take 6 (map to_uint (mac_numbers node) @ replicate 14 0)"

lemma length_node_bytes [simp]: "length (node_bytes node) = 6"
  by (simp add: node_bytes_def)

lemma node_bytes_mac_text: "length bs = 6 \<Longrightarrow> node_bytes (mac_text bs) = bs"
  by (cases "bs = []") (auto simp: node_bytes_def mac_numbers_text intro: map_idI)

definition advertisement_bytes :: "NodeAdvertisement \<Rightarrow> byte list" where
  "advertisement_bytes adv =
     uint16_bytes (companyId adv) @ uint8_bytes (version adv) @ node_bytes (nodeId adv) @
     uint8_bytes (batteryPercent adv) @ float32_bytes (lastReading adv) @
     uint8_bytes (faultFlags adv) @ uint16_bytes (counter adv)"

lemma length_advertisement_bytes [simp]: "length (advertisement_bytes adv) = 17"
  by (simp add: advertisement_bytes_def wire_simps)

lemma set_numbers_append:
  assumes "length h = off" and "length xs \<le> n"
  shows "set_numbers (h @ replicate n 0) off xs = Inr (h @ map to_uint xs @ replicate (n - length xs) 0)"
  using assms by (simp add: set_numbers_def overwrite_append)

text \<open>
  Identifiers of up to 14 segments are accepted: whatever they write past their six bytes is
  overwritten by the fields behind them.
\<close>

lemma encode_layout:
  assumes "length (mac_numbers (nodeId adv)) \<le> 14"
  shows "encodeNodeAdvertisement adv = Inr (array_of (advertisement_bytes adv))"
proof -
  let ?h = "uint16_bytes (companyId adv) @ uint8_bytes (version adv)"
  let ?m = "map to_uint (mac_numbers (nodeId adv)) @ replicate (14 - length (mac_numbers (nodeId adv))) 0 :: byte list"
  let ?t = "drop 6 ?m"
  have len: "length ?m = 14" using assms by simp
  have take6: "take 6 ?m = node_bytes (nodeId adv)"
    using assms by (auto simp: node_bytes_def min_def)
  have h: "set_uint16 (replicate 17 0) 0 (companyId adv) = Inr (uint16_bytes (companyId adv) @ replicate 15 0)"
    using u16.set_append [of "[]" 0 "replicate 17 0" "companyId adv"] by simp
  have v: "set_uint8 (uint16_bytes (companyId adv) @ replicate 15 0) 2 (version adv) = Inr (?h @ replicate 14 0)"
    using u8.set_append [of "uint16_bytes (companyId adv)" 2 "replicate 15 0"]
    by (simp add: wire_simps)
  have m: "set_numbers (?h @ replicate 14 0) 3 (mac_numbers (nodeId adv)) = Inr ((?h @ take 6 ?m) @ ?t)"
    using set_numbers_append [of ?h 3 "mac_numbers (nodeId adv)" 14] assms
    by (simp only: append_take_drop_id append_assoc) (simp add: wire_simps)
  have t: "length ?t = 8" using len by simp
  define h' t' where "h' = ?h @ take 6 ?m" and "t' = ?t"
  have h': "length h' = 9" and t': "length t' = 8" using len t by (simp_all add: h'_def t'_def wire_simps)
  have "encodeNodeAdvertisement adv
      = bind (set_uint8 (h' @ t') 9 (batteryPercent adv)) (\<lambda>b.
        bind (set_float32 b 10 (lastReading adv)) (\<lambda>b.
        bind (set_uint8 b 14 (faultFlags adv)) (\<lambda>b.
        bind (set_uint16 b 15 (counter adv)) (\<lambda>b. Inr (array_of b)))))"
    unfolding encodeNodeAdvertisement_def h bind_simps v m h'_def t'_def ..
  also have "\<dots> = Inr (array_of (h' @ uint8_bytes (batteryPercent adv) @ float32_bytes (lastReading adv) @
      uint8_bytes (faultFlags adv) @ uint16_bytes (counter adv)))"
    using h' t'
    by (simp add: u8.set_append f32.set_append u16.set_append wire_simps del: append_assoc)
  finally show ?thesis by (simp only: advertisement_bytes_def h'_def take6 append_assoc)
qed

lemma encode_too_long:
  assumes "14 < length (mac_numbers (nodeId adv))"
  shows "encodeNodeAdvertisement adv = Inl (RangeError (js ''offset is out of bounds''))"
proof -
  define b where "b = overwrite (replicate 17 0) 0 (uint16_bytes (companyId adv))"
  define b' where "b' = overwrite b 2 (uint8_bytes (version adv))"
  have b: "set_uint16 (replicate 17 0) 0 (companyId adv) = Inr b" "length b = 17"
    by (simp_all add: b_def u16.set_in_bounds wire_simps)
  then have "set_uint8 b 2 (version adv) = Inr b'" "length b' = 17"
    by (simp_all add: b'_def u8.set_in_bounds wire_simps)
  with b assms show ?thesis by (simp add: encodeNodeAdvertisement_def set_numbers_def)
qed

section \<open>Parsing\<close>

text \<open>The record that the bytes of an advertisement spell.\<close>

lemma read_fields_view:
  assumes "buffer a = c @ v @ n @ b @ r @ f @ k @ t"
    and "length c = 2" "length v = 1" "length n = 6" "length b = 1" "length r = 4" "length f = 1"
    "length k = 2"
  shows "read_advertisement a =
    Inr \<lparr> companyId = uint_of_bytes c, version = uint_of_bytes v, nodeId = mac_text (slice a 3 9),
      batteryPercent = uint_of_bytes b, lastReading = float32_of_bytes r,
      faultFlags = uint_of_bytes f, counter = uint_of_bytes k, rssi = None \<rparr>"
  using assms by (simp add: read_advertisement_def get_field_def get_bytes_def)

lemma read_fields:
  assumes "length c = 2" "length v = 1" "length n = 6" "length b = 1" "length r = 4" "length f = 1"
    "length k = 2"
  shows "read_advertisement (array_of (c @ v @ n @ b @ r @ f @ k)) =
    Inr \<lparr> companyId = uint_of_bytes c, version = uint_of_bytes v, nodeId = mac_text n,
      batteryPercent = uint_of_bytes b, lastReading = float32_of_bytes r,
      faultFlags = uint_of_bytes f, counter = uint_of_bytes k, rssi = None \<rparr>"
  using assms read_fields_view [of "array_of (c @ v @ n @ b @ r @ f @ k)" c v n b r f k "[]"]
  by (simp add: slice_def)

definition transmitted :: "NodeAdvertisement \<Rightarrow> NodeAdvertisement" where
  "transmitted adv = \<lparr> companyId = uint16_stored (companyId adv), version = uint8_stored (version adv),
     nodeId = mac_text (node_bytes (nodeId adv)), batteryPercent = uint8_stored (batteryPercent adv),
     lastReading = round32 (lastReading adv), faultFlags = uint8_stored (faultFlags adv),
     counter = uint16_stored (counter adv), rssi = None \<rparr>"

lemma parse_advertisement_bytes:
  "parseNodeAdvertisement (array_of (advertisement_bytes adv)) = Some (transmitted adv)"
  by (simp add: parseNodeAdvertisement_def advertisement_bytes_def read_fields wire_simps
      u8.dec_enc u16.dec_enc f32.dec_enc transmitted_def)

text \<open>An advertisement that the radio format can carry exactly.\<close>

definition advertisable :: "NodeAdvertisement \<Rightarrow> bool" where
  "advertisable adv \<longleftrightarrow>
     uint16_stored (companyId adv) = companyId adv \<and> uint8_stored (version adv) = version adv \<and>
     mac_text (node_bytes (nodeId adv)) = nodeId adv \<and>
     uint8_stored (batteryPercent adv) = batteryPercent adv \<and> is_binary32 (lastReading adv) \<and>
     uint8_stored (faultFlags adv) = faultFlags adv \<and> uint16_stored (counter adv) = counter adv \<and>
     rssi adv = None"

lemma transmitted_advertisable: "advertisable adv \<Longrightarrow> transmitted adv = adv"
  by (simp add: transmitted_def advertisable_def)

lemma length_mac_numbers: "length (mac_numbers node) = Suc (count_list node 58)"
  by (simp add: mac_numbers_def length_split_at)

text \<open>The seven parts of 17 bytes.\<close>

lemma seventeen_bytes:
  assumes "length bs = 17"
  obtains c v n b r f k where "bs = c @ [v] @ n @ [b] @ r @ [f] @ k"
    "length c = 2" "length n = 6" "length r = 4" "length k = 2"
proof -
  have "bs = take 2 bs @ drop 2 bs" by simp
  moreover have "drop 2 bs = [bs ! 2] @ drop 3 bs"
    using Cons_nth_drop_Suc [of 2 bs] assms by simp
  moreover have "drop 3 bs = take 6 (drop 3 bs) @ drop 9 bs"
    using append_take_drop_id [of 6 "drop 3 bs"] by simp
  moreover have "drop 9 bs = [bs ! 9] @ drop 10 bs"
    using Cons_nth_drop_Suc [of 9 bs] assms by simp
  moreover have "drop 10 bs = take 4 (drop 10 bs) @ drop 14 bs"
    using append_take_drop_id [of 4 "drop 10 bs"] by simp
  moreover have "drop 14 bs = [bs ! 14] @ drop 15 bs"
    using Cons_nth_drop_Suc [of 14 bs] assms by simp
  ultimately have "bs = take 2 bs @ [bs ! 2] @ take 6 (drop 3 bs) @ [bs ! 9] @ take 4 (drop 10 bs)
      @ [bs ! 14] @ drop 15 bs" by metis
  then show thesis by (rule that) (simp_all add: assms)
qed

section \<open>Properties\<close>

text \<open>
  C6: Encoding an advertisement fails exactly when its node identifier has more than 14
  colon-separated segments (a RangeError); otherwise it yields an array of 17 bytes, and the
  parser reads from it the advertisement with every field reduced to what its width keeps:
  integers modulo 256 or 65536, the reading rounded to binary32, the identifier as six
  two-digit hexadecimal bytes.
\<close>

theorem encode_then_parse:
  "if count_list (nodeId adv) 58 < 14
   then \<exists>a. encodeNodeAdvertisement adv = Inr a \<and> byte_length a = 17 \<and>
            parseNodeAdvertisement a = Some (transmitted adv)
   else encodeNodeAdvertisement adv = Inl (RangeError (js ''offset is out of bounds''))"
proof (cases "count_list (nodeId adv) 58 < 14")
  case True
  then have "encodeNodeAdvertisement adv = Inr (array_of (advertisement_bytes adv))"
    by (simp add: encode_layout length_mac_numbers)
  with True show ?thesis by (simp add: parse_advertisement_bytes)
next
  case False
  then show ?thesis by (simp add: encode_too_long length_mac_numbers)
qed

text \<open>
  Round trip on the radio format: an advertisement whose fields fit their widths and whose
  identifier is six two-digit lower-case hexadecimal bytes is encoded without error, and
  parsing the encoding gives back exactly that advertisement.
\<close>

theorem advertisement_round_trip:
  assumes "advertisable adv"
  shows "\<exists>a. encodeNodeAdvertisement adv = Inr a \<and> parseNodeAdvertisement a = Some adv"
proof -
  have "split_at 58 (nodeId adv) = map hex2 (node_bytes (nodeId adv))"
    using assms split_mac_text [of "node_bytes (nodeId adv)"] length_node_bytes [of "nodeId adv"]
    by (fastforce simp: advertisable_def)
  then have "length (mac_numbers (nodeId adv)) = 6" by (simp add: mac_numbers_def)
  then show ?thesis
    by (simp add: encode_layout parse_advertisement_bytes transmitted_advertisable assms)
qed

definition sample_advertisement :: NodeAdvertisement where
  "sample_advertisement = \<lparr> companyId = num_of_int 0x0059, version = num_of_int 1,
     nodeId = js ''aa:bb:cc:0d:ee:ff'', batteryPercent = num_of_int 85,
     lastReading = Finite True 47 (-1), faultFlags = num_of_int 0x11, counter = num_of_int 1234,
     rssi = None \<rparr>"

lemma sample_node: "js ''aa:bb:cc:0d:ee:ff'' = mac_text [0xAA, 0xBB, 0xCC, 0x0D, 0xEE, 0xFF]"
  by (simp add: mac_text_hex2 hex2_digits digit_unit_def)

lemma sample_advertisable: "advertisable sample_advertisement"
  using bit_len_le [of 47 24]
  by (simp only: advertisable_def sample_advertisement_def sample_node NodeAdvertisement.simps)
     (simp add: node_bytes_mac_text uint8_stored_def uint16_stored_def to_uint_num_of_int representable_def)

theorem advertisement_round_trip_witness:
  "\<exists>a. encodeNodeAdvertisement sample_advertisement = Inr a \<and>
       parseNodeAdvertisement a = Some sample_advertisement"
  by (rule advertisement_round_trip) (rule sample_advertisable)

text \<open>
  C23: Round trip from the air: parsing any 17 bytes succeeds, and unless the four reading bytes
  spell a NaN, encoding the parsed record gives back exactly those bytes.
\<close>

theorem parse_then_encode:
  assumes "length bs = 17" and "float32_of_bytes (take 4 (drop 10 bs)) \<noteq> NaN"
  shows "\<exists>adv. parseNodeAdvertisement (array_of bs) = Some adv \<and>
    encodeNodeAdvertisement adv = Inr (array_of bs)"
proof -
  obtain c v n b r f k where bs: "bs = c @ [v] @ n @ [b] @ r @ [f] @ k"
    and len: "length c = 2" "length n = 6" "length r = 4" "length k = 2"
    using assms(1) by (rule seventeen_bytes)
  define adv where "adv = \<lparr> companyId = uint_of_bytes c, version = uint_of_bytes [v],
    nodeId = mac_text n, batteryPercent = uint_of_bytes [b], lastReading = float32_of_bytes r,
    faultFlags = uint_of_bytes [f], counter = uint_of_bytes k, rssi = None \<rparr>"
  have parse: "parseNodeAdvertisement (array_of bs) = Some adv"
    using len read_fields [of c "[v]" n "[b]" r "[f]" k]
    by (simp add: parseNodeAdvertisement_def bs adv_def)
  have "n \<noteq> []" using len by auto
  then have "length (mac_numbers (nodeId adv)) \<le> 14" by (simp add: adv_def mac_numbers_text len)
  moreover have "advertisement_bytes adv = bs"
    using assms(2) len
    by (simp add: advertisement_bytes_def adv_def bs wire_simps node_bytes_mac_text)
  ultimately show ?thesis using parse by (auto simp: encode_layout)
qed

theorem parse_then_encode_witness:
  "\<exists>adv. parseNodeAdvertisement (array_of (replicate 17 1)) = Some adv \<and>
    encodeNodeAdvertisement adv = Inr (array_of (replicate 17 1))"
proof (rule parse_then_encode)
  have "take 4 (drop 10 (replicate 17 (1 :: byte))) = [1, 1, 1, 1]" by code_simp
  then show "float32_of_bytes (take 4 (drop 10 (replicate 17 1))) \<noteq> NaN"
    by (simp add: float32_of_bytes_def binary32_of_bits_def binary32_fields_def split: prod.split)
qed simp

text \<open>
  On any array that is a window of a larger buffer, parsing fails exactly when the window
  is shorter than 17 bytes and never through an out-of-bounds read; but only the node
  identifier comes from the window: every other field is read from the start of the buffer.
\<close>

theorem parse_window:
  assumes "array_ok a"
  shows "if byte_length a < 17 then parseNodeAdvertisement a = None
    else parseNodeAdvertisement a \<noteq> None \<and>
      parseNodeAdvertisement a = parseNodeAdvertisement (array_of
        (take 3 (buffer a) @ take 6 (drop (byte_offset a + 3) (buffer a)) @ take 8 (drop 9 (buffer a))))"
proof (cases "byte_length a < 17")
  case False
  define W where "W = take 6 (drop (byte_offset a + 3) (buffer a))"
  from assms False have len: "17 \<le> length (buffer a)" "length W = 6"
    by (auto simp: array_ok_def W_def)
  then have "length (take 17 (buffer a)) = 17" by simp
  then obtain c v n b r f k where "take 17 (buffer a) = c @ [v] @ n @ [b] @ r @ [f] @ k"
    and parts: "length c = 2" "length n = 6" "length r = 4" "length k = 2"
    by (rule seventeen_bytes)
  then have B: "buffer a = c @ [v] @ n @ [b] @ r @ [f] @ k @ drop 17 (buffer a)"
    by (metis append.assoc append_take_drop_id)
  then obtain t where t: "buffer a = c @ [v] @ n @ [b] @ r @ [f] @ k @ t" by blast
  have "slice a 3 9 = W"
    using assms False
    by (auto simp: slice_def bytes_of_def W_def drop_take array_ok_def min_def add.commute)
  then have "read_advertisement a = read_advertisement (array_of (c @ [v] @ W @ [b] @ r @ [f] @ k))"
    using parts len by (simp add: read_fields_view [OF t] read_fields del: append_Cons)
  moreover have "take 3 (buffer a) @ W @ take 8 (drop 9 (buffer a)) = c @ [v] @ W @ [b] @ r @ [f] @ k"
    using parts by (simp add: t)
  moreover have "\<exists>adv. read_advertisement a = Inr adv"
    using parts by (simp add: read_fields_view [OF t] del: append_Cons)
  ultimately show ?thesis
    using False parts len by (auto simp: parseNodeAdvertisement_def W_def [symmetric])
qed (simp add: parseNodeAdvertisement_def)

theorem parse_window_witness:
  "array_ok (subarray (array_of (map of_nat [0..<40])) 20 40) \<and>
   bytes_of (subarray (array_of (map of_nat [0..<40])) 20 40) = map of_nat [20..<40] \<and>
   parseNodeAdvertisement (subarray (array_of (map of_nat [0..<40])) 20 40) =
     parseNodeAdvertisement (array_of (map of_nat ([0..<3] @ [23..<29] @ [9..<17])))"
proof -
  let ?a = "subarray (array_of (map of_nat [0..<40])) 20 40"
  have ok: "array_ok ?a" by (simp add: array_ok_subarray)
  have "parseNodeAdvertisement ?a = parseNodeAdvertisement (array_of
        (take 3 (buffer ?a) @ take 6 (drop (byte_offset ?a + 3) (buffer ?a)) @ take 8 (drop 9 (buffer ?a))))"
    using parse_window [OF ok] by (simp add: subarray_def)
  moreover have "take 3 (buffer ?a) @ take 6 (drop (byte_offset ?a + 3) (buffer ?a)) @ take 8 (drop 9 (buffer ?a))
      = map of_nat ([0..<3] @ [23..<29] @ [9..<17])" by code_simp
  moreover have "bytes_of ?a = map of_nat [20..<40]" by code_simp
  ultimately show ?thesis using ok by (simp only: simp_thms)
qed

text \<open>The short forms behind the UUIDs, in the order of \<open>all_uuids\<close>.\<close>

definition short_forms :: "jstring list" where
  "short_forms = map js
     [''180a'', ''180f'', ''2a29'', ''2a24'', ''2a25'', ''2a27'', ''2a26'', ''2a28'', ''2a19'',
      ''1000'', ''1001'', ''1002'', ''1003'', ''1004'', ''1005'', ''1006'', ''1007'',
      ''2000'', ''2001'', ''2002'', ''2003'', ''2004'', ''2005'',
      ''3000'', ''3001'', ''3002'', ''3003'']"

lemma all_uuids_map: "all_uuids = map createUUID short_forms"
  by (simp add: all_uuids_def short_forms_def createUUID_def STANDARD_SERVICES_def
      STANDARD_CHARACTERISTICS_def INDUSTRIAL_SENSOR_SERVICE_def INDUSTRIAL_SENSOR_CHARACTERISTICS_def
      HUB_MANAGEMENT_SERVICE_def HUB_MANAGEMENT_CHARACTERISTICS_def FIRMWARE_UPDATE_SERVICE_def
      FIRMWARE_UPDATE_CHARACTERISTICS_def)

lemma short_forms_length: "\<forall>s\<in>set short_forms. length s = 4"
  by (simp add: short_forms_def)

lemma createUUID_inj: "inj createUUID"
  by (rule injI) (simp add: createUUID_def)

text \<open>
  Every UUID of the protocol is the one \<open>createUUID\<close> makes of its four middle digits, the
  base UUID that of four zeros; no two services or characteristics share a UUID, and
  \<open>createUUID\<close> never maps two short forms to one UUID.
\<close>

theorem uuids_well_formed:
  "map (\<lambda>u. createUUID (take 4 (drop 4 u))) all_uuids = all_uuids \<and>
   createUUID (js ''0000'') = BASE_UUID \<and> distinct all_uuids \<and> inj createUUID"
proof (intro conjI)
  show "map (\<lambda>u. createUUID (take 4 (drop 4 u))) all_uuids = all_uuids"
    unfolding all_uuids_map using short_forms_length by (simp add: createUUID_def)
  show "createUUID (js ''0000'') = BASE_UUID" by (simp add: createUUID_def BASE_UUID_def)
  show "distinct all_uuids"
    unfolding all_uuids_map distinct_map
    using createUUID_inj by (auto simp: short_forms_def inj_on_def)
  show "inj createUUID" by (rule createUUID_inj)
qed

end
