(* ===== verification/JSDecimal.thy ===== *)
theory JSDecimal
  imports JSText
begin

text \<open>
  Numbers as decimal text: \<open>Number::toString\<close> (the shortest decimal that rounds back to the
  number, in the language's plain and exponent layouts) and the number literals of JSON. The
  main lemma is the round trip: the printed form of a finite number reads back as it.
\<close>

section \<open>Rounding depends on the ratio only\<close>

lemma not_below_pow2_bit_len:
  assumes "0 < num" and "0 < den"
  shows "\<not> below_pow2 num den (int (bit_len num) - int (bit_len den) - 1)"
proof -
  have n: "2 ^ bit_len num \<le> 2 * num" using assms(1) by (rule bit_len_lower2)
  have d: "den < 2 ^ bit_len den" by (rule bit_len_upper)
  show ?thesis
  proof (cases "bit_len den < bit_len num")
    case True
    then obtain k where k: "bit_len num = bit_len den + Suc k"
      by (metis less_imp_Suc_add add_Suc_right)
    have "den * 2 ^ k \<le> 2 ^ bit_len den * 2 ^ k" using d by simp
    also have "\<dots> \<le> num" using n k by (simp add: power_add)
    finally show ?thesis using k by (simp add: below_pow2_def)
  next
    case False
    then obtain k where k: "bit_len den = bit_len num + k" using le_Suc_ex by force
    have "den \<le> 2 ^ bit_len num * 2 ^ k" using d k by (simp add: power_add)
    also have "\<dots> \<le> 2 * num * 2 ^ k" using n by simp
    finally show ?thesis using k by (simp add: below_pow2_def nat_add_distrib mult.commute)
  qed
qed

text \<open>The last-bit exponent is pinned down by the binary order of magnitude of the ratio.\<close>

lemma last_bit_exp_char:
  assumes "0 < num" and "0 < den" and "below_pow2 num den d" and "\<not> below_pow2 num den (d - 1)"
  shows "last_bit_exp p emin num den = max (d - int p) emin"
proof -
  let ?d = "int (bit_len num) - int (bit_len den)"
  have "d = (if below_pow2 num den ?d then ?d else ?d + 1)"
  proof (rule ccontr)
    assume ne: "\<not> ?thesis"
    have up: "below_pow2 num den (?d + 1)" using assms(1,2) by (intro below_pow2_bit_len)
    have low: "\<not> below_pow2 num den (?d - 1)" using assms(1,2) by (rule not_below_pow2_bit_len)
    from low assms(3) have "?d - 1 < d" using below_pow2_mono by (meson not_less)
    moreover from up assms(4) have "d - 1 < ?d + 1" using below_pow2_mono by (meson not_less)
    ultimately have "d = ?d \<or> d = ?d + 1" by linarith
    with ne assms(3,4) show False by (auto split: if_splits)
  qed
  moreover have "(if 0 \<le> ?d then num < den * 2 ^ nat ?d else num * 2 ^ nat (- ?d) < den)
      = below_pow2 num den ?d"
    by (simp add: below_pow2_def)
  ultimately show ?thesis unfolding last_bit_exp_def Let_def by (auto simp: algebra_simps)
qed

lemma binary_magnitude:
  assumes "0 < num" and "0 < den"
  obtains d where "below_pow2 num den d" and "\<not> below_pow2 num den (d - 1)"
proof -
  let ?d = "int (bit_len num) - int (bit_len den)"
  have "below_pow2 num den (?d + 1)" using assms by (intro below_pow2_bit_len)
  moreover have "\<not> below_pow2 num den (?d - 1)" using assms by (rule not_below_pow2_bit_len)
  ultimately show ?thesis using that [of ?d] that [of "?d + 1"] by fastforce
qed

lemma below_pow2_scale: "0 < c \<Longrightarrow> below_pow2 (num * c) (den * c) d = below_pow2 num den d"
  by (simp add: below_pow2_def mult.assoc mult.left_commute [of c] mult.commute [of c])

lemma round_half_even_scale:
  "0 < c \<Longrightarrow> round_half_even (num * c) (den * c) = round_half_even num den"
proof -
  assume c: "0 < c"
  have "num * c mod (den * c) = num mod den * c" by (simp add: mult_mod_left)
  moreover have "num * c div (den * c) = num div den" using c by simp
  moreover have "2 * (num mod den * c) < den * c \<longleftrightarrow> 2 * (num mod den) < den"
    using c by (simp add: mult.assoc [symmetric])
  moreover have "2 * (num mod den * c) = den * c \<longleftrightarrow> 2 * (num mod den) = den"
    using c by (simp add: mult.assoc [symmetric])
  ultimately show ?thesis by (simp add: round_half_even_def Let_def)
qed

lemma round_ratio_scale:
  assumes "0 < c" and "0 < den"
  shows "round_ratio p emin emax s (num * c) (den * c) = round_ratio p emin emax s num den"
proof (cases "num = 0")
  case True
  then show ?thesis by (simp add: round_ratio_def)
next
  case False
  with assms(2) obtain d where d: "below_pow2 num den d" "\<not> below_pow2 num den (d - 1)"
    using binary_magnitude [of num den] by auto
  have q: "last_bit_exp p emin (num * c) (den * c) = last_bit_exp p emin num den"
    using False assms d last_bit_exp_char [of num den d] last_bit_exp_char [of "num * c" "den * c" d]
    by (simp add: below_pow2_scale)
  have "round_half_even (num * c) (den * c * x) = round_half_even num (den * x)"
    and "round_half_even (num * c * x) (den * c) = round_half_even (num * x) den" for x
    using round_half_even_scale [OF assms(1), of num "den * x"]
      round_half_even_scale [OF assms(1), of "num * x" den]
    by (simp_all add: mult.assoc mult.left_commute mult.commute [of c])
  with False assms show ?thesis unfolding round_ratio_def Let_def q by simp
qed

section \<open>Number::toString\<close>

text \<open>The number nearest to \<open>d * 10^t\<close>.\<close>

definition round_dec :: "bool \<Rightarrow> nat \<Rightarrow> int \<Rightarrow> js_number" where
  "round_dec s d t =
     (if 0 \<le> t then round64 s (d * 10 ^ nat t) 1 else round64 s d (10 ^ nat (- t)))"

text \<open>For a positive ratio, the \<open>n\<close> with \<open>10^(n-1) <= num / den < 10^n\<close>.\<close>

function leading_zeros :: "nat \<Rightarrow> nat \<Rightarrow> nat" where
  "leading_zeros num den =
     (if num = 0 \<or> den \<le> num then 0 else Suc (leading_zeros (10 * num) den))"
  by pat_completeness auto
termination
  by (relation "measure (\<lambda>(num, den). den - num)") auto

declare leading_zeros.simps [simp del]

definition decimal_magnitude :: "nat \<Rightarrow> nat \<Rightarrow> int" where
  "decimal_magnitude num den =
     (if den \<le> num then int (length (digits 10 (num div den))) else 1 - int (leading_zeros num den))"

text \<open>
  The two decimals \<open>d * 10^t\<close> around \<open>num / den\<close>, the nearer one first. The upper one may be a
  power of ten with one digit more, which is kept with its final 0 in the exponent.
\<close>

definition trim_zero :: "int \<Rightarrow> nat \<Rightarrow> nat \<times> int" where
  "trim_zero t d = (if d mod 10 = 0 then (d div 10, t + 1) else (d, t))"

definition nearest_two :: "nat \<Rightarrow> nat \<Rightarrow> int \<Rightarrow> (nat \<times> int) list" where
  "nearest_two num den t =
     (let a = (if 0 \<le> t then num else num * 10 ^ nat (- t));
          b = (if 0 \<le> t then den * 10 ^ nat t else den);
          d = a div b; r = a mod b
      in map (trim_zero t)
           (if 2 * r < b \<or> (2 * r = b \<and> even d) then [d, d + 1] else [d + 1, d]))"

text \<open>
  The shortest digits: for \<open>k = 1, 2, \<dots>\<close> the nearer \<open>k\<close>-digit decimal that rounds back to the
  number. Seventeen digits are enough for every binary64 value; should the search end, the
  exact decimal expansion is taken, so the result rounds back in every case.
\<close>

definition exact_decimal :: "nat \<Rightarrow> int \<Rightarrow> nat \<times> int" where
  "exact_decimal m e = (if 0 \<le> e then (m * 2 ^ nat e, 0) else (m * 5 ^ nat (- e), e))"

fun shortest_from :: "nat \<Rightarrow> nat \<Rightarrow> bool \<Rightarrow> nat \<Rightarrow> int \<Rightarrow> nat \<times> int" where
  "shortest_from 0 k s m e = exact_decimal m e"
| "shortest_from (Suc fuel) k s m e =
     (let t = decimal_magnitude (numerator m e) (denominator e) - int k
      in case find (\<lambda>(d, u). 0 < d \<and> round_dec s d u = Finite s m e)
                (nearest_two (numerator m e) (denominator e) t) of
           Some du \<Rightarrow> du
         | None \<Rightarrow> shortest_from fuel (Suc k) s m e)"

definition shortest_decimal :: "bool \<Rightarrow> nat \<Rightarrow> int \<Rightarrow> nat \<times> int" where
  "shortest_decimal = shortest_from 17 1"

lemma exact_decimal_rounds:
  assumes "representable 53 (-1074) 1023 m e" and "0 < m" and "exact_decimal m e = (d, t)"
  shows "0 < d \<and> round_dec s d t = Finite s m e"
proof -
  have x: "round64 s (numerator m e) (denominator e) = Finite s m e"
    unfolding round64_def using assms(1) by (rule round_ratio_representable)
  show ?thesis
  proof (cases "0 \<le> e")
    case True
    with x assms show ?thesis
      by (auto simp: exact_decimal_def round_dec_def numerator_def denominator_def)
  next
    case False
    have "(10::nat) ^ nat (- e) = 2 ^ nat (- e) * 5 ^ nat (- e)"
      by (simp flip: power_mult_distrib)
    then have "round64 s (m * 5 ^ nat (- e)) (10 ^ nat (- e)) = round64 s m (2 ^ nat (- e))"
      by (simp add: round64_def round_ratio_scale)
    with False x assms show ?thesis
      by (auto simp: exact_decimal_def round_dec_def numerator_def denominator_def)
  qed
qed

lemma shortest_from_rounds:
  assumes "representable 53 (-1074) 1023 m e" and "0 < m"
  shows "shortest_from fuel k s m e = (d, t) \<Longrightarrow> 0 < d \<and> round_dec s d t = Finite s m e"
proof (induction fuel arbitrary: k)
  case 0
  then show ?case using exact_decimal_rounds [OF assms] by simp
next
  case (Suc fuel)
  then show ?case
    by (auto simp: Let_def find_Some_iff split: option.splits)
qed

lemma shortest_decimal_rounds:
  assumes "representable 53 (-1074) 1023 m e" and "0 < m" and "shortest_decimal s m e = (d, t)"
  shows "0 < d" and "round_dec s d t = Finite s m e"
  using shortest_from_rounds [OF assms(1,2), of 17 1 s d t] assms(3)
  by (simp_all add: shortest_decimal_def)

text \<open>The four layouts of a decimal \<open>d * 10^t\<close> with \<open>k\<close> digits, \<open>n = k + t\<close>.\<close>

definition sign_text :: "int \<Rightarrow> jstring" where
  "sign_text i = (if i < 0 then [45] else [43])"

definition layout_decimal :: "nat list \<Rightarrow> int \<Rightarrow> jstring" where
  "layout_decimal ds t =
     (let k = length ds; n = int k + t; u = map digit_unit ds
      in if 0 \<le> t \<and> n \<le> 21 then u @ replicate (nat t) 48
         else if 0 < n \<and> n \<le> 21 then take (nat n) u @ [46] @ drop (nat n) u
         else if -6 < n \<and> n \<le> 0 then [48, 46] @ replicate (nat (- n)) 48 @ u
         else take 1 u @ (if k = 1 then [] else [46] @ drop 1 u) @
              [101] @ sign_text (n - 1) @ map digit_unit (digits 10 (nat \<bar>n - 1\<bar>)))"

fun number_to_string :: "js_number \<Rightarrow> jstring" where
  "number_to_string NaN = js ''NaN''"
| "number_to_string (Infinity s) = (if s then [45] else []) @ js ''Infinity''"
| "number_to_string (Finite s m e) =
     (if m = 0 then [48]
      else (let (d, t) = shortest_decimal s m e
            in (if s then [45] else []) @ layout_decimal (digits 10 d) t))"

section \<open>Number literals of JSON\<close>

definition is_digit :: "code_unit \<Rightarrow> bool" where
  "is_digit u \<longleftrightarrow> 48 \<le> unat u \<and> unat u \<le> 57"

definition digit_values :: "jstring \<Rightarrow> nat list" where
  "digit_values = map (\<lambda>u. unat u - 48)"

definition take_digits :: "jstring \<Rightarrow> nat list \<times> jstring" where
  "take_digits s = (digit_values (takeWhile is_digit s), dropWhile is_digit s)"

text \<open>The integer part (no leading zero), the fraction and the exponent of a literal.\<close>

definition int_part :: "jstring \<Rightarrow> (nat list \<times> jstring) option" where
  "int_part s =
     (case take_digits s of
        ([], _) \<Rightarrow> None
      | (0 # _, _) \<Rightarrow> Some ([0], tl s)
      | (ds, r) \<Rightarrow> Some (ds, r))"

definition frac_part :: "jstring \<Rightarrow> (nat list \<times> jstring) option" where
  "frac_part s =
     (if s \<noteq> [] \<and> hd s = 46
      then (case take_digits (tl s) of ([], _) \<Rightarrow> None | (ds, r) \<Rightarrow> Some (ds, r))
      else Some ([], s))"

definition exp_part :: "jstring \<Rightarrow> (int \<times> jstring) option" where
  "exp_part s =
     (if s \<noteq> [] \<and> (hd s = 101 \<or> hd s = 69)
      then (let (neg, r) = drop_sign (tl s)
            in case take_digits r of
                 ([], _) \<Rightarrow> None
               | (ds, r') \<Rightarrow> Some ((if neg then - 1 else 1) * int (digits_value 10 ds), r'))
      else Some (0, s))"

definition parse_number :: "jstring \<Rightarrow> (js_number \<times> jstring) option" where
  "parse_number s =
     (let neg = (s \<noteq> [] \<and> hd s = 45)
      in case int_part (if neg then tl s else s) of
           None \<Rightarrow> None
         | Some (ids, r) \<Rightarrow>
             (case frac_part r of
                None \<Rightarrow> None
              | Some (fs, r') \<Rightarrow>
                  (case exp_part r' of
                     None \<Rightarrow> None
                   | Some (x, r'') \<Rightarrow>
                       Some (round_dec neg (digits_value 10 (ids @ fs)) (x - int (length fs)), r''))))"

section \<open>Printing and reading back\<close>

text \<open>What may follow a number literal: nothing that would continue it.\<close>

definition number_stops :: "jstring \<Rightarrow> bool" where
  "number_stops r \<longleftrightarrow> r = [] \<or> (\<not> is_digit (hd r) \<and> hd r \<notin> {46, 101, 69})"

lemma is_digit_unit [simp]: "d < 10 \<Longrightarrow> is_digit (digit_unit d)"
  by (simp add: is_digit_def unat_digit_unit)

lemma is_digit_signs [simp]: "\<not> is_digit 45" "\<not> is_digit 43" "\<not> is_digit 46" "\<not> is_digit 101"
  by (simp_all add: is_digit_def)

lemma digit_unit_0: "48 = digit_unit 0"
  by (simp add: digit_unit_def)

lemma take_digits_append:
  assumes "\<forall>d\<in>set ds. d < 10" and "r = [] \<or> \<not> is_digit (hd r)"
  shows "take_digits (map digit_unit ds @ r) = (ds, r)"
proof -
  have u: "\<forall>u\<in>set (map digit_unit ds). is_digit u" using assms(1) by auto
  have "takeWhile is_digit (map digit_unit ds @ r) = map digit_unit ds"
    using u assms(2) by (cases r) (simp_all add: takeWhile_append)
  moreover have "dropWhile is_digit (map digit_unit ds @ r) = r"
    using u assms(2) by (cases r) (simp_all add: dropWhile_append)
  moreover have "digit_values (map digit_unit ds) = ds"
    using assms(1) by (induction ds) (auto simp: digit_values_def unat_digit_unit)
  ultimately show ?thesis by (simp add: take_digits_def)
qed

definition frac_text :: "nat list \<Rightarrow> jstring" where
  "frac_text fs = (if fs = [] then [] else 46 # map digit_unit fs)"

definition exp_text :: "int option \<Rightarrow> jstring" where
  "exp_text x = (case x of None \<Rightarrow> []
     | Some i \<Rightarrow> 101 # sign_text i @ map digit_unit (digits 10 (nat \<bar>i\<bar>)))"

lemma not_digit_exp: "number_stops r \<Longrightarrow> exp_text x @ r = [] \<or> \<not> is_digit (hd (exp_text x @ r))"
  by (cases x) (auto simp: exp_text_def number_stops_def)

lemma not_digit_frac:
  "number_stops r \<Longrightarrow> frac_text fs @ exp_text x @ r = [] \<or> \<not> is_digit (hd (frac_text fs @ exp_text x @ r))"
  using not_digit_exp [of r x] by (auto simp: frac_text_def)

lemma int_part_digits:
  assumes "\<forall>d\<in>set ids. d < 10" "ids = [0] \<or> (ids \<noteq> [] \<and> 0 < hd ids)" "r = [] \<or> \<not> is_digit (hd r)"
  shows "int_part (map digit_unit ids @ r) = Some (ids, r)"
  using take_digits_append [OF assms(1,3)] assms(2)
  by (auto simp: int_part_def neq_Nil_conv split: nat.splits)

lemma frac_part_text:
  assumes "\<forall>d\<in>set fs. d < 10" and "r = [] \<or> (\<not> is_digit (hd r) \<and> hd r \<noteq> 46)"
  shows "frac_part (frac_text fs @ r) = Some (fs, r)"
  using assms take_digits_append [OF assms(1), of r]
  by (auto simp: frac_part_def frac_text_def neq_Nil_conv)

lemma drop_sign_text: "drop_sign (sign_text i @ s) = (i < 0, s)"
  by (simp add: sign_text_def drop_sign_def)

lemma exp_part_text:
  assumes "number_stops r"
  shows "exp_part (exp_text x @ r) = Some (case x of None \<Rightarrow> 0 | Some i \<Rightarrow> i, r)"
proof (cases x)
  case None
  with assms show ?thesis by (auto simp: exp_part_def exp_text_def number_stops_def)
next
  case (Some i)
  define j where "j = nat \<bar>i\<bar>"
  have "take_digits (map digit_unit (digits 10 j) @ r) = (digits 10 j, r)"
    using assms digits_less [of 10] by (intro take_digits_append) (auto simp: number_stops_def)
  moreover obtain d ds where "digits 10 j = d # ds" by (metis digits_nonempty neq_Nil_conv)
  moreover have "digits_value 10 (digits 10 j) = j" by simp
  moreover have "exp_text x = 101 # sign_text i @ map digit_unit (digits 10 j)"
    using Some by (simp add: exp_text_def j_def)
  ultimately show ?thesis
    using Some by (simp add: exp_part_def drop_sign_text j_def)
qed

lemma hd_exp_text: "number_stops r \<Longrightarrow> exp_text x @ r = [] \<or> hd (exp_text x @ r) \<noteq> 46"
  by (cases x) (auto simp: exp_text_def number_stops_def)

text \<open>A literal in its parts reads as the number it denotes.\<close>

lemma parse_literal:
  assumes "\<forall>d\<in>set ids. d < 10" "ids = [0] \<or> (ids \<noteq> [] \<and> 0 < hd ids)" "\<forall>d\<in>set fs. d < 10"
    and r: "number_stops r"
  shows "parse_number ((if s then [45] else []) @ map digit_unit ids @ frac_text fs @ exp_text x @ r)
    = Some (round_dec s (digits_value 10 (ids @ fs))
              ((case x of None \<Rightarrow> 0 | Some i \<Rightarrow> i) - int (length fs)), r)"
proof -
  let ?t = "map digit_unit ids @ frac_text fs @ exp_text x @ r"
  have ne: "ids \<noteq> []" using assms(2) by auto
  have "hd ?t \<noteq> 45"
  proof -
    from ne assms(1) have "hd ids < 10" by simp
    then have "is_digit (hd ?t)" using ne by (simp add: hd_append hd_map)
    then show ?thesis by auto
  qed
  moreover have "?t \<noteq> []" using ne by simp
  ultimately have sign: "(((if s then [45] else []) @ ?t \<noteq> [] \<and> hd ((if s then [45] else []) @ ?t) = 45)) = s"
    by auto
  have "int_part ?t = Some (ids, frac_text fs @ exp_text x @ r)"
    using assms(1,2) not_digit_frac [OF r, of fs x] by (rule int_part_digits)
  moreover have "frac_part (frac_text fs @ exp_text x @ r) = Some (fs, exp_text x @ r)"
    using assms(3) not_digit_exp [OF r, of x] hd_exp_text [OF r, of x] by (intro frac_part_text) auto
  moreover have "(if s then tl ((if s then [45] else []) @ ?t) else (if s then [45] else []) @ ?t) = ?t"
    by simp
  ultimately show ?thesis
    unfolding parse_number_def Let_def sign by (simp add: exp_part_text [OF r])
qed

text \<open>Every layout of a decimal is such a literal.\<close>

lemma digits_value_zeros [simp]: "digits_value 10 (replicate n 0 @ ds) = digits_value 10 ds"
  by (induction n) (simp_all add: digits_value_append [of 10 "[0]", simplified])

lemma layout_literal:
  assumes "\<forall>d\<in>set ds. d < 10" "ds \<noteq> []" "0 < hd ds"
  obtains ids fs x where "layout_decimal ds t = map digit_unit ids @ frac_text fs @ exp_text x"
    and "\<forall>d\<in>set ids. d < 10" and "ids = [0] \<or> (ids \<noteq> [] \<and> 0 < hd ids)" and "\<forall>d\<in>set fs. d < 10"
    and "round_dec s (digits_value 10 (ids @ fs)) ((case x of None \<Rightarrow> 0 | Some i \<Rightarrow> i) - int (length fs))
         = round_dec s (digits_value 10 ds) t"
proof -
  define k n where "k = length ds" and "n = int k + t"
  have k: "0 < k" using assms(2) by (simp add: k_def)
  note defs = layout_decimal_def Let_def k_def [symmetric] n_def [symmetric] frac_text_def exp_text_def
  consider (plain) "0 \<le> t" "n \<le> 21" | (point) "\<not> (0 \<le> t \<and> n \<le> 21)" "0 < n" "n \<le> 21"
    | (small) "\<not> (0 \<le> t \<and> n \<le> 21)" "\<not> (0 < n \<and> n \<le> 21)" "-6 < n" "n \<le> 0"
    | (exponent) "\<not> (0 \<le> t \<and> n \<le> 21)" "\<not> (0 < n \<and> n \<le> 21)" "\<not> (-6 < n \<and> n \<le> 0)"
    by blast
  then show ?thesis
  proof cases
    case plain
    have zeros: "digits_value 10 (replicate j 0) = 0" for j
      using digits_value_zeros [of j "[]"] by simp
    show ?thesis
    proof (rule that [of "ds @ replicate (nat t) 0" "[]" None])
      show "layout_decimal ds t
          = map digit_unit (ds @ replicate (nat t) 0) @ frac_text [] @ exp_text None"
        using plain by (simp add: defs digit_unit_0)
      show "round_dec s (digits_value 10 ((ds @ replicate (nat t) 0) @ []))
            ((case None of None \<Rightarrow> 0 | Some i \<Rightarrow> i) - int (length ([] :: nat list)))
          = round_dec s (digits_value 10 ds) t"
        using plain by (simp add: round_dec_def digits_value_append zeros)
    qed (use assms in auto)
  next
    case point
    then have n: "nat n < k" by (auto simp: n_def)
    show ?thesis
    proof (rule that [of "take (nat n) ds" "drop (nat n) ds" None])
      show "layout_decimal ds t
          = map digit_unit (take (nat n) ds) @ frac_text (drop (nat n) ds) @ exp_text None"
        using point n by (auto simp: defs take_map drop_map)
      show "take (nat n) ds = [0] \<or> (take (nat n) ds \<noteq> [] \<and> 0 < hd (take (nat n) ds))"
        using point assms by simp
      show "round_dec s (digits_value 10 (take (nat n) ds @ drop (nat n) ds))
            ((case None of None \<Rightarrow> 0 | Some i \<Rightarrow> i) - int (length (drop (nat n) ds)))
          = round_dec s (digits_value 10 ds) t"
        using point n by (simp add: k_def n_def of_nat_diff)
    qed (use assms in \<open>auto dest: in_set_takeD in_set_dropD\<close>)
  next
    case small
    show ?thesis
    proof (rule that [of "[0]" "replicate (nat (- n)) 0 @ ds" None])
      show "layout_decimal ds t
          = map digit_unit [0] @ frac_text (replicate (nat (- n)) 0 @ ds) @ exp_text None"
        using small assms(2) by (auto simp: defs digit_unit_0)
      show "round_dec s (digits_value 10 ([0] @ replicate (nat (- n)) 0 @ ds))
            ((case None of None \<Rightarrow> 0 | Some i \<Rightarrow> i) - int (length (replicate (nat (- n)) 0 @ ds)))
          = round_dec s (digits_value 10 ds) t"
        using small digits_value_zeros [of 1 "replicate (nat (- n)) 0 @ ds"]
        by (simp add: k_def n_def)
    qed (use assms in auto)
  next
    case exponent
    have "drop 1 ds = [] \<longleftrightarrow> k = 1" using k unfolding k_def drop_eq_Nil by linarith
    with exponent have e: "layout_decimal ds t =
        map digit_unit (take 1 ds) @ frac_text (drop 1 ds) @ exp_text (Some (n - 1))"
      by (auto simp: defs take_map drop_map)
    show ?thesis
    proof (rule that [OF e])
      show "take 1 ds = [0] \<or> (take 1 ds \<noteq> [] \<and> 0 < hd (take 1 ds))"
        using assms by simp
      show "round_dec s (digits_value 10 (take 1 ds @ drop 1 ds))
            ((case Some (n - 1) of None \<Rightarrow> 0 | Some i \<Rightarrow> i) - int (length (drop 1 ds)))
          = round_dec s (digits_value 10 ds) t"
      proof -
        have "n - 1 - int (length (drop 1 ds)) = t" using k unfolding k_def n_def length_drop by linarith
        then show ?thesis by (simp only: option.case append_take_drop_id)
      qed
    qed (use assms in \<open>auto dest: in_set_takeD in_set_dropD\<close>)
  qed
qed

lemma parse_layout:
  assumes "\<forall>d\<in>set ds. d < 10" "ds \<noteq> []" "0 < hd ds" "number_stops r"
  shows "parse_number ((if s then [45] else []) @ layout_decimal ds t @ r)
    = Some (round_dec s (digits_value 10 ds) t, r)"
proof (rule layout_literal [OF assms(1-3), of t s])
  fix ids fs x
  assume lay: "layout_decimal ds t = map digit_unit ids @ frac_text fs @ exp_text x"
    and ok: "\<forall>d\<in>set ids. d < 10" "ids = [0] \<or> (ids \<noteq> [] \<and> 0 < hd ids)" "\<forall>d\<in>set fs. d < 10"
    and val: "round_dec s (digits_value 10 (ids @ fs)) ((case x of None \<Rightarrow> 0 | Some i \<Rightarrow> i) - int (length fs))
         = round_dec s (digits_value 10 ds) t"
  show ?thesis using parse_literal [OF ok assms(4), of s x] unfolding lay val by simp
qed

text \<open>
  The round trip: a finite binary64 value (not the negative zero, which prints as \<open>0\<close>) is
  printed as a literal that reads back as it.
\<close>

fun printable_number :: "js_number \<Rightarrow> bool" where
  "printable_number (Finite s m e) = (representable 53 (-1074) 1023 m e \<and> (s \<longrightarrow> m \<noteq> 0))"
| "printable_number x = False"

lemma parse_number_to_string:
  assumes "printable_number x" and "number_stops r"
  shows "parse_number (number_to_string x @ r) = Some (x, r)"
proof -
  from assms(1) obtain s m e where x: "x = Finite s m e"
    and rep: "representable 53 (-1074) 1023 m e" and z: "s \<longrightarrow> m \<noteq> 0"
    by (cases x) auto
  show ?thesis
  proof (cases "m = 0")
    case True
    with rep z have "x = Finite False 0 0" by (simp add: x representable_def)
    moreover have "parse_number ([48] @ r) = Some (round_dec False 0 0, r)"
      using parse_literal [of "[0]" "[]" r False None] assms(2)
      by (simp add: frac_text_def exp_text_def digit_unit_0)
    ultimately show ?thesis by (simp add: round_dec_def round64_def round_ratio_def)
  next
    case False
    obtain d t where dt: "shortest_decimal s m e = (d, t)" by fastforce
    with rep False have d: "0 < d" and val: "round_dec s d t = Finite s m e"
      using shortest_decimal_rounds [of m e s d t] by auto
    have "parse_number ((if s then [45] else []) @ layout_decimal (digits 10 d) t @ r)
        = Some (round_dec s (digits_value 10 (digits 10 d)) t, r)"
      using d digits_less [of 10 _ d] hd_digits_pos [of d 10] assms(2) by (intro parse_layout) auto
    with x False dt val show ?thesis by simp
  qed
qed

end
