(* ===== verification/Json.thy ===== *)
theory Json
  imports JSDecimal
begin

text \<open>
  JSON data of the modelled language: values, objects as property lists in enumeration order
  (array indices ascending, then the other keys in insertion order), \<open>JSON.stringify\<close> without
  indentation and \<open>JSON.parse\<close>. The parser recurses on fuel; \<open>json_parse\<close> starts it with one
  more than twice the length of the text, which is shown to be enough for every text.
\<close>

datatype jval =
    JNull
  | JBool bool
  | JNum js_number
  | JStr jstring
  | JArr "jval list"
  | JObj "(jstring \<times> jval) list"

type_synonym members = "(jstring \<times> jval) list"

section \<open>Objects\<close>

text \<open>The value of a key that is an array index: canonical decimal, at most \<open>2^32 - 2\<close>.\<close>

definition index_key :: "jstring \<Rightarrow> nat option" where
  "index_key k =
     (if k \<noteq> [] \<and> list_all is_digit k \<and> (hd k = 48 \<longrightarrow> tl k = [])
      then (let n = digits_value 10 (digit_values k) in if n < 2 ^ 32 - 1 then Some n else None)
      else None)"

definition key_before :: "jstring \<Rightarrow> jstring \<Rightarrow> bool" where
  "key_before k k' =
     (case index_key k' of None \<Rightarrow> True
      | Some j \<Rightarrow> (case index_key k of None \<Rightarrow> False | Some i \<Rightarrow> i < j))"

definition obj_order :: "(jstring \<times> 'v) list \<Rightarrow> bool" where
  "obj_order kvs \<longleftrightarrow> distinct (map fst kvs) \<and> sorted_wrt key_before (map fst kvs)"

text \<open>Setting a property: in place if the key is there, otherwise at its place in the order.\<close>

definition obj_put :: "(jstring \<times> 'v) list \<Rightarrow> jstring \<Rightarrow> 'v \<Rightarrow> (jstring \<times> 'v) list" where
  "obj_put kvs k v =
     (if k \<in> set (map fst kvs) then map (\<lambda>(k', v'). if k' = k then (k, v) else (k', v')) kvs
      else takeWhile (\<lambda>(k', _). key_before k' k) kvs @ (k, v) # dropWhile (\<lambda>(k', _). key_before k' k) kvs)"

definition obj_get :: "(jstring \<times> 'v) list \<Rightarrow> jstring \<Rightarrow> 'v option" where
  "obj_get = map_of"

lemma obj_order_Nil [simp]: "obj_order []"
  by (simp add: obj_order_def)

text \<open>Adding the next entry of an ordered object appends it.\<close>

lemma obj_put_snoc:
  assumes "obj_order (kvs @ (k, v) # r)"
  shows "obj_put kvs k v = kvs @ [(k, v)]"
proof -
  from assms have "k \<notin> set (map fst kvs)" and "\<forall>x\<in>set kvs. key_before (fst x) k"
    by (auto simp: obj_order_def sorted_wrt_append)
  moreover from this(2) have "takeWhile (\<lambda>(k', _). key_before k' k) kvs = kvs"
    unfolding takeWhile_eq_all_conv by auto
  moreover from calculation(2) have "dropWhile (\<lambda>(k', _). key_before k' k) kvs = []"
    unfolding dropWhile_eq_Nil_conv by auto
  ultimately show ?thesis by (simp add: obj_put_def)
qed

lemma map_of_replace:
  "map_of (map (\<lambda>(k', v'). if k' = k then (k, v) else (k', v')) kvs)
     = (\<lambda>k'. if k' = k then (if k \<in> set (map fst kvs) then Some v else None) else map_of kvs k')"
  by (induction kvs) (auto simp: fun_eq_iff)

lemma obj_get_put [simp]: "obj_get (obj_put kvs k v) = (obj_get kvs)(k \<mapsto> v)"
proof (cases "k \<in> set (map fst kvs)")
  case True
  then show ?thesis by (simp add: obj_get_def obj_put_def map_of_replace fun_eq_iff)
next
  case False
  let ?P = "\<lambda>(k', _). key_before k' k"
  have split: "map_of kvs = map_of (dropWhile ?P kvs) ++ map_of (takeWhile ?P kvs)"
    using takeWhile_dropWhile_id [of ?P kvs] by (metis map_of_append)
  have "k \<notin> fst ` set (takeWhile ?P kvs)"
    using False by (metis (no_types, lifting) image_mono in_mono list.set_map set_takeWhileD subsetI)
  then have "map_of (takeWhile ?P kvs) k = None" by (simp add: map_of_eq_None_iff)
  with False show ?thesis
    unfolding obj_get_def obj_put_def by (auto simp: fun_eq_iff split map_add_def split: option.splits)
qed

section \<open>JSON.stringify\<close>

definition hex4 :: "code_unit \<Rightarrow> jstring" where
  "hex4 u = (let n = unat u in
     map digit_unit [n div 0x1000, n div 0x100 mod 0x10, n div 0x10 mod 0x10, n mod 0x10])"

definition escape_unit :: "code_unit \<Rightarrow> jstring" where
  "escape_unit u =
     (if u = 8 then [92, 98] else if u = 9 then [92, 116] else if u = 10 then [92, 110]
      else if u = 12 then [92, 102] else if u = 13 then [92, 114]
      else if u = 34 then [92, 34] else if u = 92 then [92, 92]
      else if unat u < 32 \<or> is_high u \<or> is_low u then 92 # 117 # hex4 u
      else [u])"

text \<open>Unpaired surrogates are escaped, so the text is always well formed.\<close>

fun quote_body :: "jstring \<Rightarrow> jstring" where
  "quote_body [] = []"
| "quote_body [u] = escape_unit u"
| "quote_body (u # v # us) =
     (if is_high u \<and> is_low v then u # v # quote_body us else escape_unit u @ quote_body (v # us))"

definition quote :: "jstring \<Rightarrow> jstring" where
  "quote s = 34 # quote_body s @ [34]"

fun stringify :: "jval \<Rightarrow> jstring"
  and stringify_elements :: "jval list \<Rightarrow> jstring"
  and stringify_members :: "members \<Rightarrow> jstring" where
  "stringify JNull = js ''null''"
| "stringify (JBool b) = js (if b then ''true'' else ''false'')"
| "stringify (JNum x) = (case x of Finite _ _ _ \<Rightarrow> number_to_string x | _ \<Rightarrow> js ''null'')"
| "stringify (JStr s) = quote s"
| "stringify (JArr vs) = 91 # stringify_elements vs @ [93]"
| "stringify (JObj kvs) = 123 # stringify_members kvs @ [125]"
| "stringify_elements [] = []"
| "stringify_elements (v # vs) = stringify v @ (if vs = [] then [] else 44 # stringify_elements vs)"
| "stringify_members [] = []"
| "stringify_members ((k, v) # kvs) =
     quote k @ 58 # stringify v @ (if kvs = [] then [] else 44 # stringify_members kvs)"

section \<open>JSON.parse\<close>

definition escape_value :: "code_unit \<Rightarrow> code_unit option" where
  "escape_value e =
     (if e = 34 \<or> e = 92 \<or> e = 47 then Some e
      else if e = 98 then Some 8 else if e = 102 then Some 12 else if e = 110 then Some 10
      else if e = 114 then Some 13 else if e = 116 then Some 9 else None)"

definition hex4_value :: "code_unit \<Rightarrow> code_unit \<Rightarrow> code_unit \<Rightarrow> code_unit \<Rightarrow> code_unit option" where
  "hex4_value a b c d =
     (case (hex_digit a, hex_digit b, hex_digit c, hex_digit d) of
        (Some w, Some x, Some y, Some z) \<Rightarrow> Some (of_nat (((w * 16 + x) * 16 + y) * 16 + z))
      | _ \<Rightarrow> None)"

definition cons_unit :: "code_unit \<Rightarrow> (jstring \<times> jstring) option \<Rightarrow> (jstring \<times> jstring) option" where
  "cons_unit u = map_option (\<lambda>(s, r). (u # s, r))"

text \<open>The rest of a string literal after its opening quote.\<close>

fun parse_string :: "jstring \<Rightarrow> (jstring \<times> jstring) option" where
  "parse_string [] = None"
| "parse_string (u # us) =
     (if u = 34 then Some ([], us)
      else if u = 92 then
        (case us of
           e # r \<Rightarrow>
             if e = 117 then
               (case r of
                  a # b # c # d # r' \<Rightarrow>
                    (case hex4_value a b c d of Some x \<Rightarrow> cons_unit x (parse_string r') | None \<Rightarrow> None)
                | _ \<Rightarrow> None)
             else (case escape_value e of Some x \<Rightarrow> cons_unit x (parse_string r) | None \<Rightarrow> None)
         | [] \<Rightarrow> None)
      else if unat u < 32 then None
      else cons_unit u (parse_string us))"

definition skip_ws :: "jstring \<Rightarrow> jstring" where
  "skip_ws = dropWhile (\<lambda>u. u \<in> {9, 10, 13, 32})"

definition literal_rest :: "string \<Rightarrow> jstring \<Rightarrow> jstring option" where
  "literal_rest w s = (if take (length w) s = js w then Some (drop (length w) s) else None)"

fun parse_value :: "nat \<Rightarrow> jstring \<Rightarrow> (jval \<times> jstring) option"
  and parse_elements :: "nat \<Rightarrow> jstring \<Rightarrow> (jval list \<times> jstring) option"
  and parse_members :: "nat \<Rightarrow> members \<Rightarrow> jstring \<Rightarrow> (members \<times> jstring) option" where
  "parse_value 0 s = None"
| "parse_value (Suc f) s =
     (case skip_ws s of
        [] \<Rightarrow> None
      | u # us \<Rightarrow>
          if u = 123 then
            (case skip_ws us of
               [] \<Rightarrow> None
             | w # ws \<Rightarrow> if w = 125 then Some (JObj [], ws)
                 else map_option (\<lambda>(kvs, r). (JObj kvs, r)) (parse_members f [] us))
          else if u = 91 then
            (case skip_ws us of
               [] \<Rightarrow> None
             | w # ws \<Rightarrow> if w = 93 then Some (JArr [], ws)
                 else map_option (\<lambda>(vs, r). (JArr vs, r)) (parse_elements f us))
          else if u = 34 then map_option (\<lambda>(s, r). (JStr s, r)) (parse_string us)
          else if u = 110 then map_option (\<lambda>r. (JNull, r)) (literal_rest ''null'' (u # us))
          else if u = 116 then map_option (\<lambda>r. (JBool True, r)) (literal_rest ''true'' (u # us))
          else if u = 102 then map_option (\<lambda>r. (JBool False, r)) (literal_rest ''false'' (u # us))
          else map_option (\<lambda>(x, r). (JNum x, r)) (parse_number (u # us)))"
| "parse_elements 0 s = None"
| "parse_elements (Suc f) s =
     (case parse_value f s of
        None \<Rightarrow> None
      | Some (v, r) \<Rightarrow>
          (case skip_ws r of
             [] \<Rightarrow> None
           | u # us \<Rightarrow>
               if u = 44 then map_option (\<lambda>(vs, r'). (v # vs, r')) (parse_elements f us)
               else if u = 93 then Some ([v], us)
               else None))"
| "parse_members 0 acc s = None"
| "parse_members (Suc f) acc s =
     (case skip_ws s of
        [] \<Rightarrow> None
      | u # us \<Rightarrow>
          if u \<noteq> 34 then None
          else (case parse_string us of
             None \<Rightarrow> None
           | Some (k, r) \<Rightarrow>
               (case skip_ws r of
                  [] \<Rightarrow> None
                | w # ws \<Rightarrow>
                    if w \<noteq> 58 then None
                    else (case parse_value f ws of
                       None \<Rightarrow> None
                     | Some (v, r2) \<Rightarrow>
                         (case skip_ws r2 of
                            [] \<Rightarrow> None
                          | x # xs \<Rightarrow>
                              if x = 44 then parse_members f (obj_put acc k v) xs
                              else if x = 125 then Some (obj_put acc k v, xs)
                              else None)))))"

definition json_parse :: "jstring \<Rightarrow> jval option" where
  "json_parse s =
     (case parse_value (Suc (2 * length s)) s of
        Some (v, r) \<Rightarrow> if skip_ws r = [] then Some v else None
      | None \<Rightarrow> None)"

section \<open>The fuel is enough\<close>

lemma skip_ws_length: "length (skip_ws s) \<le> length s"
  by (simp add: skip_ws_def length_dropWhile_le)

lemma skip_ws_Cons_length: "skip_ws s = u # us \<Longrightarrow> length us < length s"
  using skip_ws_length [of s] by simp

lemma parse_string_length: "parse_string s = Some (t, r) \<Longrightarrow> length r < length s"
  by (induction s arbitrary: t r rule: parse_string.induct)
     (fastforce simp: cons_unit_def split: if_splits list.splits option.splits)+

lemma take_digits_length: "take_digits s = (ds, r) \<Longrightarrow> length r \<le> length s"
  by (auto simp: take_digits_def length_dropWhile_le)

lemma take_digits_Cons_length: "take_digits s = (d # ds, r) \<Longrightarrow> length r < length s"
proof -
  assume "take_digits s = (d # ds, r)"
  then have "takeWhile is_digit s \<noteq> []" and r: "r = dropWhile is_digit s"
    by (auto simp: take_digits_def digit_values_def)
  then have "length (takeWhile is_digit s) + length r = length s" and "0 < length (takeWhile is_digit s)"
    by (simp_all flip: length_append)
  then show ?thesis by linarith
qed

lemma int_part_length: "int_part s = Some (ds, r) \<Longrightarrow> length r < length s"
proof -
  assume i: "int_part s = Some (ds, r)"
  obtain ds' r' where t: "take_digits s = (ds', r')" by fastforce
  with i obtain d ds'' where "ds' = d # ds''" by (cases ds') (auto simp: int_part_def)
  with t have "length r' < length s" by (simp add: take_digits_Cons_length)
  then show ?thesis
    using i t \<open>ds' = d # ds''\<close> by (cases s) (auto simp: int_part_def split: nat.splits)
qed

lemma frac_part_length: "frac_part s = Some (ds, r) \<Longrightarrow> length r \<le> length s"
  by (cases s) (auto simp: frac_part_def split: if_splits prod.splits list.splits dest!: take_digits_Cons_length)

lemma drop_sign_length: "drop_sign s = (b, r) \<Longrightarrow> length r \<le> length s"
  by (auto simp: drop_sign_def split: list.splits if_splits)

lemma exp_part_length: "exp_part s = Some (x, r) \<Longrightarrow> length r \<le> length s"
  by (cases s)
     (auto simp: exp_part_def Let_def split: if_splits prod.splits list.splits
       dest!: take_digits_Cons_length drop_sign_length)

lemma parse_number_length: "parse_number s = Some (x, r) \<Longrightarrow> length r < length s"
  by (auto simp: parse_number_def Let_def split: option.splits prod.splits if_splits
      dest!: int_part_length frac_part_length exp_part_length)

lemma literal_rest_length: "w \<noteq> [] \<Longrightarrow> literal_rest w s = Some r \<Longrightarrow> length r < length s"
  by (cases s) (auto simp: literal_rest_def js_def split: if_splits)

lemma parse_length:
  "parse_value f s = Some (v, r) \<Longrightarrow> length r < length s"
  "parse_elements f s = Some (vs, r) \<Longrightarrow> length r < length s"
  "parse_members f acc s = Some (kvs, r) \<Longrightarrow> length r < length s"
proof (induction f s and f s and f acc s arbitrary: v r and vs r and kvs r
    rule: parse_value_parse_elements_parse_members.induct)
  case (2 f s)
  show ?case
  proof (cases "skip_ws s")
    case Nil
    with "2.prems" show ?thesis by simp
  next
    case (Cons u us)
    note us = skip_ws_Cons_length [OF Cons]
    from "2.prems" "2.IH" Cons have "length r < Suc (length us)"
      by (fastforce dest: skip_ws_Cons_length parse_string_length parse_number_length
          literal_rest_length [rotated] split: if_splits list.splits)
    with us show ?thesis by linarith
  qed
next
  case (4 f s)
  then show ?case
    by (fastforce dest: skip_ws_Cons_length split: if_splits list.splits option.splits)
next
  case (6 f acc s)
  then show ?case
    by (fastforce dest: skip_ws_Cons_length parse_string_length split: if_splits list.splits option.splits)
qed simp_all

text \<open>One more unit of fuel changes nothing once there is more than twice the length of the text.\<close>

lemma parse_fuel_Suc:
  "2 * length s < f \<Longrightarrow> parse_value (Suc f) s = parse_value f s"
  "2 * length s + 1 < f \<Longrightarrow> parse_elements (Suc f) s = parse_elements f s"
  "2 * length s < f \<Longrightarrow> parse_members (Suc f) acc s = parse_members f acc s"
proof (induction f s and f s and f acc s rule: parse_value_parse_elements_parse_members.induct)
  case (2 f s)
  show ?case
  proof (cases "skip_ws s")
    case (Cons u us)
    with "2.prems" have "2 * length us + 1 < f" using skip_ws_Cons_length [OF Cons] by linarith
    with Cons "2.IH" show ?thesis
      by (cases "skip_ws us") (auto simp del: parse_elements.simps parse_members.simps)
  qed simp
next
  case (4 f s)
  then have v: "parse_value (Suc f) s = parse_value f s" by simp
  show ?case
  proof (cases "parse_value f s")
    case (Some vr)
    obtain x r where vr: "vr = (x, r)" by fastforce
    with Some have r: "length r < length s" by (simp add: parse_length)
    show ?thesis
    proof (cases "skip_ws r")
      case (Cons u us)
      then have "2 * length us + 1 < f" using "4.prems" r skip_ws_Cons_length [OF Cons] by linarith
      with Cons Some v vr "4.IH"(2) show ?thesis
        by (auto simp del: parse_value.simps(2))
    qed (use Some v vr in \<open>simp del: parse_value.simps(2)\<close>)
  qed (use v in \<open>simp del: parse_value.simps(2)\<close>)
next
  case (6 f acc s)
  show ?case
  proof (cases "\<exists>us k r ws. skip_ws s = 34 # us \<and> parse_string us = Some (k, r) \<and> skip_ws r = 58 # ws")
    case False
    show ?thesis
    proof (cases "\<exists>us k r. skip_ws s = 34 # us \<and> parse_string us = Some (k, r)")
      case True
      then obtain us k r where p: "skip_ws s = 34 # us" "parse_string us = Some (k, r)" by blast
      with False have "skip_ws r = [] \<or> hd (skip_ws r) \<noteq> 58" by (cases "skip_ws r") auto
      with p show ?thesis by (cases "skip_ws r") (simp_all del: parse_value.simps)
    next
      case False
      then have "skip_ws s = [] \<or> hd (skip_ws s) \<noteq> 34 \<or> parse_string (tl (skip_ws s)) = None"
        by (cases "skip_ws s"; cases "parse_string (tl (skip_ws s))") auto
      then show ?thesis by (cases "skip_ws s") (auto simp del: parse_value.simps)
    qed
  next
    case True
    then obtain us k r ws
      where p: "skip_ws s = 34 # us" "parse_string us = Some (k, r)" "skip_ws r = 58 # ws" by blast
    then have ws: "2 * length ws + 4 < f"
      using "6.prems" skip_ws_Cons_length [OF p(1)] parse_string_length [OF p(2)]
        skip_ws_Cons_length [OF p(3)] by linarith
    with "6.IH"(1) p have v: "parse_value (Suc f) ws = parse_value f ws" by simp
    show ?thesis
    proof (cases "parse_value f ws")
      case (Some vr)
      obtain x r2 where vr: "vr = (x, r2)" by fastforce
      with Some have r2: "length r2 < length ws" by (simp add: parse_length)
      show ?thesis
      proof (cases "skip_ws r2")
        case (Cons y ys)
        then have "2 * length ys < f" using ws r2 skip_ws_Cons_length [OF Cons] by linarith
        with Cons Some v vr p "6.IH"(2) show ?thesis
          by (auto simp del: parse_value.simps(2))
      qed (use Some v vr p in \<open>simp del: parse_value.simps(2)\<close>)
    qed (use v p in \<open>simp del: parse_value.simps(2)\<close>)
  qed
qed simp_all

text \<open>Hence every larger amount of fuel gives the result of \<open>json_parse\<close>: it never runs out.\<close>

lemma parse_value_fuel:
  "2 * length s < f \<Longrightarrow> parse_value (f + n) s = parse_value f s"
proof (induction n)
  case (Suc n)
  then have "parse_value (Suc (f + n)) s = parse_value (f + n) s" by (simp add: parse_fuel_Suc(1) del: parse_value.simps)
  with Suc show ?case by (simp del: parse_value.simps)
qed simp

end
