(* ===== verification/JsonRoundTrip.thy ===== *)
theory JsonRoundTrip
  imports Json
begin

text \<open>
  \<open>JSON.parse\<close> after \<open>JSON.stringify\<close>: what a value becomes on the way through its text
  (\<open>json_norm\<close>: NaN and the infinities are written as null, minus zero as zero), shown for
  every value whose numbers are binary64 and whose objects are in enumeration order.
\<close>

section \<open>Values that a run of the code can hold, and what stringify keeps of them\<close>

fun json_ok :: "jval \<Rightarrow> bool" where
  "json_ok (JNum x) = is_binary64 x"
| "json_ok (JArr vs) = list_all json_ok vs"
| "json_ok (JObj kvs) = (obj_order kvs \<and> list_all (\<lambda>(_, v). json_ok v) kvs)"
| "json_ok _ = True"

fun number_norm :: "js_number \<Rightarrow> jval" where
  "number_norm (Finite s m e) = JNum (Finite (s \<and> m \<noteq> 0) m e)"
| "number_norm _ = JNull"

fun json_norm :: "jval \<Rightarrow> jval" where
  "json_norm (JNum x) = number_norm x"
| "json_norm (JArr vs) = JArr (map json_norm vs)"
| "json_norm (JObj kvs) = JObj (map (\<lambda>(k, v). (k, json_norm v)) kvs)"
| "json_norm v = v"

fun json_plain :: "jval \<Rightarrow> bool" where
  "json_plain (JNum x) = printable_number x"
| "json_plain (JArr vs) = list_all json_plain vs"
| "json_plain (JObj kvs) = (obj_order kvs \<and> list_all (\<lambda>(_, v). json_plain v) kvs)"
| "json_plain _ = True"

lemma number_norm_printable: "printable_number x \<Longrightarrow> number_norm x = JNum x"
  by (cases x) auto

lemma json_norm_plain [simp]: "json_plain v \<Longrightarrow> json_norm v = v"
proof (induction v rule: json_norm.induct)
  case (2 vs)
  then show ?case by (auto simp: list_all_iff intro: map_idI)
next
  case (3 kvs)
  then have "\<And>k v. (k, v) \<in> set kvs \<Longrightarrow> json_norm v = v" by (fastforce simp: list_all_iff)
  then show ?case by (auto intro: map_idI)
qed (simp_all add: number_norm_printable)

lemma json_plain_ok: "json_plain v \<Longrightarrow> json_ok v"
proof (induction v rule: json_norm.induct)
  case (1 x)
  then show ?case by (cases x) auto
qed (auto simp: list_all_iff)

lemma json_norm_idem: "json_norm (json_norm v) = json_norm v"
proof (induction v rule: json_norm.induct)
  case (1 x)
  then show ?case by (cases x) auto
qed auto

section \<open>String literals\<close>

lemma hex4_value_digits:
  assumes "unat u = ((a * 16 + b) * 16 + c) * 16 + d" "a < 16" "b < 16" "c < 16" "d < 16"
  shows "hex4_value (digit_unit a) (digit_unit b) (digit_unit c) (digit_unit d) = Some u"
proof -
  have "hex4_value (digit_unit a) (digit_unit b) (digit_unit c) (digit_unit d)
      = Some (of_nat (((a * 16 + b) * 16 + c) * 16 + d))"
    using assms(2-) by (simp only: hex4_value_def hex_digit_unit option.case prod.case)
  then show ?thesis by (simp only: assms(1) [symmetric]) simp
qed

lemma parse_hex4: "parse_string (92 # 117 # hex4 u @ t) = cons_unit u (parse_string t)"
proof -
  define n where "n = unat u"
  have "n < 65536" by (simp add: n_def)
  then have "n div 0x1000 < 16" by simp
  moreover have "n = ((n div 0x1000 * 16 + n div 0x100 mod 0x10) * 16 + n div 0x10 mod 0x10) * 16 + n mod 0x10"
    using div_mult_mod_eq [of n 16] div_mult_mod_eq [of "n div 16" 16] div_mult_mod_eq [of "n div 0x100" 16]
    by (simp add: div_mult2_eq [symmetric])
  ultimately have "hex4_value (digit_unit (n div 0x1000)) (digit_unit (n div 0x100 mod 0x10))
      (digit_unit (n div 0x10 mod 0x10)) (digit_unit (n mod 0x10)) = Some u"
    by (intro hex4_value_digits) (simp_all flip: n_def)
  then show ?thesis by (simp add: hex4_def Let_def flip: n_def)
qed

lemma parse_escape: "parse_string (escape_unit u @ t) = cons_unit u (parse_string t)"
proof (cases "unat u < 32 \<or> is_high u \<or> is_low u")
  case True
  then show ?thesis
    by (auto simp: escape_unit_def escape_value_def parse_hex4 simp del: parse_string.simps(2))
       (auto simp: escape_value_def)
next
  case False
  then show ?thesis by (auto simp: escape_unit_def escape_value_def)
qed

lemma parse_pair:
  "is_high h \<Longrightarrow> is_low l \<Longrightarrow>
     parse_string (h # l # t) = cons_unit h (cons_unit l (parse_string t))"
  by (auto simp: is_high_def is_low_def)

lemma parse_quote_body: "parse_string (quote_body s @ 34 # r) = Some (s, r)"
  by (induction s rule: quote_body.induct)
     (simp_all add: parse_escape parse_pair cons_unit_def del: parse_string.simps(2),
      simp_all add: cons_unit_def)

lemma small_unit_plain: "unat c < 128 \<Longrightarrow> \<not> is_high c \<and> \<not> is_low c"
  by (simp add: is_high_def is_low_def)

lemma hex4_plain: "v \<in> set (hex4 u) \<Longrightarrow> unat v < 128"
proof -
  assume "v \<in> set (hex4 u)"
  moreover have "unat u div 0x1000 < 16"
    using unat_lt_65536 [of u] by (simp add: div_less_iff_less_mult del: unat_lt_65536)
  ultimately obtain d where "v = digit_unit d" "d < 16" by (auto simp: hex4_def Let_def)
  then show ?thesis by (simp add: unat_digit_unit)
qed

lemma escape_unit_shape:
  "(escape_unit u = [u] \<and> \<not> is_high u \<and> \<not> is_low u) \<or> (\<exists>c. escape_unit u = [92, c] \<and> unat c < 128)
    \<or> escape_unit u = 92 # 117 # hex4 u"
  by (simp add: escape_unit_def)

lemma escape_well_formed: "well_formed (escape_unit u)"
proof (rule well_formed_plain, rule ballI)
  fix v
  assume "v \<in> set (escape_unit u)"
  with escape_unit_shape [of u]
  have "(\<not> is_high v \<and> \<not> is_low v) \<or> v = 92 \<or> v = 117 \<or> unat v < 128"
    by (auto dest: hex4_plain)
  then show "\<not> is_high v \<and> \<not> is_low v" by (auto dest: small_unit_plain simp: small_unit_plain)
qed

lemma quote_body_well_formed: "well_formed (quote_body s)"
  by (induction s rule: quote_body.induct) (auto simp: escape_well_formed well_formed_append)

section \<open>Values\<close>

lemma int_part_hd: "int_part s = Some (ds, r) \<Longrightarrow> \<exists>c cs. s = c # cs \<and> is_digit c"
  by (cases s) (auto simp: int_part_def take_digits_def digit_values_def split: if_splits)

lemma parse_number_hd: "parse_number s = Some (x, r) \<Longrightarrow> \<exists>c cs. s = c # cs \<and> (c = 45 \<or> is_digit c)"
proof (cases "s \<noteq> [] \<and> hd s = 45")
  case True
  then show ?thesis by (cases s) auto
next
  case False
  assume "parse_number s = Some (x, r)"
  with False obtain ds r' where "int_part s = Some (ds, r')"
    unfolding parse_number_def Let_def by (simp only: if_False split: option.splits) auto
  then show ?thesis by (auto dest: int_part_hd)
qed

lemma number_text_hd:
  assumes "printable_number x"
  shows "\<exists>c cs. number_to_string x = c # cs \<and> (c = 45 \<or> is_digit c)"
  using parse_number_hd parse_number_to_string [OF assms, of "[]"] by (simp add: number_stops_def)

text \<open>The first code unit of a value's text tells the parser what the value is.\<close>

definition value_start :: "code_unit \<Rightarrow> bool" where
  "value_start c \<longleftrightarrow> c = 45 \<or> is_digit c \<or> c \<in> {34, 91, 102, 110, 116, 123}"

lemma value_startD:
  "value_start c \<Longrightarrow> c \<notin> {9, 10, 13, 32, 44, 58, 93, 125}"
  by (auto simp: value_start_def is_digit_def)

lemma number_norm_text:
  assumes "is_binary64 x"
  shows "(\<exists>y. number_norm x = JNum y \<and> printable_number y \<and> stringify (JNum x) = number_to_string y)
    \<or> (number_norm x = JNull \<and> stringify (JNum x) = js ''null'')"
  using assms by (cases x) (auto simp: number_to_string.simps)

lemma stringify_hd: "json_ok v \<Longrightarrow> \<exists>c cs. stringify v = c # cs \<and> value_start c"
proof (cases v)
  case (JNum x)
  assume "json_ok v"
  with JNum number_norm_text [of x] show ?thesis
    by (auto simp: value_start_def dest!: number_text_hd)
qed (auto simp: value_start_def quote_def)

lemma skip_ws_start: "value_start c \<Longrightarrow> skip_ws (c # cs) = c # cs"
  by (auto simp: skip_ws_def dest: value_startD)

lemma skip_ws_keep [simp]: "c \<notin> {9, 10, 13, 32} \<Longrightarrow> skip_ws (c # cs) = c # cs"
  by (auto simp: skip_ws_def)

lemma number_stops_punct: "c \<in> {44, 93, 125} \<Longrightarrow> number_stops (c # cs)"
  by (auto simp: number_stops_def is_digit_def)

lemma parse_number_value:
  assumes "printable_number x" "number_stops r" "0 < f"
  shows "parse_value f (number_to_string x @ r) = Some (JNum x, r)"
proof -
  obtain c cs where c: "number_to_string x = c # cs" "c = 45 \<or> is_digit c"
    using number_text_hd [OF assms(1)] by blast
  then have "value_start c" "c \<notin> {34, 91, 102, 110, 116, 123}"
    by (auto simp: value_start_def is_digit_def)
  moreover have "parse_number (c # cs @ r) = Some (JNum_arg, r') \<longleftrightarrow> JNum_arg = x \<and> r' = r" for JNum_arg r'
    using parse_number_to_string [OF assms(1,2)] c by auto
  ultimately show ?thesis
    using assms(3) c parse_number_to_string [OF assms(1,2)]
    by (cases f) (auto simp: skip_ws_start)
qed

lemma parse_number_norm:
  assumes "is_binary64 x" "number_stops r" "0 < f"
  shows "parse_value f (stringify (JNum x) @ r) = Some (number_norm x, r)"
  using number_norm_text [OF assms(1)]
proof
  assume "\<exists>y. number_norm x = JNum y \<and> printable_number y \<and> stringify (JNum x) = number_to_string y"
  then show ?thesis using parse_number_value [OF _ assms(2,3)] by auto
next
  assume "number_norm x = JNull \<and> stringify (JNum x) = js ''null''"
  then show ?thesis using assms(3) by (cases f) (simp_all add: literal_rest_def)
qed

lemma parse_quote_value: "0 < f \<Longrightarrow> parse_value f (quote s @ r) = Some (JStr s, r)"
  by (cases f) (simp_all add: quote_def parse_quote_body del: parse_string.simps)

text \<open>The members read so far, \<open>acc\<close>, grow in the order in which they were written.\<close>

lemma parse_stringify:
  "json_ok v \<Longrightarrow> number_stops r \<Longrightarrow> 2 * length (stringify v) < f \<Longrightarrow>
     parse_value f (stringify v @ r) = Some (json_norm v, r)"
  "list_all json_ok vs \<Longrightarrow> vs \<noteq> [] \<Longrightarrow> 2 * length (stringify_elements vs) + 1 < f \<Longrightarrow>
     parse_elements f (stringify_elements vs @ 93 # r) = Some (map json_norm vs, r)"
  "list_all (\<lambda>(_, v). json_ok v) kvs \<Longrightarrow> kvs \<noteq> [] \<Longrightarrow>
     obj_order (acc @ map (\<lambda>(k, v). (k, json_norm v)) kvs) \<Longrightarrow>
     2 * length (stringify_members kvs) + 1 < f \<Longrightarrow>
     parse_members f acc (stringify_members kvs @ 125 # r)
       = Some (acc @ map (\<lambda>(k, v). (k, json_norm v)) kvs, r)"
proof (induction v and vs and kvs arbitrary: f r and f r and f r acc
    rule: stringify_stringify_elements_stringify_members.induct)
  case 1
  then show ?case by (cases f) (simp_all add: literal_rest_def)
next
  case (2 b)
  then show ?case by (cases f) (auto simp: literal_rest_def)
next
  case (3 x)
  then show ?case by (simp add: parse_number_norm del: stringify.simps)
next
  case (4 s)
  then show ?case by (simp add: parse_quote_value)
next
  case (5 vs)
  then obtain f' where f: "f = Suc f'" by (cases f) auto
  show ?case
  proof (cases vs)
    case Nil
    with f show ?thesis by simp
  next
    case (Cons v vs')
    then obtain c cs where c: "stringify v = c # cs" "value_start c"
      using "5.prems" stringify_hd [of v] by auto
    then have "c \<noteq> 93" "skip_ws (c # t) = c # t" for t by (auto simp: skip_ws_start dest: value_startD)
    with Cons c 5 f show ?thesis by simp
  qed
next
  case (6 kvs)
  then obtain f' where f: "f = Suc f'" by (cases f) auto
  have order: "obj_order (map (\<lambda>(k, v). (k, json_norm v)) kvs)"
    using "6.prems" by (simp add: obj_order_def comp_def case_prod_beta)
  show ?case
  proof (cases kvs)
    case Nil
    with f show ?thesis by simp
  next
    case (Cons kv kvs')
    with 6 f order show ?thesis by (cases kv) (simp add: quote_def)
  qed
next
  case 7
  then show ?case by simp
next
  case (8 v vs)
  then obtain f' where f: "f = Suc f'" by (cases f) auto
  have v: "parse_value f' (stringify v @ c # t) = Some (json_norm v, c # t)" if "c \<in> {44, 93}" for c t
    using 8 f that by (intro "8.IH"(1) number_stops_punct) auto
  show ?case
  proof (cases vs)
    case Nil
    with f v show ?thesis by simp
  next
    case Cons
    with 8 f v show ?thesis by simp
  qed
next
  case 9
  then show ?case by simp
next
  case (10 k v kvs)
  then obtain f' where f: "f = Suc f'" by (cases f) auto
  have v: "parse_value f' (stringify v @ c # t) = Some (json_norm v, c # t)" if "c \<in> {44, 125}" for c t
    using 10 f that by (intro "10.IH"(1) number_stops_punct) auto
  have put: "obj_put acc k (json_norm v) = acc @ [(k, json_norm v)]"
    using "10.prems"(3) by (intro obj_put_snoc) auto
  show ?case
  proof (cases kvs)
    case Nil
    with f v put show ?thesis by (simp add: quote_def parse_quote_body del: parse_string.simps)
  next
    case Cons
    with 10 f v put show ?thesis by (simp add: quote_def parse_quote_body del: parse_string.simps)
  qed
qed

section \<open>The text has no unpaired surrogate\<close>

lemma well_formed_small: "\<forall>u\<in>set s. unat u < 128 \<Longrightarrow> well_formed s"
  by (rule well_formed_plain) (simp add: small_unit_plain)

lemma well_formed_Cons_small: "unat c < 128 \<Longrightarrow> well_formed (c # s) = well_formed s"
  by (cases s) (simp_all add: small_unit_plain)

lemma quote_well_formed: "well_formed (quote s)"
  by (simp add: quote_def well_formed_Cons_small well_formed_append quote_body_well_formed small_unit_plain)

lemma digit_unit_small: "d < 10 \<Longrightarrow> unat (digit_unit d) < 128"
  by (simp add: unat_digit_unit)

lemma digits_10_small: "d \<in> set (digits 10 n) \<Longrightarrow> d < 10"
  by (rule digits_less) simp_all

lemma layout_small:
  "\<forall>d\<in>set ds. d < 10 \<Longrightarrow> u \<in> set (layout_decimal ds t) \<Longrightarrow> unat u < 128"
  by (auto simp: layout_decimal_def sign_text_def Let_def digit_unit_small split: if_splits
      dest!: in_set_takeD in_set_dropD digits_10_small)

lemma number_text_small: "u \<in> set (number_to_string (Finite s m e)) \<Longrightarrow> unat u < 128"
  by (auto split: if_splits prod.splits dest!: layout_small [rotated] dest: digits_10_small)

lemma stringify_well_formed:
  "well_formed (stringify v)"
  "well_formed (stringify_elements vs)"
  "well_formed (stringify_members kvs)"
proof (induction v and vs and kvs rule: stringify_stringify_elements_stringify_members.induct)
  case (3 x)
  then show ?case
    by (cases x) (auto simp: small_unit_plain intro!: well_formed_small number_text_small simp del: number_to_string.simps)
qed (auto simp: quote_well_formed well_formed_append well_formed_Cons_small small_unit_plain)

lemma stringify_hd_not_bom: "json_ok v \<Longrightarrow> hd (stringify v) \<noteq> 0xFEFF"
  by (auto simp: value_start_def is_digit_def dest!: stringify_hd)

lemma text_round_trip: "json_ok v \<Longrightarrow> text_decode (text_encode (stringify v)) = stringify v"
  by (simp add: text_decode_encode stringify_well_formed stringify_hd_not_bom)

section \<open>The round trip\<close>

lemma json_parse_stringify:
  assumes "json_ok v"
  shows "json_parse (stringify v) = Some (json_norm v)"
proof -
  have "parse_value (Suc (2 * length (stringify v))) (stringify v) = Some (json_norm v, [])"
    using parse_stringify(1) [OF assms, of "[]" "Suc (2 * length (stringify v))"]
    by (simp add: number_stops_def del: parse_value.simps)
  then show ?thesis by (simp add: json_parse_def skip_ws_def del: parse_value.simps)
qed

end
