(* ===== verification/Crc32.thy ===== *)
theory Crc32
  imports ByteViews
begin

unbundle bit_operations_syntax

text \<open>
  The checksum of \<open>src/common/protocol/ipc-protocol.ts\<close>: the reflected CRC-32 with its
  bitwise loop. The lemmas show that the loop is linear and loses nothing, hence that a change
  confined to four consecutive bytes always changes the checksum.
\<close>

section \<open>The loop\<close>

definition crc_step :: "32 word \<Rightarrow> 32 word" where
  "crc_step crc = drop_bit 1 crc XOR (0xEDB88320 AND - (crc AND 1))"

definition crc_byte :: "32 word \<Rightarrow> byte \<Rightarrow> 32 word" where
  "crc_byte crc b = (crc_step ^^ 8) (crc XOR ucast b)"

definition crc_run :: "32 word \<Rightarrow> byte list \<Rightarrow> 32 word" where
  "crc_run crc data = foldl crc_byte crc data"

definition calculateCRC32 :: "byte list \<Rightarrow> 32 word" where
  "calculateCRC32 data = crc_run 0xFFFFFFFF data XOR 0xFFFFFFFF"

lemma crc_run_simps [simp]:
  "crc_run crc [] = crc" "crc_run crc (b # bs) = crc_run (crc_byte crc b) bs"
  "crc_run crc (xs @ ys) = crc_run (crc_run crc xs) ys"
  by (simp_all add: crc_run_def)

section \<open>Linearity\<close>

lemma and_one_cases: "(x :: 32 word) AND 1 = (if bit x 0 then 1 else 0)"
  by (simp add: and_one_eq odd_iff_mod_2_eq_one bit_0)

lemma crc_step_alt: "crc_step x = drop_bit 1 x XOR (if bit x 0 then 0xEDB88320 else 0)"
  by (simp add: crc_step_def and_one_cases)

lemma crc_step_xor: "crc_step (x XOR y) = crc_step x XOR crc_step y"
  by (auto simp: crc_step_alt bit_xor_iff drop_bit_xor xor.assoc xor.left_commute)

lemma crc_step_0 [simp]: "crc_step 0 = 0"
  by (simp add: crc_step_def)

lemma crc_steps_xor: "(crc_step ^^ n) (x XOR y) = (crc_step ^^ n) x XOR (crc_step ^^ n) y"
  by (induction n) (simp_all add: crc_step_xor)

lemma crc_byte_xor: "crc_byte (x XOR y) (a XOR b) = crc_byte x a XOR crc_byte y b"
  by (simp add: crc_byte_def crc_steps_xor unsigned_xor_eq xor.assoc xor.left_commute)

lemma crc_run_xor:
  "length xs = length ys \<Longrightarrow>
     crc_run (x XOR y) (map2 (XOR) xs ys) = crc_run x xs XOR crc_run y ys"
  by (induction xs ys arbitrary: x y rule: list_induct2) (simp_all add: crc_byte_xor)

section \<open>No step loses information\<close>

text \<open>The top bit of the result is the bit shifted out, because the polynomial's top bit is set.\<close>

lemma crc_step_top: "bit (crc_step x) 31 \<longleftrightarrow> bit x 0"
proof -
  have "\<not> bit x 32" using bit_imp_le_length [of x 32] by auto
  then show ?thesis by (simp add: crc_step_alt bit_xor_iff bit_drop_bit_eq)
qed

lemma drop_bit_1_eq_0:
  fixes x :: "32 word"
  assumes "drop_bit 1 x = 0" and "\<not> bit x 0"
  shows "x = 0"
proof (rule bit_word_eqI)
  fix n
  have "\<not> bit (drop_bit 1 x) m" for m by (simp add: assms(1) del: One_nat_def)
  then have "\<not> bit x (Suc m)" for m by (simp add: bit_drop_bit_eq)
  then show "bit x n \<longleftrightarrow> bit (0 :: 32 word) n" using assms(2) by (cases n) simp_all
qed

lemma crc_step_eq_0: "crc_step x = 0 \<longleftrightarrow> x = 0"
proof
  assume z: "crc_step x = 0"
  have "bit x 0 \<longleftrightarrow> bit (0 :: 32 word) 31" using crc_step_top [of x] z by (simp only:)
  then have low: "\<not> bit x 0" by (simp only: bit_0_eq bot_apply bot_bool_def not_False_eq_True)
  have "crc_step x = drop_bit 1 x"
    by (simp only: crc_step_alt low if_False xor.right_neutral)
  with z have "drop_bit 1 x = 0" by (simp only:)
  then show "x = 0" using low by (rule drop_bit_1_eq_0)
qed simp

lemma crc_steps_eq_0: "(crc_step ^^ n) x = 0 \<longleftrightarrow> x = 0"
  by (induction n) (simp_all add: crc_step_eq_0)

lemma xor_eq_0: "(x :: 'a::len word) XOR y = 0 \<longleftrightarrow> x = y"
  by (metis xor.assoc xor.left_neutral xor.right_neutral xor_self_eq)

lemma xor_cancel: "(x :: 'a::len word) XOR z = y XOR z \<longleftrightarrow> x = y"
  by (metis xor.assoc xor.right_neutral xor_self_eq)

lemma xor_cancel_left: "z XOR (x :: 'a::len word) = z XOR y \<longleftrightarrow> x = y"
  by (metis xor.assoc xor.left_neutral xor_self_eq)

lemma xor_swap: "z XOR (x :: 'a::len word) = y \<longleftrightarrow> x = z XOR y"
  by (metis xor.assoc xor.left_neutral xor_self_eq)

lemma crc_steps_inj: "(crc_step ^^ n) x = (crc_step ^^ n) y \<longleftrightarrow> x = y"
  by (metis crc_steps_eq_0 crc_steps_xor xor_eq_0)

lemma crc_run_inj: "crc_run x bs = crc_run y bs \<longleftrightarrow> x = y"
  by (induction bs arbitrary: x y) (simp_all add: crc_byte_def crc_steps_inj xor_cancel)

section \<open>Up to four bytes at a time\<close>

text \<open>The little-endian word of at most four bytes; running over them is shifting it through.\<close>

fun le_word :: "byte list \<Rightarrow> 32 word" where
  "le_word [] = 0"
| "le_word (b # bs) = ucast b XOR push_bit 8 (le_word bs)"

lemma bit_double32: "bit ((x :: 32 word) * 2) i \<longleftrightarrow> 0 < i \<and> i < 32 \<and> bit x (i - 1)"
  using bit_double_iff [of x i] by (auto simp: mult.commute)

lemma crc_step_double:
  assumes "\<not> bit x 31"
  shows "crc_step (x * 2) = x"
proof (rule bit_word_eqI)
  fix n
  assume "n < LENGTH(32)"
  moreover have "crc_step (x * 2) = drop_bit 1 (x * 2)"
    by (simp add: crc_step_alt bit_double32 del: bit_0)
  ultimately show "bit (crc_step (x * 2)) n \<longleftrightarrow> bit x n"
    using assms by (cases "n = 31") (auto simp: bit_drop_bit_eq bit_double32)
qed

lemma crc_steps_push:
  "(\<And>i. 32 - n \<le> i \<Longrightarrow> \<not> bit x i) \<Longrightarrow> n \<le> 32 \<Longrightarrow> (crc_step ^^ n) (push_bit n x) = x"
proof (induction n arbitrary: x)
  case (Suc n)
  have "push_bit (Suc n) x = push_bit n (x * 2)" by (simp add: mult.commute)
  moreover have "\<not> bit (x * 2) i" if "32 - n \<le> i" for i
    using Suc.prems(1) [of "i - 1"] Suc.prems(2) that by (auto simp: bit_double32)
  ultimately have "(crc_step ^^ n) (push_bit (Suc n) x) = x * 2" using Suc.IH Suc.prems(2) by simp
  moreover have "\<not> bit x 31" using Suc.prems by simp
  ultimately show ?case by (simp add: crc_step_double)
qed simp

lemma le_word_bits: "length bs \<le> 4 \<Longrightarrow> 8 * length bs \<le> i \<Longrightarrow> \<not> bit (le_word bs) i"
proof (induction bs arbitrary: i)
  case (Cons b bs)
  then have "\<not> bit (le_word bs) (i - 8)" "\<not> bit b i"
    using bit_imp_le_length [of b i] by auto
  then show ?case by (simp add: bit_xor_iff bit_push_bit_iff bit_unsigned_iff)
qed simp

lemma crc_run_le_word:
  "length bs \<le> 4 \<Longrightarrow> crc_run x bs = (crc_step ^^ (8 * length bs)) (x XOR le_word bs)"
proof (induction bs arbitrary: x)
  case (Cons b bs)
  have "(crc_step ^^ 8) (push_bit 8 (le_word bs)) = le_word bs"
    using Cons.prems by (intro crc_steps_push le_word_bits) simp_all
  then have "crc_byte x b XOR le_word bs = (crc_step ^^ 8) (x XOR le_word (b # bs))"
    by (simp add: crc_byte_def crc_steps_xor xor.assoc)
  with Cons show ?case by (simp add: funpow_add [of "8 * length bs" 8, folded add.commute [of 8]] xor.assoc)
qed simp

lemma le_word_inj: "length us = length vs \<Longrightarrow> length us \<le> 4 \<Longrightarrow> le_word us = le_word vs \<Longrightarrow> us = vs"
proof (induction us vs rule: list_induct2)
  case (Cons u us v vs)
  have bits: "bit u i \<longleftrightarrow> bit v i" if "i < 8" for i
    using arg_cong [OF Cons.prems(2), of "\<lambda>w. bit w i"] that
    by (simp add: bit_xor_iff bit_push_bit_iff bit_unsigned_iff)
  then have uv: "u = v" by (intro bit_word_eqI) simp
  have "bit (le_word us) i \<longleftrightarrow> bit (le_word vs) i" if "i < 24" for i
    using arg_cong [OF Cons.prems(2), of "\<lambda>w. bit w (i + 8)"] that uv
    by (auto simp: bit_xor_iff bit_push_bit_iff bit_unsigned_iff)
  moreover have "\<not> bit (le_word us) i" "\<not> bit (le_word vs) i" if "24 \<le> i" for i
    using le_word_bits [of us i] le_word_bits [of vs i] Cons that by simp_all
  ultimately have "le_word us = le_word vs" by (intro bit_word_eqI) (metis not_le)
  with Cons uv show ?case by simp
qed simp

text \<open>A change confined to four consecutive bytes changes the result of the run.\<close>

lemma crc_run_burst:
  assumes "length us = length vs" "length us \<le> 4" "us \<noteq> vs"
  shows "crc_run x (p @ us @ s) \<noteq> crc_run x (p @ vs @ s)"
proof -
  have "crc_run y us \<noteq> crc_run y vs" for y
    using assms le_word_inj [of us vs] by (auto simp: crc_run_le_word crc_steps_inj xor_cancel_left)
  then show ?thesis by (simp add: crc_run_inj)
qed

section \<open>The checksum behind the data\<close>

lemma le_word_value: "le_word bs = of_nat (le_value bs)"
proof (induction bs)
  case (Cons b bs)
  have "ucast b AND push_bit 8 (le_word bs) = 0"
    by (rule bit_word_eqI)
       (auto simp: bit_and_iff bit_push_bit_iff bit_unsigned_iff dest: bit_imp_le_length)
  then have "le_word (b # bs) = ucast b + push_bit 8 (le_word bs)"
    by (simp only: le_word.simps disjunctive_add_eq_xor)
  then show ?case using Cons by (simp add: push_bit_eq_mult)
qed simp

lemma le_word_le_bytes: "le_word (le_bytes 4 (unat c)) = c"
  by (simp add: le_word_value uint_field)

definition crc_residue :: "32 word" where
  "crc_residue = (crc_step ^^ 32) 0xFFFFFFFF"

text \<open>Running over the data and four more bytes ends in the residue exactly when these are its checksum.\<close>

lemma crc_residue:
  assumes "length cs = 4"
  shows "crc_run 0xFFFFFFFF (data @ cs) = crc_residue \<longleftrightarrow> cs = le_bytes 4 (unat (calculateCRC32 data))"
proof -
  let ?s = "crc_run 0xFFFFFFFF data" and ?c = "calculateCRC32 data"
  have "crc_run 0xFFFFFFFF (data @ cs) = crc_residue \<longleftrightarrow> ?s XOR le_word cs = 0xFFFFFFFF"
    using assms by (simp add: crc_run_le_word crc_residue_def crc_steps_inj)
  also have "\<dots> \<longleftrightarrow> le_word cs = ?c"
    unfolding calculateCRC32_def by (rule xor_swap)
  also have "\<dots> \<longleftrightarrow> cs = le_bytes 4 (unat ?c)"
    using assms le_word_inj [of cs "le_bytes 4 (unat ?c)"] by (auto simp: le_word_le_bytes)
  finally show ?thesis .
qed

end
