(* ===== verification/IpcProtocol.thy ===== *)
theory IpcProtocol
  imports JsonRoundTrip Crc32
begin

text \<open>
  \<open>src/common/protocol/ipc-protocol.ts\<close> without the queue: the message, its types, the
  constructor of messages, and the length-delimited frame with its checksum. A frame is
  \<open>[length: 4][payload][crc: 4]\<close>. The payload interfaces follow in IpcPayloads.
\<close>

section \<open>Messages\<close>

text \<open>The payload is JSON data or absent (\<open>undefined\<close>, which \<open>JSON.stringify\<close> leaves out).\<close>

record IPCMessage =
  msg_version :: jstring
  msg_type :: jstring
  correlationId :: jstring
  msg_timestamp :: js_number
  payload :: "jval option"

datatype IPCMessageType =
    NODE_DISCOVERED | NODE_TELEMETRY | APPLY_NODE_CONFIG | NODE_CONFIG_RESULT
  | PULL_NODE_LOGS | NODE_LOG_CHUNK | TWIN_DESIRED_UPDATE | TWIN_REPORTED_UPDATE
  | PUBLISH_TELEMETRY | CONNECTION_STATUS | HEARTBEAT | ERROR

fun IPCMessageType_value :: "IPCMessageType \<Rightarrow> jstring" where
  "IPCMessageType_value NODE_DISCOVERED = js ''node_discovered''"
| "IPCMessageType_value NODE_TELEMETRY = js ''node_telemetry''"
| "IPCMessageType_value APPLY_NODE_CONFIG = js ''apply_node_config''"
| "IPCMessageType_value NODE_CONFIG_RESULT = js ''node_config_result''"
| "IPCMessageType_value PULL_NODE_LOGS = js ''pull_node_logs''"
| "IPCMessageType_value NODE_LOG_CHUNK = js ''node_log_chunk''"
| "IPCMessageType_value TWIN_DESIRED_UPDATE = js ''twin_desired_update''"
| "IPCMessageType_value TWIN_REPORTED_UPDATE = js ''twin_reported_update''"
| "IPCMessageType_value PUBLISH_TELEMETRY = js ''publish_telemetry''"
| "IPCMessageType_value CONNECTION_STATUS = js ''connection_status''"
| "IPCMessageType_value HEARTBEAT = js ''heartbeat''"
| "IPCMessageType_value ERROR = js ''error''"

lemma IPCMessageType_value_inj: "IPCMessageType_value t = IPCMessageType_value u \<longleftrightarrow> t = u"
  by (cases t; cases u; simp del: js_simps)

text \<open>The object literal of a message, in the order of its properties.\<close>

definition message_members :: "IPCMessage \<Rightarrow> members" where
  "message_members m =
     [(js ''version'', JStr (msg_version m)), (js ''type'', JStr (msg_type m)),
      (js ''correlationId'', JStr (correlationId m)), (js ''timestamp'', JNum (msg_timestamp m))]
     @ (case payload m of None \<Rightarrow> [] | Some p \<Rightarrow> [(js ''payload'', p)])"

definition message_json :: "IPCMessage \<Rightarrow> jval" where
  "message_json m = JObj (message_members m)"

text \<open>The typed view of a decoded value: all properties of the interface at their types.\<close>

fun as_string :: "jval option \<Rightarrow> jstring option" where
  "as_string (Some (JStr s)) = Some s"
| "as_string _ = None"

fun as_number :: "jval option \<Rightarrow> js_number option" where
  "as_number (Some (JNum x)) = Some x"
| "as_number _ = None"

definition message_of_json :: "jval \<Rightarrow> IPCMessage option" where
  "message_of_json j =
     (case j of
        JObj kvs \<Rightarrow>
          (case (as_string (obj_get kvs (js ''version'')), as_string (obj_get kvs (js ''type'')),
                 as_string (obj_get kvs (js ''correlationId'')), as_number (obj_get kvs (js ''timestamp''))) of
             (Some v, Some t, Some c, Some n) \<Rightarrow>
               Some \<lparr> msg_version = v, msg_type = t, correlationId = c, msg_timestamp = n,
                      payload = obj_get kvs (js ''payload'') \<rparr>
           | _ \<Rightarrow> None)
      | _ \<Rightarrow> None)"

section \<open>Creating messages\<close>

text \<open>
  The clock and the random number are inputs: \<open>random36\<close> is \<open>Math.random().toString(36)\<close>, and
  each \<open>Date.now()\<close> is a reading of its own, in the order of evaluation.
\<close>

definition generateCorrelationId :: "js_number \<Rightarrow> jstring \<Rightarrow> jstring" where
  "generateCorrelationId now random36 = number_to_string now @ js ''-'' @ take (9 - 2) (drop 2 random36)"

definition createIPCMessage ::
  "js_number \<Rightarrow> js_number \<Rightarrow> jstring \<Rightarrow> IPCMessageType \<Rightarrow> jval option \<Rightarrow> jstring option \<Rightarrow> IPCMessage" where
  "createIPCMessage now1 now2 random36 type body corrId =
     (case corrId of
        Some c \<Rightarrow>
          if c \<noteq> []
          then \<lparr> msg_version = js ''1.0.0'', msg_type = IPCMessageType_value type, correlationId = c,
                 msg_timestamp = now1, payload = body \<rparr>
          else \<lparr> msg_version = js ''1.0.0'', msg_type = IPCMessageType_value type,
                 correlationId = generateCorrelationId now1 random36, msg_timestamp = now2, payload = body \<rparr>
      | None \<Rightarrow>
          \<lparr> msg_version = js ''1.0.0'', msg_type = IPCMessageType_value type,
            correlationId = generateCorrelationId now1 random36, msg_timestamp = now2, payload = body \<rparr>)"

section \<open>Frames\<close>

text \<open>Integer fields of four bytes, written from and read as exact integers.\<close>

abbreviation "set_length32 \<equiv> set_field (le_bytes 4)"
abbreviation "get_length32 \<equiv> get_field 4 le_value"

definition message_payload :: "IPCMessage \<Rightarrow> byte list" where
  "message_payload m = text_encode (stringify (message_json m))"

definition encodeIPCMessage :: "IPCMessage \<Rightarrow> js_error + uint8_array" where
  "encodeIPCMessage msg =
     (let json = stringify (message_json msg);
          bytes = text_encode json;
          crc = calculateCRC32 bytes
      in bind (set_length32 (replicate (4 + length bytes + 4) 0) 0 (length bytes)) (\<lambda>b.
         bind (put_bytes b 4 bytes) (\<lambda>b.
         bind (set_length32 b (4 + length bytes) (unat crc)) (\<lambda>b.
           Inr (array_of b)))))"

definition decodeIPCMessage :: "uint8_array \<Rightarrow> js_error + jval option" where
  "decodeIPCMessage data =
     (if byte_length data < 8 then Inr None
      else
        (let view = buffer data in
         bind (get_length32 view 0) (\<lambda>len.
           if byte_length data < 4 + len + 4 then Inr None
           else
             (let body = slice data 4 (4 + len) in
              bind (get_length32 view (4 + len)) (\<lambda>expectedCrc.
                (let actualCrc = unat (calculateCRC32 body) in
                 if expectedCrc \<noteq> actualCrc then Inr None
                 else Inr (json_parse (text_decode body))))))))"

interpretation len32: view_field 4 "le_bytes 4" le_value "\<lambda>n. n mod 2 ^ 32"
proof
  fix n :: nat
  show "le_value (le_bytes 4 n) = n mod 2 ^ 32" by (simp add: le_value_bytes)
  then show "le_bytes 4 (n mod 2 ^ 32) = le_bytes 4 n"
    using le_bytes_value [of "le_bytes 4 n"] by simp
qed simp

section \<open>The shape of a frame\<close>

definition frame :: "byte list \<Rightarrow> byte list" where
  "frame p = le_bytes 4 (length p) @ p @ le_bytes 4 (unat (calculateCRC32 p))"

lemma length_frame [simp]: "length (frame p) = length p + 8"
  by (simp add: frame_def)

lemma encode_frame: "encodeIPCMessage m = Inr (array_of (frame (message_payload m)))"
proof -
  define p where "p = message_payload m"
  have 1: "set_length32 (replicate (length p + 8) 0) 0 (length p)
      = Inr (le_bytes 4 (length p) @ replicate (length p + 4) 0)"
    using len32.set_append [of "[]" 0 "replicate (length p + 8) 0" "length p"] by simp
  have 2: "put_bytes (le_bytes 4 (length p) @ replicate (length p + 4) 0) 4 p
      = Inr ((le_bytes 4 (length p) @ p) @ replicate 4 0)"
    using put_bytes_append [of "le_bytes 4 (length p)" 4 p "length p" "replicate (length p + 4) 0"] by simp
  have 3: "set_length32 ((le_bytes 4 (length p) @ p) @ replicate 4 0) (4 + length p) (unat (calculateCRC32 p))
      = Inr (frame p)"
    using len32.set_append [of "le_bytes 4 (length p) @ p" "4 + length p" "replicate 4 0"]
    by (simp add: frame_def)
  have "4 + length p + 4 = length p + 8" by simp
  then show ?thesis
    unfolding encodeIPCMessage_def Let_def message_payload_def [symmetric] p_def [symmetric]
    by (simp only: 1 2 3 bind_simps)
qed

text \<open>Decoding a buffer from its start: it accepts exactly the frames, whatever follows them.\<close>

definition frame_at :: "byte list \<Rightarrow> byte list \<Rightarrow> bool" where
  "frame_at bs p \<longleftrightarrow> (\<exists>t. bs = frame p @ t) \<and> length p < 2 ^ 32"

lemma frame_atD:
  assumes "frame_at bs p"
  shows "le_value (take 4 bs) = length p" "take (length p) (drop 4 bs) = p"
    "take 4 (drop (4 + length p) bs) = le_bytes 4 (unat (calculateCRC32 p))" "length p + 8 \<le> length bs"
  using assms by (auto simp: frame_at_def frame_def le_value_bytes)

lemma le_bytes_eq_iff:
  "length cs = 4 \<Longrightarrow> n < 2 ^ 32 \<Longrightarrow> le_value cs = n \<longleftrightarrow> cs = le_bytes 4 n"
  using le_bytes_value [of cs] by (auto simp: le_value_bytes)

lemma frame_atI:
  assumes "length p + 8 \<le> length bs" "le_value (take 4 bs) = length p" "take (length p) (drop 4 bs) = p"
    "le_value (take 4 (drop (4 + length p) bs)) = unat (calculateCRC32 p)"
  shows "frame_at bs p"
proof -
  have len: "length p < 2 ^ 32"
    using le_value_less [of "take 4 bs"] assms(1,2) by simp
  have "take 4 bs = le_bytes 4 (length p)"
    using assms(1,2) len le_bytes_eq_iff [of "take 4 bs" "length p"] by simp
  moreover have "take 4 (drop (4 + length p) bs) = le_bytes 4 (unat (calculateCRC32 p))"
    using assms(1,4) unsigned_less [of "calculateCRC32 p"]
      le_bytes_eq_iff [of "take 4 (drop (4 + length p) bs)" "unat (calculateCRC32 p)"] by simp
  moreover have "bs = take 4 bs @ take (length p) (drop 4 bs) @ take 4 (drop (4 + length p) bs)
      @ drop (8 + length p) bs"
  proof -
    have "drop (8 + length p) bs = drop 4 (drop (4 + length p) bs)" by (simp add: add.commute)
    moreover have "drop (4 + length p) bs = drop (length p) (drop 4 bs)" by (simp add: add.commute)
    ultimately show ?thesis by (simp only: append_take_drop_id)
  qed
  ultimately have "bs = frame p @ drop (8 + length p) bs" using assms(3) by (simp add: frame_def)
  with len show ?thesis unfolding frame_at_def by blast
qed

lemma frame_at_unique: "frame_at bs p \<Longrightarrow> frame_at bs q \<Longrightarrow> p = q"
  using frame_atD [of bs p] frame_atD [of bs q] by metis

text \<open>
  What the decoder computes on a window of a buffer: the two header fields come from the start
  of the buffer, the payload from the window. No accessor is ever out of bounds.
\<close>

lemma decode_window_cases:
  assumes "array_ok a"
  shows "decodeIPCMessage a =
     (let n = le_value (take 4 (buffer a)); p = take n (drop 4 (bytes_of a)) in
      Inr (if n + 8 \<le> byte_length a \<and>
             le_value (take 4 (drop (4 + n) (buffer a))) = unat (calculateCRC32 p)
           then json_parse (text_decode p) else None))"
proof (cases "byte_length a < 8")
  case False
  then have "4 \<le> length (buffer a)" using assms by (simp add: array_ok_def)
  then have h: "get_length32 (buffer a) 0 = Inr (le_value (take 4 (buffer a)))"
    by (simp add: get_field_def get_bytes_def)
  define n where "n = le_value (take 4 (buffer a))"
  show ?thesis
  proof (cases "byte_length a < 4 + n + 4")
    case True
    with False h show ?thesis by (simp add: decodeIPCMessage_def n_def Let_def)
  next
    case long: False
    then have "4 + n + 4 \<le> length (buffer a)" using assms by (simp add: array_ok_def)
    then have "get_length32 (buffer a) (4 + n) = Inr (le_value (take 4 (drop (4 + n) (buffer a))))"
      by (simp add: get_field_def get_bytes_def)
    with False long h show ?thesis
      by (simp add: decodeIPCMessage_def n_def [symmetric] Let_def slice_def)
  qed
qed (simp add: decodeIPCMessage_def Let_def)

lemma decode_array:
  "decodeIPCMessage (array_of bs) =
     (let p = take (le_value (take 4 bs)) (drop 4 bs) in
      Inr (if frame_at bs p then json_parse (text_decode p) else None))"
proof -
  define n p where "n = le_value (take 4 bs)" and "p = take n (drop 4 bs)"
  have "n + 8 \<le> length bs \<and> le_value (take 4 (drop (4 + n) bs)) = unat (calculateCRC32 p) \<longleftrightarrow> frame_at bs p"
  proof
    assume "n + 8 \<le> length bs \<and> le_value (take 4 (drop (4 + n) bs)) = unat (calculateCRC32 p)"
    moreover from this have "length p = n" by (auto simp: p_def min_def)
    ultimately show "frame_at bs p" by (intro frame_atI) (simp_all add: n_def [symmetric] p_def)
  next
    assume "frame_at bs p"
    from frame_atD [OF this] have "length p = n" "n + 8 \<le> length bs"
      "take 4 (drop (4 + n) bs) = le_bytes 4 (unat (calculateCRC32 p))"
      by (simp_all add: n_def)
    then show "n + 8 \<le> length bs \<and> le_value (take 4 (drop (4 + n) bs)) = unat (calculateCRC32 p)"
      by (simp add: uint_field)
  qed
  then show ?thesis
    by (simp add: decode_window_cases Let_def n_def [symmetric] p_def [symmetric])
qed

lemma decode_frame_at: "frame_at bs p \<Longrightarrow> decodeIPCMessage (array_of bs) = Inr (json_parse (text_decode p))"
  using frame_atD [of bs p] by (simp add: decode_array)

lemma decode_no_frame: "(\<And>p. \<not> frame_at bs p) \<Longrightarrow> decodeIPCMessage (array_of bs) = Inr None"
  by (simp add: decode_array Let_def)

section \<open>Messages that survive the wire\<close>

definition message_ok :: "IPCMessage \<Rightarrow> bool" where
  "message_ok m \<longleftrightarrow> is_binary64 (msg_timestamp m) \<and> pred_option json_ok (payload m)"

definition message_plain :: "IPCMessage \<Rightarrow> bool" where
  "message_plain m \<longleftrightarrow> printable_number (msg_timestamp m) \<and> pred_option json_plain (payload m)"

lemma message_keys_order:
  "obj_order [(js ''version'', a), (js ''type'', b), (js ''correlationId'', c), (js ''timestamp'', d)]"
  "obj_order [(js ''version'', a), (js ''type'', b), (js ''correlationId'', c), (js ''timestamp'', d),
     (js ''payload'', e)]"
  by (simp_all add: obj_order_def key_before_def index_key_def is_digit_def)

lemma message_json_ok: "message_ok m \<Longrightarrow> json_ok (message_json m)"
  by (auto simp: message_ok_def message_json_def message_members_def message_keys_order
      simp del: js_simps split: option.splits)

lemma message_json_plain: "message_plain m \<Longrightarrow> json_plain (message_json m)"
  by (auto simp: message_plain_def message_json_def message_members_def message_keys_order
      simp del: js_simps split: option.splits)

lemma message_of_json_json: "message_of_json (message_json m) = Some m"
  by (cases m) (auto simp: message_of_json_def message_json_def message_members_def obj_get_def
      split: option.splits)

lemma payload_text: "json_ok (message_json m) \<Longrightarrow>
    json_parse (text_decode (message_payload m)) = Some (json_norm (message_json m))"
  by (simp add: message_payload_def text_round_trip json_parse_stringify)

lemma frame_at_frame: "length p < 2 ^ 32 \<Longrightarrow> frame_at (frame p @ t) p"
  by (auto simp: frame_at_def)

text \<open>Everything behind the length field runs to the residue of the checksum.\<close>

lemma frame_residue: "crc_run 0xFFFFFFFF (drop 4 (frame p)) = crc_residue"
  using crc_residue [of "le_bytes 4 (unat (calculateCRC32 p))" p] by (simp add: frame_def)

lemma frame_at_residue:
  "frame_at bs p \<Longrightarrow> crc_run 0xFFFFFFFF (take (length p + 4) (drop 4 bs)) = crc_residue"
  using frame_residue [of p] by (auto simp: frame_at_def frame_def)

lemma short_no_frame:
  assumes "length p < 2 ^ 32" and "n < length (frame p)"
  shows "\<not> frame_at (take n (frame p)) q"
proof
  assume f: "frame_at (take n (frame p)) q"
  from frame_atD(4) [OF f] have n: "8 \<le> n" "length q + 8 \<le> n" using assms(2) by auto
  have "take 4 (take n (frame p)) = le_bytes 4 (length p)" using n(1) by (simp add: frame_def min_def)
  with frame_atD(1) [OF f] assms(1) have "length q = length p" by (simp add: le_value_bytes)
  with n assms(2) show False by simp
qed

lemma burst_no_frame:
  assumes p: "frame p = h @ us @ s" "length p < 2 ^ 32"
    and h: "4 \<le> length h" and burst: "length us = length vs" "length us \<le> 4" "us \<noteq> vs"
  shows "\<not> frame_at (h @ vs @ s @ t) q"
proof
  assume f: "frame_at (h @ vs @ s @ t) q"
  have h4: "take 4 h = le_bytes 4 (length p)"
    using arg_cong [OF p(1), of "take 4"] h by (simp add: frame_def)
  with frame_atD(1) [OF f] h p(2) have q: "length q = length p" by (simp add: le_value_bytes)
  have "length (h @ vs @ s) = length p + 8"
    using arg_cong [OF p(1), of length] burst(1) by simp
  then have "take (length q + 4) (drop 4 (h @ vs @ s @ t)) = drop 4 h @ vs @ s"
    using h q by simp
  with frame_at_residue [OF f] have "crc_run 0xFFFFFFFF (drop 4 h @ vs @ s) = crc_residue"
    by (simp only:)
  moreover have "crc_run 0xFFFFFFFF (drop 4 h @ us @ s) = crc_residue"
    using frame_residue [of p] h unfolding p(1) by simp
  ultimately show False using crc_run_burst [OF burst, of _ "drop 4 h" s] by metis
qed

section \<open>A sample message\<close>

definition sample_message :: IPCMessage where
  "sample_message = \<lparr> msg_version = js ''1.0.0'', msg_type = js ''heartbeat'', correlationId = js ''id-1'',
     msg_timestamp = Finite False 5 0, payload = Some (JObj [(js ''queued'', JNull)]) \<rparr>"

lemma text_of_five: "number_to_string (Finite False 5 0) = js ''5''"
proof -
  have r: "round64 False 5 (Suc 0) = Finite False 5 0"
    using round64_nat [of 5] by (simp add: num_of_int_def)
  have "shortest_from (Suc 16) 1 False 5 0 = (5, 0)"
    by (subst shortest_from.simps) (simp add: nearest_two_def decimal_magnitude_def numerator_def denominator_def
        trim_zero_def digits.simps [of 10 5] round_dec_def r)
  then have "shortest_decimal False 5 0 = (5, 0)" by (simp add: shortest_decimal_def)
  then show ?thesis by (simp add: layout_decimal_def digits.simps [of 10 5] digit_unit_def)
qed

lemma sample_plain: "message_plain sample_message"
  using bit_len_le [of 5 3] by (simp add: message_plain_def sample_message_def representable_def obj_order_def)

lemma sample_length: "length (message_payload sample_message) < 200"
  by (simp add: message_payload_def sample_message_def message_json_def message_members_def
      text_of_five quote_def escape_unit_def is_high_def is_low_def del: number_to_string.simps)
     (simp add: text_encode_def is_high_def is_low_def utf8_bytes_def)

lemma sample_short: "length (message_payload sample_message) < 2 ^ 32"
  using sample_length by simp

lemma encode_sample: "encodeIPCMessage sample_message = Inr (array_of (frame (message_payload sample_message)))"
  by (rule encode_frame)

section \<open>Properties\<close>

text \<open>
  C1: Encoding never fails, and a receiver that decodes the encoded bytes, with anything behind
  them, gets back a value from which every property of the message can be read as it was sent,
  for every message with a finite timestamp and JSON data as payload (no NaN, infinity or minus
  zero in it) whose text is shorter than 4 GiB.
\<close>

theorem ipc_round_trip:
  assumes "message_plain m" and "length (message_payload m) < 2 ^ 32"
  shows "\<exists>a j. encodeIPCMessage m = Inr a \<and>
    decodeIPCMessage (array_of (bytes_of a @ trailing)) = Inr (Some j) \<and> message_of_json j = Some m"
proof -
  have j: "json_plain (message_json m)" using assms(1) by (rule message_json_plain)
  then have "decodeIPCMessage (array_of (frame (message_payload m) @ trailing)) = Inr (Some (message_json m))"
    using decode_frame_at [OF frame_at_frame [OF assms(2)]]
    by (simp add: payload_text json_plain_ok)
  then show ?thesis by (simp add: encode_frame message_of_json_json)
qed

theorem ipc_round_trip_witness:
  "\<exists>a j. encodeIPCMessage sample_message = Inr a \<and>
    decodeIPCMessage (array_of (bytes_of a @ [1, 2, 3])) = Inr (Some j) \<and>
    message_of_json j = Some sample_message"
  by (rule ipc_round_trip [OF sample_plain sample_short])

text \<open>
  For a message with arbitrary JSON-like payload the decoder returns what
  \<open>JSON.parse(JSON.stringify(m))\<close> keeps of it: the same value with NaN and the infinities
  replaced by null and minus zero by zero.
\<close>

theorem ipc_round_trip_lossy:
  assumes "message_ok m" and "length (message_payload m) < 2 ^ 32"
  shows "\<exists>a. encodeIPCMessage m = Inr a \<and>
    decodeIPCMessage a = Inr (Some (json_norm (message_json m)))"
proof -
  have "json_ok (message_json m)" using assms(1) by (rule message_json_ok)
  then show ?thesis
    using decode_frame_at [OF frame_at_frame [OF assms(2), of "[]"]]
    by (simp add: encode_frame payload_text)
qed

theorem ipc_round_trip_lossy_witness:
  "\<exists>a. encodeIPCMessage sample_message = Inr a \<and>
    decodeIPCMessage a = Inr (Some (json_norm (message_json sample_message)))"
  by (rule ipc_round_trip_lossy [OF _ sample_short])
     (use bit_len_le [of 5 3] in \<open>simp add: message_ok_def sample_message_def representable_def obj_order_def\<close>)

text \<open>
  C11: On a buffer read from its start, the decoder returns a value exactly for the buffers that
  begin with a complete frame (length, payload, checksum of the payload) whose payload is the
  UTF-8 text of JSON, and it returns the value of that text.
\<close>

theorem decode_accepts_frames:
  "decodeIPCMessage (array_of bs) = Inr (Some j) \<longleftrightarrow>
     (\<exists>p t. length p < 2 ^ 32 \<and> json_parse (text_decode p) = Some j \<and>
        bs = le_bytes 4 (length p) @ p @ le_bytes 4 (unat (calculateCRC32 p)) @ t)"
proof
  assume d: "decodeIPCMessage (array_of bs) = Inr (Some j)"
  define p where "p = take (le_value (take 4 bs)) (drop 4 bs)"
  from d have "frame_at bs p" "json_parse (text_decode p) = Some j"
    by (simp_all add: decode_array Let_def p_def [symmetric] split: if_splits)
  then show "\<exists>p t. length p < 2 ^ 32 \<and> json_parse (text_decode p) = Some j \<and>
        bs = le_bytes 4 (length p) @ p @ le_bytes 4 (unat (calculateCRC32 p)) @ t"
    by (auto simp: frame_at_def frame_def)
next
  assume "\<exists>p t. length p < 2 ^ 32 \<and> json_parse (text_decode p) = Some j \<and>
        bs = le_bytes 4 (length p) @ p @ le_bytes 4 (unat (calculateCRC32 p)) @ t"
  then obtain p where "frame_at bs p" "json_parse (text_decode p) = Some j"
    by (auto simp: frame_at_def frame_def)
  then show "decodeIPCMessage (array_of bs) = Inr (Some j)" by (simp add: decode_frame_at)
qed

text \<open>A frame of which any number of bytes at the end is missing decodes to null.\<close>

theorem truncated_frame_rejected:
  assumes "encodeIPCMessage m = Inr a" and "length (message_payload m) < 2 ^ 32"
    and "n < byte_length a"
  shows "decodeIPCMessage (array_of (take n (bytes_of a))) = Inr None"
  using assms short_no_frame [OF assms(2)] by (auto simp: encode_frame intro!: decode_no_frame)

theorem truncated_frame_rejected_witness:
  "decodeIPCMessage (array_of (take 20 (bytes_of (array_of (frame (message_payload sample_message)))))) = Inr None"
proof (rule truncated_frame_rejected [OF encode_sample sample_short])
  show "20 < byte_length (array_of (frame (message_payload sample_message)))"
    by (simp add: message_payload_def sample_message_def message_json_def message_members_def quote_def
        escape_unit_def is_high_def is_low_def text_of_five del: number_to_string.simps)
       (simp add: text_encode_def is_high_def is_low_def utf8_bytes_def)
qed

text \<open>
  C10: A change of a frame that is confined to four consecutive bytes behind the length field,
  in the payload, in the checksum or across their boundary, is always detected: the decoder
  returns null.
\<close>

theorem corrupted_frame_rejected:
  assumes "encodeIPCMessage m = Inr a" and "length (message_payload m) < 2 ^ 32"
    and "bytes_of a = h @ us @ s" and "4 \<le> length h"
    and "length us = length vs" and "length us \<le> 4" and "us \<noteq> vs"
  shows "decodeIPCMessage (array_of (h @ vs @ s)) = Inr None"
  using assms burst_no_frame [of "message_payload m" h us s vs "[]"]
  by (auto simp: encode_frame intro!: decode_no_frame)

lemma map_NOT_neq: "xs \<noteq> [] \<Longrightarrow> xs \<noteq> map NOT (xs :: byte list)"
proof (cases xs)
  case (Cons b bs)
  have "bit (NOT b) 0 \<noteq> bit b 0" by (simp add: bit_not_iff del: bit_0)
  then have "b \<noteq> NOT b" by metis
  with Cons show ?thesis by simp
qed simp

lemma le_bytes_4_nonempty [simp]: "le_bytes 4 n \<noteq> []"
  using length_le_bytes [of 4 n] by (metis list.size(3) zero_neq_numeral)

theorem corrupted_frame_rejected_witness:
  "let p = message_payload sample_message in
   decodeIPCMessage (array_of ((le_bytes 4 (length p) @ p) @ map NOT (le_bytes 4 (unat (calculateCRC32 p))) @ []))
     = Inr None"
  unfolding Let_def
  by (rule corrupted_frame_rejected [OF encode_sample sample_short,
        of _ "le_bytes 4 (unat (calculateCRC32 (message_payload sample_message)))"])
     (simp_all add: frame_def map_NOT_neq)

text \<open>
  C40: Decoding never throws on any window of a buffer. But it takes the length from the start
  of the buffer and not of the window: whenever the length found there does not fit the window
  the result is null, even if the window holds a frame that decodes when it is copied out.
\<close>

theorem decode_window:
  assumes "array_ok a"
  shows "if byte_length a < le_value (take 4 (buffer a)) + 8 then decodeIPCMessage a = Inr None
    else decodeIPCMessage a \<in> range Inr"
  using decode_window_cases [OF assms] by (auto simp: Let_def)

theorem decode_window_witness:
  "\<exists>a. array_ok a \<and> decodeIPCMessage (array_of (bytes_of a)) = Inr (Some (message_json sample_message)) \<and>
       decodeIPCMessage a = Inr None"
proof -
  let ?f = "frame (message_payload sample_message)"
  let ?a = "\<lparr> buffer = [0xFF, 0xFF, 0xFF, 0xFF] @ ?f, byte_offset = 4, byte_length = length ?f \<rparr>"
  have ok: "array_ok ?a" by (simp add: array_ok_def)
  have ones: "le_value [0xFF, 0xFF, 0xFF, 0xFF] = 4294967295" by simp
  have bytes: "bytes_of ?a = ?f" by (simp add: bytes_of_def)
  have "json_plain (message_json sample_message)" by (rule message_json_plain) (rule sample_plain)
  then have "decodeIPCMessage (array_of (bytes_of ?a)) = Inr (Some (message_json sample_message))"
    unfolding bytes using decode_frame_at [OF frame_at_frame [OF sample_short, of "[]"]]
    by (simp add: payload_text json_plain_ok)
  moreover have "byte_length ?a < le_value (take 4 (buffer ?a)) + 8"
    using sample_length by (simp add: ones)
  ultimately show ?thesis using decode_window [OF ok] ok by auto
qed

text \<open>
  A created message carries version 1.0.0, the name of its type, the payload, and a
  correlation identifier that is never empty: the given one, unless it is missing or empty, in
  which case it is the generated one (the clock, a hyphen and up to seven further characters).
\<close>

theorem created_message:
  "let m = createIPCMessage now1 now2 random36 type body corrId in
     msg_version m = js ''1.0.0'' \<and> msg_type m = IPCMessageType_value type \<and> payload m = body \<and>
     msg_timestamp m \<in> {now1, now2} \<and> correlationId m \<noteq> [] \<and>
     correlationId m = (if corrId = None \<or> corrId = Some []
       then number_to_string now1 @ js ''-'' @ take 7 (drop 2 random36) else the corrId)"
  by (auto simp: createIPCMessage_def generateCorrelationId_def Let_def split: option.split)

end
