(* ===== verification/IpcQueue.thy ===== *)
theory IpcQueue
  imports IpcProtocol
begin

text \<open>
  The message queue of \<open>src/common/protocol/ipc-protocol.ts\<close>: its operations, the states it can
  reach, its first-in first-out contract (a locale, interpreted on the queue), and the bounded
  queue of messages it refines.
\<close>

section \<open>The class\<close>

record queue_item =
  message :: IPCMessage
  retries :: nat

type_synonym IPCMessageQueue = "queue_item list"

definition maxRetries :: nat where "maxRetries = 3"
definition maxQueueSize :: nat where "maxQueueSize = 100"

definition new_queue :: IPCMessageQueue where
  "new_queue = []"

definition enqueue :: "IPCMessage \<Rightarrow> IPCMessageQueue \<Rightarrow> bool \<times> IPCMessageQueue" where
  "enqueue m q =
     (if maxQueueSize \<le> length q then (False, q) else (True, q @ [\<lparr> message = m, retries = 0 \<rparr>]))"

definition dequeue :: "IPCMessageQueue \<Rightarrow> IPCMessage option \<times> IPCMessageQueue" where
  "dequeue q = (case q of [] \<Rightarrow> (None, []) | item # q' \<Rightarrow> (Some (message item), q'))"

text \<open>\<open>findIndex\<close>: the position of the first element that satisfies the test.\<close>

fun find_index :: "('a \<Rightarrow> bool) \<Rightarrow> 'a list \<Rightarrow> nat option" where
  "find_index P [] = None"
| "find_index P (x # xs) = (if P x then Some 0 else map_option Suc (find_index P xs))"

definition requeue :: "jstring \<Rightarrow> IPCMessageQueue \<Rightarrow> bool \<times> IPCMessageQueue" where
  "requeue corrId q =
     (case find_index (\<lambda>item. correlationId (message item) = corrId) q of
        None \<Rightarrow> (False, q)
      | Some i \<Rightarrow>
          (let n = retries (q ! i) + 1;
               q' = q[i := (q ! i) \<lparr> retries := n \<rparr>]
           in if maxRetries \<le> n then (False, take i q' @ drop (i + 1) q') else (True, q')))"

definition queue_size :: "IPCMessageQueue \<Rightarrow> nat" where
  "queue_size q = length q"

definition clear :: "IPCMessageQueue \<Rightarrow> IPCMessageQueue" where
  "clear q = []"

section \<open>findIndex\<close>

lemma find_index_None: "find_index P xs = None \<longleftrightarrow> (\<forall>x\<in>set xs. \<not> P x)"
  by (induction xs) auto

lemma find_index_split:
  "find_index P xs = Some i \<Longrightarrow>
     \<exists>ys x zs. xs = ys @ x # zs \<and> length ys = i \<and> P x \<and> (\<forall>y\<in>set ys. \<not> P y)"
proof (induction xs arbitrary: i)
  case (Cons a xs)
  show ?case
  proof (cases "P a")
    case True
    with Cons.prems show ?thesis by (intro exI [of _ "[]"]) auto
  next
    case False
    with Cons.prems obtain j where j: "find_index P xs = Some j" "i = Suc j" by auto
    then obtain ys x zs where "xs = ys @ x # zs" "length ys = j" "P x" "\<forall>y\<in>set ys. \<not> P y"
      using Cons.IH by blast
    with False j show ?thesis by (intro exI [of _ "a # ys"]) auto
  qed
qed simp

lemma find_index_append:
  "\<forall>y\<in>set ys. \<not> P y \<Longrightarrow> P x \<Longrightarrow> find_index P (ys @ x # zs) = Some (length ys)"
  by (induction ys) auto

text \<open>What \<open>requeue\<close> does to the first item with the identifier.\<close>

lemma requeue_absent:
  "\<forall>item\<in>set q. correlationId (message item) \<noteq> c \<Longrightarrow> requeue c q = (False, q)"
  by (simp add: requeue_def find_index_None [THEN iffD2] split: option.split)

lemma requeue_found:
  assumes "\<forall>item\<in>set q1. correlationId (message item) \<noteq> c" and "correlationId (message x) = c"
  shows "requeue c (q1 @ x # q2) =
    (if retries x < 2 then (True, q1 @ x \<lparr> retries := retries x + 1 \<rparr> # q2) else (False, q1 @ q2))"
  using assms by (auto simp: requeue_def find_index_append maxRetries_def Let_def)

lemma requeue_cases:
  obtains (absent) "\<forall>item\<in>set q. correlationId (message item) \<noteq> c"
  | (found) q1 x q2 where "q = q1 @ x # q2" "\<forall>item\<in>set q1. correlationId (message item) \<noteq> c"
      "correlationId (message x) = c"
proof (cases "find_index (\<lambda>item. correlationId (message item) = c) q")
  case None
  then show thesis using absent by (simp add: find_index_None)
next
  case (Some i)
  then show thesis using found find_index_split [OF Some] by metis
qed

section \<open>Reachable states\<close>

inductive queue_step :: "IPCMessageQueue \<Rightarrow> IPCMessageQueue \<Rightarrow> bool" where
  step_enqueue: "queue_step q (snd (enqueue m q))"
| step_dequeue: "queue_step q (snd (dequeue q))"
| step_requeue: "queue_step q (snd (requeue c q))"
| step_clear: "queue_step q (clear q)"

inductive reachable :: "IPCMessageQueue \<Rightarrow> bool" where
  reach_new: "reachable new_queue"
| reach_step: "reachable q \<Longrightarrow> queue_step q q' \<Longrightarrow> reachable q'"

inductive_cases queue_stepE: "queue_step q q'"

definition queue_ok :: "IPCMessageQueue \<Rightarrow> bool" where
  "queue_ok q \<longleftrightarrow> length q \<le> maxQueueSize \<and> (\<forall>item\<in>set q. retries item < maxRetries)"

lemma requeue_ok: "queue_ok q \<Longrightarrow> queue_ok (snd (requeue c q))"
  by (cases q c rule: requeue_cases)
     (auto simp: requeue_absent requeue_found queue_ok_def maxRetries_def)

lemma queue_step_ok: "queue_step q q' \<Longrightarrow> queue_ok q \<Longrightarrow> queue_ok q'"
proof (induction rule: queue_step.induct)
  case (step_requeue q c)
  then show ?case by (rule requeue_ok)
qed (auto simp: queue_ok_def enqueue_def dequeue_def clear_def maxRetries_def split: list.splits)

lemma reachable_ok: "reachable q \<Longrightarrow> queue_ok q"
proof (induction rule: reachable.induct)
  case (reach_step q q')
  then show ?case by (simp add: queue_step_ok)
qed (simp add: queue_ok_def new_queue_def)

section \<open>The contract of a queue\<close>

text \<open>
  What a client of a bounded queue relies on: the messages it holds, as a list; putting adds at
  the end unless the queue is full, taking removes the first.
\<close>

locale bounded_queue =
  fixes put :: "'m \<Rightarrow> 'q \<Rightarrow> bool \<times> 'q"
    and get :: "'q \<Rightarrow> 'm option \<times> 'q"
    and held :: "'q \<Rightarrow> 'm list"
    and capacity :: nat
  assumes put_room: "length (held q) < capacity \<Longrightarrow> fst (put m q) \<and> held (snd (put m q)) = held q @ [m]"
    and put_full: "capacity \<le> length (held q) \<Longrightarrow> put m q = (False, q)"
    and get_empty: "held q = [] \<Longrightarrow> fst (get q) = None \<and> held (snd (get q)) = []"
    and get_first: "held q = m # ms \<Longrightarrow> fst (get q) = Some m \<and> held (snd (get q)) = ms"
begin

lemma put_fst: "fst (put m q) \<longleftrightarrow> length (held q) < capacity"
  using put_room [of q m] put_full [of q m] by (cases "length (held q) < capacity") auto

lemma held_put_all:
  "held (fold (\<lambda>m q. snd (put m q)) ms q) = held q @ take (capacity - length (held q)) ms"
proof (induction ms arbitrary: q)
  case (Cons m ms)
  show ?case
  proof (cases "length (held q) < capacity")
    case True
    then have "held (snd (put m q)) = held q @ [m]" by (simp add: put_room)
    moreover obtain k where "capacity - length (held q) = Suc k" using True by (metis Suc_diff_Suc)
    moreover from this have "capacity - Suc (length (held q)) = k" by simp
    ultimately show ?thesis using Cons [of "snd (put m q)"] by simp
  next
    case False
    then show ?thesis using Cons [of q] by (simp add: put_full)
  qed
qed simp

lemma held_gets: "held (((snd \<circ> get) ^^ i) q) = drop i (held q)"
proof (induction i)
  case (Suc i)
  define r where "r = ((snd \<circ> get) ^^ i) q"
  have r: "held r = drop i (held q)" using Suc by (simp only: r_def)
  have next_q: "((snd \<circ> get) ^^ Suc i) q = snd (get r)" by (simp add: r_def)
  show ?case
  proof (cases "held r")
    case Nil
    then show ?thesis unfolding next_q using r get_empty [OF Nil] by simp
  next
    case (Cons m ms)
    then have "drop (Suc i) (held q) = ms" using r by (simp add: drop_Suc flip: tl_drop)
    then show ?thesis unfolding next_q using get_first [OF Cons] by simp
  qed
qed simp

lemma nth_get: "fst (get (((snd \<circ> get) ^^ i) q)) = (if i < length (held q) then Some (held q ! i) else None)"
proof (cases "i < length (held q)")
  case True
  then have "held (((snd \<circ> get) ^^ i) q) = held q ! i # drop (Suc i) (held q)"
    by (simp add: held_gets Cons_nth_drop_Suc)
  with True show ?thesis by (simp add: get_first)
next
  case False
  then have "held (((snd \<circ> get) ^^ i) q) = []" by (simp add: held_gets)
  with False show ?thesis by (simp add: get_empty)
qed

end

interpretation ipc: bounded_queue enqueue dequeue "map message" maxQueueSize
  by unfold_locales (auto simp: enqueue_def dequeue_def split: list.split)

section \<open>Properties\<close>

text \<open>
  C8: In every state the queue can reach through any sequence of its operations it holds at
  most 100 messages, and no held message has been re-queued three times.
\<close>

theorem queue_invariant:
  assumes "reachable q"
  shows "queue_size q \<le> 100 \<and> list_all (\<lambda>item. retries item < 3) q"
  using reachable_ok [OF assms]
  by (simp add: queue_ok_def queue_size_def maxQueueSize_def maxRetries_def list_all_iff)

theorem queue_invariant_witness:
  "queue_size (snd (requeue (js ''id-1'') (snd (enqueue sample_message new_queue)))) \<le> 100 \<and>
   list_all (\<lambda>item. retries item < 3) (snd (requeue (js ''id-1'') (snd (enqueue sample_message new_queue))))"
  by (rule queue_invariant)
     (rule reach_step [OF reach_step [OF reach_new step_enqueue] step_requeue])

text \<open>
  C29: The queue delivers in order and drops only what does not fit: after enqueueing any list of
  messages into a new queue, the i-th dequeue returns the i-th message of the first 100, and
  null when these are used up.
\<close>

theorem queue_fifo:
  "fst (dequeue (((snd \<circ> dequeue) ^^ i) (fold (\<lambda>m q. snd (enqueue m q)) ms new_queue))) =
     (if i < min 100 (length ms) then Some (ms ! i) else None)"
  unfolding ipc.nth_get ipc.held_put_all by (simp add: new_queue_def maxQueueSize_def)

text \<open>
  The retry budget: a message put into a queue with room, under an identifier not yet in
  use, survives two requests to re-queue it, each answered with true; the third is answered with
  false, removes it and leaves the rest of the queue as it was.
\<close>

theorem requeue_budget:
  assumes "\<forall>item\<in>set q. correlationId (message item) \<noteq> correlationId m" and "length q < 100"
  shows "let c = correlationId m; q1 = snd (enqueue m q); q2 = snd (requeue c q1);
      q3 = snd (requeue c q2) in
    fst (enqueue m q) \<and> fst (requeue c q1) \<and> fst (requeue c q2) \<and>
    map message q3 = map message q @ [m] \<and> requeue c q3 = (False, q)"
  using assms by (simp add: enqueue_def maxQueueSize_def requeue_found [of q _ _ "[]", simplified] Let_def)

theorem requeue_budget_witness:
  "let q1 = snd (enqueue sample_message []); q2 = snd (requeue (correlationId sample_message) q1);
       q3 = snd (requeue (correlationId sample_message) q2) in
    fst (enqueue sample_message []) \<and> fst (requeue (correlationId sample_message) q1) \<and>
    fst (requeue (correlationId sample_message) q2) \<and> map message q3 = [sample_message] \<and>
    requeue (correlationId sample_message) q3 = (False, [])"
  using requeue_budget [of "[]" sample_message] by (simp add: Let_def)

text \<open>
  C36: Re-queueing does not bring a delivered message back: in a queue whose identifiers are
  distinct, once a message is dequeued, \<open>requeue\<close> with its identifier answers false and changes
  nothing, and no later dequeue delivers it.
\<close>

theorem requeue_after_dequeue:
  assumes "distinct (map (correlationId \<circ> message) q)" and "dequeue q = (Some m, q')"
  shows "requeue (correlationId m) q' = (False, q') \<and>
    fst (dequeue (((snd \<circ> dequeue) ^^ i) q')) \<noteq> Some m"
proof -
  from assms(2) obtain x where q: "q = x # q'" "message x = m"
    by (auto simp: dequeue_def split: list.splits)
  with assms(1) have fresh: "\<forall>item\<in>set q'. correlationId (message item) \<noteq> correlationId m" by (fastforce simp: image_iff)
  then have "m \<notin> set (map message q')" by auto
  then have "fst (dequeue (((snd \<circ> dequeue) ^^ i) q')) \<noteq> Some m"
    unfolding ipc.nth_get by (auto simp del: set_map simp: in_set_conv_nth)
  with fresh show ?thesis by (simp add: requeue_absent)
qed

theorem requeue_after_dequeue_witness:
  "dequeue (snd (enqueue sample_message new_queue)) = (Some sample_message, []) \<and>
   requeue (correlationId sample_message) [] = (False, [])"
proof -
  have d: "dequeue (snd (enqueue sample_message new_queue)) = (Some sample_message, [])"
    by (simp add: enqueue_def dequeue_def new_queue_def maxQueueSize_def)
  have "distinct (map (correlationId \<circ> message) (snd (enqueue sample_message new_queue)))"
    by (simp add: enqueue_def new_queue_def maxQueueSize_def)
  from requeue_after_dequeue [OF this d] d show ?thesis by simp
qed

text \<open>
  Re-queueing an identifier touches no message with another one: their items, their retry
  counts and their order stay the same, and at most one message leaves the queue.
\<close>

theorem requeue_frame:
  "filter (\<lambda>item. correlationId (message item) \<noteq> c) (snd (requeue c q))
     = filter (\<lambda>item. correlationId (message item) \<noteq> c) q \<and>
   queue_size q - queue_size (snd (requeue c q)) \<le> 1"
  by (cases q c rule: requeue_cases) (simp_all add: requeue_absent requeue_found queue_size_def)

end
