(* ===== verification/JSValue.thy ===== *)
theory JSValue
  imports JsonRoundTrip
begin

text \<open>
  The rest of the language that the services use on dynamically typed values: truthiness, the
  \<open>||\<close> operator, object spread, array spread, object literals, and the date arithmetic of \<open>Date\<close> on time values
  (milliseconds since the epoch).
\<close>

section \<open>Truthiness\<close>

fun truthy :: "jval \<Rightarrow> bool" where
  "truthy JNull = False"
| "truthy (JBool b) = b"
| "truthy (JNum x) = (case x of NaN \<Rightarrow> False | Finite s m e \<Rightarrow> m \<noteq> 0 | Infinity s \<Rightarrow> True)"
| "truthy (JStr s) = (s \<noteq> [])"
| "truthy (JArr vs) = True"
| "truthy (JObj kvs) = True"

text \<open>A property that may be missing (\<open>undefined\<close>) is falsy then.\<close>

definition truthy_opt :: "jval option \<Rightarrow> bool" where
  "truthy_opt v = (case v of None \<Rightarrow> False | Some x \<Rightarrow> truthy x)"

definition truthy_text :: "jstring option \<Rightarrow> bool" where
  "truthy_text s \<longleftrightarrow> s \<noteq> None \<and> s \<noteq> Some []"

definition or_else :: "jval option \<Rightarrow> jval \<Rightarrow> jval" where
  "or_else v d = (if truthy_opt v then the v else d)"

section \<open>Spreads\<close>

text \<open>The elements that \<open>[...s]\<close> takes from a string: code points, a lone surrogate as it is.\<close>

fun string_elements :: "jstring \<Rightarrow> jstring list" where
  "string_elements [] = []"
| "string_elements [u] = [[u]]"
| "string_elements (u # v # us) =
     (if is_high u \<and> is_low v then [u, v] # string_elements us else [u] # string_elements (v # us))"

definition spread_array :: "jval \<Rightarrow> js_error + jval list" where
  "spread_array v =
     (case v of
        JArr vs \<Rightarrow> Inr vs
      | JStr s \<Rightarrow> Inr (map JStr (string_elements s))
      | _ \<Rightarrow> Inl (TypeError (js ''Spread syntax requires ...iterable[Symbol.iterator] to be a function'')))"

text \<open>\<open>{ ...obj, k: v }\<close>, where \<open>obj\<close> may be \<open>undefined\<close>.\<close>

definition spread_object :: "members option \<Rightarrow> members" where
  "spread_object obj = (case obj of None \<Rightarrow> [] | Some kvs \<Rightarrow> kvs)"

section \<open>Object literals\<close>

text \<open>Of an object literal only the properties that are not \<open>undefined\<close> are ever observed.\<close>

fun defined_members :: "(string \<times> jval option) list \<Rightarrow> members" where
  "defined_members [] = []"
| "defined_members ((k, v) # fs) =
     (case v of None \<Rightarrow> defined_members fs | Some x \<Rightarrow> (js k, x) # defined_members fs)"

definition object_literal :: "(string \<times> jval option) list \<Rightarrow> jval" where
  "object_literal fs = JObj (defined_members fs)"

definition property :: "jval \<Rightarrow> string \<Rightarrow> jval option" where
  "property j k = (case j of JObj kvs \<Rightarrow> obj_get kvs (js k) | _ \<Rightarrow> None)"

lemma inj_js: "inj js"
  by (rule injI) (simp del: js_simps)

lemma defined_keys: "set (map fst (defined_members fs)) \<subseteq> js ` set (map fst fs)"
  by (induction fs rule: defined_members.induct) (auto split: option.splits)

lemma get_defined:
  "distinct (map fst fs) \<Longrightarrow> obj_get (defined_members fs) (js k) = Option.bind (map_of fs k) id"
proof (induction fs rule: defined_members.induct)
  case (2 k' v fs)
  then have "map_of fs k' = None" by (simp add: map_of_eq_None_iff)
  with 2 show ?case by (cases v) (auto simp: obj_get_def simp del: js_simps)
qed (simp add: obj_get_def)

lemma property_literal [simp]:
  "distinct (map fst fs) \<Longrightarrow> property (object_literal fs) k = Option.bind (map_of fs k) id"
  by (simp add: property_def object_literal_def get_defined)

text \<open>A key that is no array index, as every key of the interfaces is.\<close>

definition name_key :: "string \<Rightarrow> bool" where
  "name_key k \<longleftrightarrow> k \<noteq> [] \<and> \<not> is_digit (of_nat (of_char (hd k)))"

lemma name_key_no_index: "name_key k \<Longrightarrow> index_key (js k) = None"
  by (cases k) (auto simp: name_key_def index_key_def)

lemma literal_order:
  assumes "distinct (map fst fs)" and "list_all name_key (map fst fs)"
  shows "obj_order (defined_members fs)"
proof -
  have "distinct (map fst (defined_members fs))"
    using assms(1)
  proof (induction fs rule: defined_members.induct)
    case (2 k v fs)
    then have "k \<notin> set (map fst fs)" by simp
    then have "js k \<notin> js ` set (map fst fs)" by (simp only: inj_image_mem_iff [OF inj_js] not_False_eq_True)
    then have "js k \<notin> set (map fst (defined_members fs))" using defined_keys by blast
    with 2 show ?case by (simp split: option.split)
  qed simp
  moreover have "key_before k k'" if k': "k' \<in> set (map fst (defined_members fs))" for k k'
  proof -
    obtain n where "k' = js n" "n \<in> set (map fst fs)" using k' defined_keys by blast
    with assms(2) show ?thesis by (simp only: key_before_def list_all_iff name_key_no_index option.case)
  qed
  then have "sorted_wrt key_before (map fst (defined_members fs))"
    by (simp add: sorted_wrt_iff_nth_less)
  ultimately show ?thesis by (simp add: obj_order_def)
qed

lemma defined_all:
  "list_all (pred_option P) (map snd fs) \<Longrightarrow> list_all (\<lambda>(_, v). P v) (defined_members fs)"
  by (induction fs rule: defined_members.induct) (auto split: option.splits)

lemma literal_plain:
  assumes "distinct (map fst fs)" and "list_all name_key (map fst fs)"
    and "list_all (pred_option json_plain) (map snd fs)"
  shows "json_plain (object_literal fs)"
  using literal_order [OF assms(1,2)] defined_all [OF assms(3)] by (simp add: object_literal_def)

lemma literal_ok:
  assumes "distinct (map fst fs)" and "list_all name_key (map fst fs)"
    and "list_all (pred_option json_ok) (map snd fs)"
  shows "json_ok (object_literal fs)"
  using literal_order [OF assms(1,2)] defined_all [OF assms(3)] by (simp add: object_literal_def)

text \<open>A property of a value that went through its text.\<close>

lemma property_norm [simp]: "property (json_norm j) k = map_option json_norm (property j k)"
proof (cases j)
  case (JNum x)
  then show ?thesis by (cases x) (simp_all add: property_def)
next
  case (JObj kvs)
  then show ?thesis by (simp add: property_def obj_get_def map_of_map)
qed (simp_all add: property_def)

lemma strings_plain [simp]: "list_all json_plain (map JStr xs)"
  by (simp add: list_all_iff)

lemma numbers_plain [simp]:
  "pred_option json_plain (map_option JNum x) = pred_option printable_number x"
  "pred_option json_plain (map_option JStr s)"
  by (cases x, simp_all) (cases s, simp_all)

section \<open>Dates\<close>

type_synonym date = int

definition ms_per_day :: int where
  "ms_per_day = 86400000"

text \<open>
  Year, month and day of a day number (days since 1970-01-01, the proleptic Gregorian calendar):
  eras of 400 years from March on.
\<close>

definition civil_of_day :: "int \<Rightarrow> int \<times> int \<times> int" where
  "civil_of_day d =
     (let z = d + 719468;
          era = z div 146097;
          doe = z mod 146097;
          yoe = (doe - doe div 1460 + doe div 36524 - doe div 146096) div 365;
          doy = doe - (365 * yoe + yoe div 4 - yoe div 100);
          mp = (5 * doy + 2) div 153;
          day = doy - (153 * mp + 2) div 5 + 1;
          month = (if mp < 10 then mp + 3 else mp - 9);
          year = yoe + era * 400 + (if month \<le> 2 then 1 else 0)
      in (year, month, day))"

definition pad_num :: "nat \<Rightarrow> int \<Rightarrow> jstring" where
  "pad_num n i = pad_start n 48 (to_string 10 (nat i))"

text \<open>\<open>toISOString\<close>: years outside 0 to 9999 are written with a sign and six digits.\<close>

definition iso_year :: "int \<Rightarrow> jstring" where
  "iso_year y =
     (if 0 \<le> y \<and> y \<le> 9999 then pad_num 4 y
      else (if y < 0 then js ''-'' else js ''+'') @ pad_num 6 \<bar>y\<bar>)"

definition toISOString :: "date \<Rightarrow> jstring" where
  "toISOString t =
     (let (y, m, d) = civil_of_day (t div ms_per_day); r = t mod ms_per_day
      in iso_year y @ js ''-'' @ pad_num 2 m @ js ''-'' @ pad_num 2 d @ js ''T'' @
         pad_num 2 (r div 3600000) @ js '':'' @ pad_num 2 (r div 60000 mod 60) @ js '':'' @
         pad_num 2 (r div 1000 mod 60) @ js ''.'' @ pad_num 3 (r mod 1000) @ js ''Z'')"

text \<open>
  The host's time zone: from a time value to local time and back. Setting the day of the month
  in local time to \<open>getDate() - n\<close> goes back \<open>n\<close> whole days of local time.
\<close>

record time_zone =
  local_time :: "int \<Rightarrow> int"
  utc_time :: "int \<Rightarrow> int"

definition utc :: time_zone where
  "utc = \<lparr> local_time = id, utc_time = id \<rparr>"

definition days_before :: "time_zone \<Rightarrow> date \<Rightarrow> int \<Rightarrow> date" where
  "days_before tz now n = utc_time tz (local_time tz now - n * ms_per_day)"

lemma days_before_utc [simp]: "days_before utc now n = now - n * ms_per_day"
  by (simp add: days_before_def utc_def)

end
