(* ===== verification/IpcPayloads.thy ===== *)
theory IpcPayloads
  imports IpcProtocol JSValue
begin

text \<open>
  The payload interfaces of \<open>src/common/protocol/ipc-protocol.ts\<close>: one record per interface and, as specification
  of its use (the source declares the interfaces only),
  the object literal a sender builds of it (an absent optional property is left out) and the
  typed view a receiver has of the decoded value. The locale \<open>json_codec\<close> is what every pair of
  them promises; the union of all interfaces is selected by the type of the message.
\<close>

section \<open>Typed properties\<close>

fun as_bool :: "jval option \<Rightarrow> bool option" where
  "as_bool (Some (JBool b)) = Some b"
| "as_bool _ = None"

fun as_array :: "jval option \<Rightarrow> jval list option" where
  "as_array (Some (JArr vs)) = Some vs"
| "as_array _ = None"

text \<open>An optional property: absent, or present at its type.\<close>

definition optional :: "(jval option \<Rightarrow> 'a option) \<Rightarrow> jval option \<Rightarrow> 'a option option" where
  "optional read v = (case v of None \<Rightarrow> Some None | Some x \<Rightarrow> map_option Some (read (Some x)))"

fun read_all :: "('a \<Rightarrow> 'b option) \<Rightarrow> 'a list \<Rightarrow> 'b list option" where
  "read_all f [] = Some []"
| "read_all f (x # xs) = Option.bind (f x) (\<lambda>y. map_option (Cons y) (read_all f xs))"

lemma optional_simps [simp]:
  "optional as_string (map_option JStr s) = Some s"
  "optional as_number (map_option JNum x) = Some x"
  "optional id v = Some v"
  by (auto simp: optional_def split: option.split)

lemma read_all_map [simp]: "(\<And>x. x \<in> set xs \<Longrightarrow> f (g x) = Some x) \<Longrightarrow> read_all f (map g xs) = Some xs"
  by (induction xs) auto

text \<open>What a payload interface promises: the receiver reads what the sender built.\<close>

locale json_codec =
  fixes to_json :: "'a \<Rightarrow> jval"
    and of_json :: "jval \<Rightarrow> 'a option"
    and plain :: "'a \<Rightarrow> bool"
  assumes of_to [simp]: "of_json (to_json x) = Some x"
    and to_plain [simp]: "plain x \<Longrightarrow> json_plain (to_json x)"
begin

lemma to_json_inj: "to_json x = to_json y \<longleftrightarrow> x = y"
  by (metis of_to option.inject)

lemma optional_of_to [simp]: "optional (\<lambda>v. Option.bind v of_json) (map_option to_json x) = Some x"
  by (cases x) (simp_all add: optional_def)

lemma optional_plain [simp]: "pred_option plain x \<Longrightarrow> pred_option json_plain (map_option to_json x)"
  by (cases x) simp_all

lemma array_plain [simp]: "list_all plain xs \<Longrightarrow> list_all json_plain (map to_json xs)"
  by (auto simp: list_all_iff)

end

text \<open>String literals stay folded from here on.\<close>

declare js_simps [simp del]

section \<open>The interfaces\<close>

record AdvertisementData =
  ad_batteryPercent :: js_number
  ad_lastReading :: js_number
  ad_faultFlags :: js_number
  ad_counter :: js_number

definition AdvertisementData_json :: "AdvertisementData \<Rightarrow> jval" where
  "AdvertisementData_json x = object_literal [
     (''batteryPercent'', Some (JNum (ad_batteryPercent x))),
     (''lastReading'', Some (JNum (ad_lastReading x))),
     (''faultFlags'', Some (JNum (ad_faultFlags x))),
     (''counter'', Some (JNum (ad_counter x)))]"

definition read_AdvertisementData :: "jval \<Rightarrow> AdvertisementData option" where
  "read_AdvertisementData j =
     Option.bind (as_number (property j ''batteryPercent'')) (\<lambda>batteryPercent.
     Option.bind (as_number (property j ''lastReading'')) (\<lambda>lastReading.
     Option.bind (as_number (property j ''faultFlags'')) (\<lambda>faultFlags.
     Option.bind (as_number (property j ''counter'')) (\<lambda>counter.
     Some \<lparr> ad_batteryPercent = batteryPercent, ad_lastReading = lastReading,
       ad_faultFlags = faultFlags, ad_counter = counter \<rparr>))))"

definition AdvertisementData_plain :: "AdvertisementData \<Rightarrow> bool" where
  "AdvertisementData_plain x \<longleftrightarrow> printable_number (ad_batteryPercent x) \<and>
     printable_number (ad_lastReading x) \<and>
     printable_number (ad_faultFlags x) \<and>
     printable_number (ad_counter x)"

interpretation advertisementData: json_codec AdvertisementData_json read_AdvertisementData AdvertisementData_plain
  by unfold_locales
    (simp_all add: literal_plain AdvertisementData_json_def read_AdvertisementData_def AdvertisementData_plain_def name_key_def is_digit_def)

record NodeDiscoveredPayload =
  nd_nodeId :: jstring
  nd_rssi :: js_number
  nd_advertisementData :: AdvertisementData

definition NodeDiscoveredPayload_json :: "NodeDiscoveredPayload \<Rightarrow> jval" where
  "NodeDiscoveredPayload_json x = object_literal [
     (''nodeId'', Some (JStr (nd_nodeId x))),
     (''rssi'', Some (JNum (nd_rssi x))),
     (''advertisementData'', Some (AdvertisementData_json (nd_advertisementData x)))]"

definition read_NodeDiscoveredPayload :: "jval \<Rightarrow> NodeDiscoveredPayload option" where
  "read_NodeDiscoveredPayload j =
     Option.bind (as_string (property j ''nodeId'')) (\<lambda>nodeId.
     Option.bind (as_number (property j ''rssi'')) (\<lambda>rssi.
     Option.bind (Option.bind (property j ''advertisementData'') read_AdvertisementData) (\<lambda>advertisementData.
     Some \<lparr> nd_nodeId = nodeId, nd_rssi = rssi, nd_advertisementData = advertisementData \<rparr>)))"

definition NodeDiscoveredPayload_plain :: "NodeDiscoveredPayload \<Rightarrow> bool" where
  "NodeDiscoveredPayload_plain x \<longleftrightarrow> printable_number (nd_rssi x) \<and>
     AdvertisementData_plain (nd_advertisementData x)"

interpretation nodeDiscoveredPayload: json_codec NodeDiscoveredPayload_json read_NodeDiscoveredPayload NodeDiscoveredPayload_plain
  by unfold_locales
    (simp_all add: literal_plain NodeDiscoveredPayload_json_def read_NodeDiscoveredPayload_def NodeDiscoveredPayload_plain_def name_key_def is_digit_def)

record TelemetryReading =
  tr_timestamp :: js_number
  tr_value :: js_number
  tr_unit :: jstring
  tr_quality :: js_number

definition TelemetryReading_json :: "TelemetryReading \<Rightarrow> jval" where
  "TelemetryReading_json x = object_literal [
     (''timestamp'', Some (JNum (tr_timestamp x))),
     (''value'', Some (JNum (tr_value x))),
     (''unit'', Some (JStr (tr_unit x))),
     (''quality'', Some (JNum (tr_quality x)))]"

definition read_TelemetryReading :: "jval \<Rightarrow> TelemetryReading option" where
  "read_TelemetryReading j =
     Option.bind (as_number (property j ''timestamp'')) (\<lambda>timestamp.
     Option.bind (as_number (property j ''value'')) (\<lambda>value.
     Option.bind (as_string (property j ''unit'')) (\<lambda>unit.
     Option.bind (as_number (property j ''quality'')) (\<lambda>quality.
     Some \<lparr> tr_timestamp = timestamp, tr_value = value, tr_unit = unit, tr_quality = quality \<rparr>))))"

definition TelemetryReading_plain :: "TelemetryReading \<Rightarrow> bool" where
  "TelemetryReading_plain x \<longleftrightarrow> printable_number (tr_timestamp x) \<and>
     printable_number (tr_value x) \<and>
     printable_number (tr_quality x)"

interpretation telemetryReading: json_codec TelemetryReading_json read_TelemetryReading TelemetryReading_plain
  by unfold_locales
    (simp_all add: literal_plain TelemetryReading_json_def read_TelemetryReading_def TelemetryReading_plain_def name_key_def is_digit_def)

record TelemetryBattery =
  tb_millivolts :: js_number
  tb_percent :: js_number

definition TelemetryBattery_json :: "TelemetryBattery \<Rightarrow> jval" where
  "TelemetryBattery_json x = object_literal [
     (''millivolts'', Some (JNum (tb_millivolts x))),
     (''percent'', Some (JNum (tb_percent x)))]"

definition read_TelemetryBattery :: "jval \<Rightarrow> TelemetryBattery option" where
  "read_TelemetryBattery j =
     Option.bind (as_number (property j ''millivolts'')) (\<lambda>millivolts.
     Option.bind (as_number (property j ''percent'')) (\<lambda>percent.
     Some \<lparr> tb_millivolts = millivolts, tb_percent = percent \<rparr>))"

definition TelemetryBattery_plain :: "TelemetryBattery \<Rightarrow> bool" where
  "TelemetryBattery_plain x \<longleftrightarrow> printable_number (tb_millivolts x) \<and>
     printable_number (tb_percent x)"

interpretation telemetryBattery: json_codec TelemetryBattery_json read_TelemetryBattery TelemetryBattery_plain
  by unfold_locales
    (simp_all add: literal_plain TelemetryBattery_json_def read_TelemetryBattery_def TelemetryBattery_plain_def name_key_def is_digit_def)

record NodeTelemetryPayload =
  nt_nodeId :: jstring
  nt_machineId :: "jstring option"
  nt_reading :: TelemetryReading
  nt_battery :: TelemetryBattery
  nt_faults :: "jstring list"
  nt_rssi :: js_number

definition NodeTelemetryPayload_json :: "NodeTelemetryPayload \<Rightarrow> jval" where
  "NodeTelemetryPayload_json x = object_literal [
     (''nodeId'', Some (JStr (nt_nodeId x))),
     (''machineId'', map_option JStr (nt_machineId x)),
     (''reading'', Some (TelemetryReading_json (nt_reading x))),
     (''battery'', Some (TelemetryBattery_json (nt_battery x))),
     (''faults'', Some (JArr (map JStr (nt_faults x)))),
     (''rssi'', Some (JNum (nt_rssi x)))]"

definition read_NodeTelemetryPayload :: "jval \<Rightarrow> NodeTelemetryPayload option" where
  "read_NodeTelemetryPayload j =
     Option.bind (as_string (property j ''nodeId'')) (\<lambda>nodeId.
     Option.bind (optional as_string (property j ''machineId'')) (\<lambda>machineId.
     Option.bind (Option.bind (property j ''reading'') read_TelemetryReading) (\<lambda>reading.
     Option.bind (Option.bind (property j ''battery'') read_TelemetryBattery) (\<lambda>battery.
     Option.bind (Option.bind (as_array (property j ''faults'')) (read_all (\<lambda>v. as_string (Some v)))) (\<lambda>faults.
     Option.bind (as_number (property j ''rssi'')) (\<lambda>rssi.
     Some \<lparr> nt_nodeId = nodeId, nt_machineId = machineId, nt_reading = reading,
       nt_battery = battery, nt_faults = faults, nt_rssi = rssi \<rparr>))))))"

definition NodeTelemetryPayload_plain :: "NodeTelemetryPayload \<Rightarrow> bool" where
  "NodeTelemetryPayload_plain x \<longleftrightarrow> TelemetryReading_plain (nt_reading x) \<and>
     TelemetryBattery_plain (nt_battery x) \<and>
     printable_number (nt_rssi x)"

interpretation nodeTelemetryPayload: json_codec NodeTelemetryPayload_json read_NodeTelemetryPayload NodeTelemetryPayload_plain
  by unfold_locales
    (simp_all add: literal_plain NodeTelemetryPayload_json_def read_NodeTelemetryPayload_def NodeTelemetryPayload_plain_def name_key_def is_digit_def)

record SamplingConfig =
  sc_intervalSeconds :: js_number
  sc_warmupMs :: js_number
  sc_burstCount :: js_number
  sc_aggregation :: jstring

definition SamplingConfig_json :: "SamplingConfig \<Rightarrow> jval" where
  "SamplingConfig_json x = object_literal [
     (''intervalSeconds'', Some (JNum (sc_intervalSeconds x))),
     (''warmupMs'', Some (JNum (sc_warmupMs x))),
     (''burstCount'', Some (JNum (sc_burstCount x))),
     (''aggregation'', Some (JStr (sc_aggregation x)))]"

definition read_SamplingConfig :: "jval \<Rightarrow> SamplingConfig option" where
  "read_SamplingConfig j =
     Option.bind (as_number (property j ''intervalSeconds'')) (\<lambda>intervalSeconds.
     Option.bind (as_number (property j ''warmupMs'')) (\<lambda>warmupMs.
     Option.bind (as_number (property j ''burstCount'')) (\<lambda>burstCount.
     Option.bind (as_string (property j ''aggregation'')) (\<lambda>aggregation.
     Some \<lparr> sc_intervalSeconds = intervalSeconds, sc_warmupMs = warmupMs,
       sc_burstCount = burstCount, sc_aggregation = aggregation \<rparr>))))"

definition SamplingConfig_plain :: "SamplingConfig \<Rightarrow> bool" where
  "SamplingConfig_plain x \<longleftrightarrow> printable_number (sc_intervalSeconds x) \<and>
     printable_number (sc_warmupMs x) \<and>
     printable_number (sc_burstCount x)"

interpretation samplingConfig: json_codec SamplingConfig_json read_SamplingConfig SamplingConfig_plain
  by unfold_locales
    (simp_all add: literal_plain SamplingConfig_json_def read_SamplingConfig_def SamplingConfig_plain_def name_key_def is_digit_def)

record NodeConfig =
  nc_sampling :: "SamplingConfig option"
  nc_calibration :: "jval option"
  nc_advertisement :: "jval option"
  nc_faults :: "jval option"

definition NodeConfig_json :: "NodeConfig \<Rightarrow> jval" where
  "NodeConfig_json x = object_literal [
     (''sampling'', map_option SamplingConfig_json (nc_sampling x)),
     (''calibration'', nc_calibration x),
     (''advertisement'', nc_advertisement x),
     (''faults'', nc_faults x)]"

definition read_NodeConfig :: "jval \<Rightarrow> NodeConfig option" where
  "read_NodeConfig j =
     Option.bind (optional (\<lambda>v. Option.bind v read_SamplingConfig) (property j ''sampling'')) (\<lambda>sampling.
     Option.bind (optional id (property j ''calibration'')) (\<lambda>calibration.
     Option.bind (optional id (property j ''advertisement'')) (\<lambda>advertisement.
     Option.bind (optional id (property j ''faults'')) (\<lambda>faults.
     Some \<lparr> nc_sampling = sampling, nc_calibration = calibration,
       nc_advertisement = advertisement, nc_faults = faults \<rparr>))))"

definition NodeConfig_plain :: "NodeConfig \<Rightarrow> bool" where
  "NodeConfig_plain x \<longleftrightarrow> pred_option SamplingConfig_plain (nc_sampling x) \<and>
     pred_option json_plain (nc_calibration x) \<and>
     pred_option json_plain (nc_advertisement x) \<and>
     pred_option json_plain (nc_faults x)"

interpretation nodeConfig: json_codec NodeConfig_json read_NodeConfig NodeConfig_plain
  by unfold_locales
    (simp_all add: literal_plain NodeConfig_json_def read_NodeConfig_def NodeConfig_plain_def name_key_def is_digit_def)

record ApplyNodeConfigPayload =
  ac_jobId :: jstring
  ac_nodeId :: jstring
  ac_config :: NodeConfig
  ac_timeoutSeconds :: js_number

definition ApplyNodeConfigPayload_json :: "ApplyNodeConfigPayload \<Rightarrow> jval" where
  "ApplyNodeConfigPayload_json x = object_literal [
     (''jobId'', Some (JStr (ac_jobId x))),
     (''nodeId'', Some (JStr (ac_nodeId x))),
     (''config'', Some (NodeConfig_json (ac_config x))),
     (''timeoutSeconds'', Some (JNum (ac_timeoutSeconds x)))]"

definition read_ApplyNodeConfigPayload :: "jval \<Rightarrow> ApplyNodeConfigPayload option" where
  "read_ApplyNodeConfigPayload j =
     Option.bind (as_string (property j ''jobId'')) (\<lambda>jobId.
     Option.bind (as_string (property j ''nodeId'')) (\<lambda>nodeId.
     Option.bind (Option.bind (property j ''config'') read_NodeConfig) (\<lambda>config.
     Option.bind (as_number (property j ''timeoutSeconds'')) (\<lambda>timeoutSeconds.
     Some \<lparr> ac_jobId = jobId, ac_nodeId = nodeId, ac_config = config,
       ac_timeoutSeconds = timeoutSeconds \<rparr>))))"

definition ApplyNodeConfigPayload_plain :: "ApplyNodeConfigPayload \<Rightarrow> bool" where
  "ApplyNodeConfigPayload_plain x \<longleftrightarrow> NodeConfig_plain (ac_config x) \<and>
     printable_number (ac_timeoutSeconds x)"

interpretation applyNodeConfigPayload: json_codec ApplyNodeConfigPayload_json read_ApplyNodeConfigPayload ApplyNodeConfigPayload_plain
  by unfold_locales
    (simp_all add: literal_plain ApplyNodeConfigPayload_json_def read_ApplyNodeConfigPayload_def ApplyNodeConfigPayload_plain_def name_key_def is_digit_def)

record NodeConfigResultPayload =
  cr_jobId :: jstring
  cr_nodeId :: jstring
  cr_success :: bool
  cr_errorCode :: "jstring option"
  cr_errorMessage :: "jstring option"
  cr_appliedAt :: "js_number option"

definition NodeConfigResultPayload_json :: "NodeConfigResultPayload \<Rightarrow> jval" where
  "NodeConfigResultPayload_json x = object_literal [
     (''jobId'', Some (JStr (cr_jobId x))),
     (''nodeId'', Some (JStr (cr_nodeId x))),
     (''success'', Some (JBool (cr_success x))),
     (''errorCode'', map_option JStr (cr_errorCode x)),
     (''errorMessage'', map_option JStr (cr_errorMessage x)),
     (''appliedAt'', map_option JNum (cr_appliedAt x))]"

definition read_NodeConfigResultPayload :: "jval \<Rightarrow> NodeConfigResultPayload option" where
  "read_NodeConfigResultPayload j =
     Option.bind (as_string (property j ''jobId'')) (\<lambda>jobId.
     Option.bind (as_string (property j ''nodeId'')) (\<lambda>nodeId.
     Option.bind (as_bool (property j ''success'')) (\<lambda>success.
     Option.bind (optional as_string (property j ''errorCode'')) (\<lambda>errorCode.
     Option.bind (optional as_string (property j ''errorMessage'')) (\<lambda>errorMessage.
     Option.bind (optional as_number (property j ''appliedAt'')) (\<lambda>appliedAt.
     Some \<lparr> cr_jobId = jobId, cr_nodeId = nodeId, cr_success = success,
       cr_errorCode = errorCode, cr_errorMessage = errorMessage, cr_appliedAt = appliedAt \<rparr>))))))"

definition NodeConfigResultPayload_plain :: "NodeConfigResultPayload \<Rightarrow> bool" where
  "NodeConfigResultPayload_plain x \<longleftrightarrow> pred_option printable_number (cr_appliedAt x)"

interpretation nodeConfigResultPayload: json_codec NodeConfigResultPayload_json read_NodeConfigResultPayload NodeConfigResultPayload_plain
  by unfold_locales
    (simp_all add: literal_plain NodeConfigResultPayload_json_def read_NodeConfigResultPayload_def NodeConfigResultPayload_plain_def name_key_def is_digit_def)

record PullNodeLogsPayload =
  pl_jobId :: jstring
  pl_nodeId :: jstring
  pl_maxBytes :: js_number

definition PullNodeLogsPayload_json :: "PullNodeLogsPayload \<Rightarrow> jval" where
  "PullNodeLogsPayload_json x = object_literal [
     (''jobId'', Some (JStr (pl_jobId x))),
     (''nodeId'', Some (JStr (pl_nodeId x))),
     (''maxBytes'', Some (JNum (pl_maxBytes x)))]"

definition read_PullNodeLogsPayload :: "jval \<Rightarrow> PullNodeLogsPayload option" where
  "read_PullNodeLogsPayload j =
     Option.bind (as_string (property j ''jobId'')) (\<lambda>jobId.
     Option.bind (as_string (property j ''nodeId'')) (\<lambda>nodeId.
     Option.bind (as_number (property j ''maxBytes'')) (\<lambda>maxBytes.
     Some \<lparr> pl_jobId = jobId, pl_nodeId = nodeId, pl_maxBytes = maxBytes \<rparr>)))"

definition PullNodeLogsPayload_plain :: "PullNodeLogsPayload \<Rightarrow> bool" where
  "PullNodeLogsPayload_plain x \<longleftrightarrow> printable_number (pl_maxBytes x)"

interpretation pullNodeLogsPayload: json_codec PullNodeLogsPayload_json read_PullNodeLogsPayload PullNodeLogsPayload_plain
  by unfold_locales
    (simp_all add: literal_plain PullNodeLogsPayload_json_def read_PullNodeLogsPayload_def PullNodeLogsPayload_plain_def name_key_def is_digit_def)

record NodeLogChunkPayload =
  lc_jobId :: jstring
  lc_nodeId :: jstring
  lc_chunkIndex :: js_number
  lc_totalChunks :: js_number
  lc_data :: jstring
  lc_complete :: bool

definition NodeLogChunkPayload_json :: "NodeLogChunkPayload \<Rightarrow> jval" where
  "NodeLogChunkPayload_json x = object_literal [
     (''jobId'', Some (JStr (lc_jobId x))),
     (''nodeId'', Some (JStr (lc_nodeId x))),
     (''chunkIndex'', Some (JNum (lc_chunkIndex x))),
     (''totalChunks'', Some (JNum (lc_totalChunks x))),
     (''data'', Some (JStr (lc_data x))),
     (''complete'', Some (JBool (lc_complete x)))]"

definition read_NodeLogChunkPayload :: "jval \<Rightarrow> NodeLogChunkPayload option" where
  "read_NodeLogChunkPayload j =
     Option.bind (as_string (property j ''jobId'')) (\<lambda>jobId.
     Option.bind (as_string (property j ''nodeId'')) (\<lambda>nodeId.
     Option.bind (as_number (property j ''chunkIndex'')) (\<lambda>chunkIndex.
     Option.bind (as_number (property j ''totalChunks'')) (\<lambda>totalChunks.
     Option.bind (as_string (property j ''data'')) (\<lambda>data.
     Option.bind (as_bool (property j ''complete'')) (\<lambda>complete.
     Some \<lparr> lc_jobId = jobId, lc_nodeId = nodeId, lc_chunkIndex = chunkIndex,
       lc_totalChunks = totalChunks, lc_data = data, lc_complete = complete \<rparr>))))))"

definition NodeLogChunkPayload_plain :: "NodeLogChunkPayload \<Rightarrow> bool" where
  "NodeLogChunkPayload_plain x \<longleftrightarrow> printable_number (lc_chunkIndex x) \<and>
     printable_number (lc_totalChunks x)"

interpretation nodeLogChunkPayload: json_codec NodeLogChunkPayload_json read_NodeLogChunkPayload NodeLogChunkPayload_plain
  by unfold_locales
    (simp_all add: literal_plain NodeLogChunkPayload_json_def read_NodeLogChunkPayload_def NodeLogChunkPayload_plain_def name_key_def is_digit_def)

record TwinDesiredUpdatePayload =
  du_version :: js_number
  du_desired :: jval

definition TwinDesiredUpdatePayload_json :: "TwinDesiredUpdatePayload \<Rightarrow> jval" where
  "TwinDesiredUpdatePayload_json x = object_literal [
     (''version'', Some (JNum (du_version x))),
     (''desired'', Some (du_desired x))]"

definition read_TwinDesiredUpdatePayload :: "jval \<Rightarrow> TwinDesiredUpdatePayload option" where
  "read_TwinDesiredUpdatePayload j =
     Option.bind (as_number (property j ''version'')) (\<lambda>version.
     Option.bind (property j ''desired'') (\<lambda>desired.
     Some \<lparr> du_version = version, du_desired = desired \<rparr>))"

definition TwinDesiredUpdatePayload_plain :: "TwinDesiredUpdatePayload \<Rightarrow> bool" where
  "TwinDesiredUpdatePayload_plain x \<longleftrightarrow> printable_number (du_version x) \<and>
     json_plain (du_desired x)"

interpretation twinDesiredUpdatePayload: json_codec TwinDesiredUpdatePayload_json read_TwinDesiredUpdatePayload TwinDesiredUpdatePayload_plain
  by unfold_locales
    (simp_all add: literal_plain TwinDesiredUpdatePayload_json_def read_TwinDesiredUpdatePayload_def TwinDesiredUpdatePayload_plain_def name_key_def is_digit_def)

record TwinReportedUpdatePayload =
  ru_reported :: jval

definition TwinReportedUpdatePayload_json :: "TwinReportedUpdatePayload \<Rightarrow> jval" where
  "TwinReportedUpdatePayload_json x = object_literal [
     (''reported'', Some (ru_reported x))]"

definition read_TwinReportedUpdatePayload :: "jval \<Rightarrow> TwinReportedUpdatePayload option" where
  "read_TwinReportedUpdatePayload j =
     Option.bind (property j ''reported'') (\<lambda>reported.
     Some \<lparr> ru_reported = reported \<rparr>)"

definition TwinReportedUpdatePayload_plain :: "TwinReportedUpdatePayload \<Rightarrow> bool" where
  "TwinReportedUpdatePayload_plain x \<longleftrightarrow> json_plain (ru_reported x)"

interpretation twinReportedUpdatePayload: json_codec TwinReportedUpdatePayload_json read_TwinReportedUpdatePayload TwinReportedUpdatePayload_plain
  by unfold_locales
    (simp_all add: literal_plain TwinReportedUpdatePayload_json_def read_TwinReportedUpdatePayload_def TwinReportedUpdatePayload_plain_def name_key_def is_digit_def)

record PublishTelemetryPayload =
  pt_telemetry :: "NodeTelemetryPayload list"
  pt_timestamp :: js_number

definition PublishTelemetryPayload_json :: "PublishTelemetryPayload \<Rightarrow> jval" where
  "PublishTelemetryPayload_json x = object_literal [
     (''telemetry'', Some (JArr (map NodeTelemetryPayload_json (pt_telemetry x)))),
     (''timestamp'', Some (JNum (pt_timestamp x)))]"

definition read_PublishTelemetryPayload :: "jval \<Rightarrow> PublishTelemetryPayload option" where
  "read_PublishTelemetryPayload j =
     Option.bind (Option.bind (as_array (property j ''telemetry'')) (read_all read_NodeTelemetryPayload)) (\<lambda>telemetry.
     Option.bind (as_number (property j ''timestamp'')) (\<lambda>timestamp.
     Some \<lparr> pt_telemetry = telemetry, pt_timestamp = timestamp \<rparr>))"

definition PublishTelemetryPayload_plain :: "PublishTelemetryPayload \<Rightarrow> bool" where
  "PublishTelemetryPayload_plain x \<longleftrightarrow> list_all NodeTelemetryPayload_plain (pt_telemetry x) \<and>
     printable_number (pt_timestamp x)"

interpretation publishTelemetryPayload: json_codec PublishTelemetryPayload_json read_PublishTelemetryPayload PublishTelemetryPayload_plain
  by unfold_locales
    (simp_all add: literal_plain PublishTelemetryPayload_json_def read_PublishTelemetryPayload_def PublishTelemetryPayload_plain_def name_key_def is_digit_def)

record ConnectionStatusPayload =
  cs_connected :: bool
  cs_reason :: "jstring option"
  cs_lastSync :: "js_number option"
  cs_queuedMessages :: "js_number option"

definition ConnectionStatusPayload_json :: "ConnectionStatusPayload \<Rightarrow> jval" where
  "ConnectionStatusPayload_json x = object_literal [
     (''connected'', Some (JBool (cs_connected x))),
     (''reason'', map_option JStr (cs_reason x)),
     (''lastSync'', map_option JNum (cs_lastSync x)),
     (''queuedMessages'', map_option JNum (cs_queuedMessages x))]"

definition read_ConnectionStatusPayload :: "jval \<Rightarrow> ConnectionStatusPayload option" where
  "read_ConnectionStatusPayload j =
     Option.bind (as_bool (property j ''connected'')) (\<lambda>connected.
     Option.bind (optional as_string (property j ''reason'')) (\<lambda>reason.
     Option.bind (optional as_number (property j ''lastSync'')) (\<lambda>lastSync.
     Option.bind (optional as_number (property j ''queuedMessages'')) (\<lambda>queuedMessages.
     Some \<lparr> cs_connected = connected, cs_reason = reason, cs_lastSync = lastSync,
       cs_queuedMessages = queuedMessages \<rparr>))))"

definition ConnectionStatusPayload_plain :: "ConnectionStatusPayload \<Rightarrow> bool" where
  "ConnectionStatusPayload_plain x \<longleftrightarrow> pred_option printable_number (cs_lastSync x) \<and>
     pred_option printable_number (cs_queuedMessages x)"

interpretation connectionStatusPayload: json_codec ConnectionStatusPayload_json read_ConnectionStatusPayload ConnectionStatusPayload_plain
  by unfold_locales
    (simp_all add: literal_plain ConnectionStatusPayload_json_def read_ConnectionStatusPayload_def ConnectionStatusPayload_plain_def name_key_def is_digit_def)

record ErrorPayload =
  er_code :: jstring
  er_message :: jstring
  er_details :: "jval option"

definition ErrorPayload_json :: "ErrorPayload \<Rightarrow> jval" where
  "ErrorPayload_json x = object_literal [
     (''code'', Some (JStr (er_code x))),
     (''message'', Some (JStr (er_message x))),
     (''details'', er_details x)]"

definition read_ErrorPayload :: "jval \<Rightarrow> ErrorPayload option" where
  "read_ErrorPayload j =
     Option.bind (as_string (property j ''code'')) (\<lambda>code.
     Option.bind (as_string (property j ''message'')) (\<lambda>message.
     Option.bind (optional id (property j ''details'')) (\<lambda>details.
     Some \<lparr> er_code = code, er_message = message, er_details = details \<rparr>)))"

definition ErrorPayload_plain :: "ErrorPayload \<Rightarrow> bool" where
  "ErrorPayload_plain x \<longleftrightarrow> pred_option json_plain (er_details x)"

interpretation errorPayload: json_codec ErrorPayload_json read_ErrorPayload ErrorPayload_plain
  by unfold_locales
    (simp_all add: literal_plain ErrorPayload_json_def read_ErrorPayload_def ErrorPayload_plain_def name_key_def is_digit_def)

section \<open>Typed messages\<close>

text \<open>The payload of a message, by the type that announces it. A heartbeat has no interface.\<close>

datatype ipc_payload =
    NodeDiscovered NodeDiscoveredPayload
  | NodeTelemetry NodeTelemetryPayload
  | ApplyNodeConfig ApplyNodeConfigPayload
  | NodeConfigResult NodeConfigResultPayload
  | PullNodeLogs PullNodeLogsPayload
  | NodeLogChunk NodeLogChunkPayload
  | TwinDesiredUpdate TwinDesiredUpdatePayload
  | TwinReportedUpdate TwinReportedUpdatePayload
  | PublishTelemetry PublishTelemetryPayload
  | ConnectionStatus ConnectionStatusPayload
  | ErrorReport ErrorPayload

fun payload_type :: "ipc_payload \<Rightarrow> IPCMessageType" where
  "payload_type (NodeDiscovered x) = NODE_DISCOVERED"
| "payload_type (NodeTelemetry x) = NODE_TELEMETRY"
| "payload_type (ApplyNodeConfig x) = APPLY_NODE_CONFIG"
| "payload_type (NodeConfigResult x) = NODE_CONFIG_RESULT"
| "payload_type (PullNodeLogs x) = PULL_NODE_LOGS"
| "payload_type (NodeLogChunk x) = NODE_LOG_CHUNK"
| "payload_type (TwinDesiredUpdate x) = TWIN_DESIRED_UPDATE"
| "payload_type (TwinReportedUpdate x) = TWIN_REPORTED_UPDATE"
| "payload_type (PublishTelemetry x) = PUBLISH_TELEMETRY"
| "payload_type (ConnectionStatus x) = CONNECTION_STATUS"
| "payload_type (ErrorReport x) = ERROR"

fun payload_json :: "ipc_payload \<Rightarrow> jval" where
  "payload_json (NodeDiscovered x) = NodeDiscoveredPayload_json x"
| "payload_json (NodeTelemetry x) = NodeTelemetryPayload_json x"
| "payload_json (ApplyNodeConfig x) = ApplyNodeConfigPayload_json x"
| "payload_json (NodeConfigResult x) = NodeConfigResultPayload_json x"
| "payload_json (PullNodeLogs x) = PullNodeLogsPayload_json x"
| "payload_json (NodeLogChunk x) = NodeLogChunkPayload_json x"
| "payload_json (TwinDesiredUpdate x) = TwinDesiredUpdatePayload_json x"
| "payload_json (TwinReportedUpdate x) = TwinReportedUpdatePayload_json x"
| "payload_json (PublishTelemetry x) = PublishTelemetryPayload_json x"
| "payload_json (ConnectionStatus x) = ConnectionStatusPayload_json x"
| "payload_json (ErrorReport x) = ErrorPayload_json x"

fun payload_plain :: "ipc_payload \<Rightarrow> bool" where
  "payload_plain (NodeDiscovered x) = NodeDiscoveredPayload_plain x"
| "payload_plain (NodeTelemetry x) = NodeTelemetryPayload_plain x"
| "payload_plain (ApplyNodeConfig x) = ApplyNodeConfigPayload_plain x"
| "payload_plain (NodeConfigResult x) = NodeConfigResultPayload_plain x"
| "payload_plain (PullNodeLogs x) = PullNodeLogsPayload_plain x"
| "payload_plain (NodeLogChunk x) = NodeLogChunkPayload_plain x"
| "payload_plain (TwinDesiredUpdate x) = TwinDesiredUpdatePayload_plain x"
| "payload_plain (TwinReportedUpdate x) = TwinReportedUpdatePayload_plain x"
| "payload_plain (PublishTelemetry x) = PublishTelemetryPayload_plain x"
| "payload_plain (ConnectionStatus x) = ConnectionStatusPayload_plain x"
| "payload_plain (ErrorReport x) = ErrorPayload_plain x"

fun read_payload :: "IPCMessageType \<Rightarrow> jval \<Rightarrow> ipc_payload option" where
  "read_payload NODE_DISCOVERED j = map_option NodeDiscovered (read_NodeDiscoveredPayload j)"
| "read_payload NODE_TELEMETRY j = map_option NodeTelemetry (read_NodeTelemetryPayload j)"
| "read_payload APPLY_NODE_CONFIG j = map_option ApplyNodeConfig (read_ApplyNodeConfigPayload j)"
| "read_payload NODE_CONFIG_RESULT j = map_option NodeConfigResult (read_NodeConfigResultPayload j)"
| "read_payload PULL_NODE_LOGS j = map_option PullNodeLogs (read_PullNodeLogsPayload j)"
| "read_payload NODE_LOG_CHUNK j = map_option NodeLogChunk (read_NodeLogChunkPayload j)"
| "read_payload TWIN_DESIRED_UPDATE j = map_option TwinDesiredUpdate (read_TwinDesiredUpdatePayload j)"
| "read_payload TWIN_REPORTED_UPDATE j = map_option TwinReportedUpdate (read_TwinReportedUpdatePayload j)"
| "read_payload PUBLISH_TELEMETRY j = map_option PublishTelemetry (read_PublishTelemetryPayload j)"
| "read_payload CONNECTION_STATUS j = map_option ConnectionStatus (read_ConnectionStatusPayload j)"
| "read_payload ERROR j = map_option ErrorReport (read_ErrorPayload j)"
| "read_payload HEARTBEAT j = None"

text \<open>The type that a message names.\<close>

definition type_of_name :: "jstring \<Rightarrow> IPCMessageType option" where
  "type_of_name s = List.find (\<lambda>t. IPCMessageType_value t = s)
     [NODE_DISCOVERED, NODE_TELEMETRY, APPLY_NODE_CONFIG, NODE_CONFIG_RESULT, PULL_NODE_LOGS, NODE_LOG_CHUNK,
      TWIN_DESIRED_UPDATE, TWIN_REPORTED_UPDATE, PUBLISH_TELEMETRY, CONNECTION_STATUS, HEARTBEAT, ERROR]"

lemma type_of_value [simp]: "type_of_name (IPCMessageType_value t) = Some t"
  by (cases t) (simp_all add: type_of_name_def IPCMessageType_value_inj del: IPCMessageType_value.simps)

lemma payload_plain_json: "payload_plain p \<Longrightarrow> json_plain (payload_json p)"
  by (cases p) simp_all

lemma read_payload_json [simp]: "read_payload (payload_type p) (payload_json p) = Some p"
  by (cases p) simp_all

text \<open>What a receiver does with a decoded value: the typed view of envelope and payload.\<close>

definition receive_payload :: "jval \<Rightarrow> ipc_payload option" where
  "receive_payload j =
     Option.bind (message_of_json j) (\<lambda>m.
     Option.bind (type_of_name (msg_type m)) (\<lambda>t.
     Option.bind (payload m) (read_payload t)))"

lemma created_payload [simp]:
  "payload (createIPCMessage now1 now2 r t body corrId) = body"
  "msg_type (createIPCMessage now1 now2 r t body corrId) = IPCMessageType_value t"
  "msg_timestamp (createIPCMessage now1 now2 r t body corrId) \<in> {now1, now2}"
  by (auto simp: createIPCMessage_def split: option.split)

lemma created_plain:
  assumes "printable_number now1" "printable_number now2" "payload_plain p"
  shows "message_plain (createIPCMessage now1 now2 r t (Some (payload_json p)) corrId)"
  using assms created_payload(3) [of now1 now2 r t "Some (payload_json p)" corrId]
  by (auto simp: message_plain_def payload_plain_json)

text \<open>
  C9: End to end between the two processors: for every payload of the protocol, the message a
  sender creates for it under its type is encoded without error, and a receiver that decodes
  the bytes and reads the payload at the type the message names gets back that payload, with
  all its optional and nested properties (finite numbers, and a text below 4 GiB).
\<close>

theorem typed_payload_round_trip:
  assumes "payload_plain p" and "printable_number now1" and "printable_number now2"
    and "m = createIPCMessage now1 now2 random36 (payload_type p) (Some (payload_json p)) corrId"
    and "length (message_payload m) < 2 ^ 32"
  shows "\<exists>a j. encodeIPCMessage m = Inr a \<and>
    decodeIPCMessage (array_of (bytes_of a @ trailing)) = Inr (Some j) \<and> receive_payload j = Some p"
proof -
  have j: "json_plain (message_json m)"
    using created_plain [OF assms(2,3,1)] by (simp add: assms(4) message_json_plain)
  then have "decodeIPCMessage (array_of (frame (message_payload m) @ trailing)) = Inr (Some (message_json m))"
    using decode_frame_at [OF frame_at_frame [OF assms(5)]] by (simp add: payload_text json_plain_ok)
  moreover have "receive_payload (message_json m) = Some p"
    by (simp add: receive_payload_def message_of_json_json assms(4) del: IPCMessageType_value.simps)
  ultimately show ?thesis by (simp add: encode_frame)
qed

definition sample_error :: ErrorPayload where
  "sample_error = \<lparr> er_code = js ''E1'', er_message = js ''low'', er_details = Some JNull \<rparr>"

lemma text_encode_length: "length (text_encode s) \<le> 4 * length s"
proof -
  have "length (concat (map utf8_bytes cs)) \<le> 4 * length cs" for cs
    by (induction cs) (auto simp: utf8_bytes_def)
  moreover have "length (code_points s) \<le> length s"
    by (induction s rule: code_points.induct) auto
  ultimately show ?thesis unfolding text_encode_def by (meson le_trans mult_le_mono2)
qed

abbreviation sample_created :: IPCMessage where
  "sample_created \<equiv> createIPCMessage (Finite False 5 0) (Finite False 5 0) [] ERROR
     (Some (payload_json (ErrorReport sample_error))) (Some (js ''id-1''))"

lemma sample_created_short: "length (message_payload sample_created) < 2 ^ 32"
proof -
  have "length (stringify (message_json sample_created)) < 200"
    by (simp add: createIPCMessage_def sample_error_def ErrorPayload_json_def object_literal_def message_json_def
        message_members_def text_of_five quote_def escape_unit_def is_high_def is_low_def js_simps
        del: number_to_string.simps)
  then show ?thesis using text_encode_length [of "stringify (message_json sample_created)"]
    unfolding message_payload_def by simp
qed

theorem typed_payload_round_trip_witness:
  "\<exists>a j. encodeIPCMessage sample_created = Inr a \<and>
    decodeIPCMessage (array_of (bytes_of a @ [7])) = Inr (Some j) \<and> receive_payload j = Some (ErrorReport sample_error)"
proof (rule typed_payload_round_trip [OF _ _ _ _ sample_created_short])
  show "payload_plain (ErrorReport sample_error)" by (simp add: sample_error_def ErrorPayload_plain_def)
  show "printable_number (Finite False 5 0)" using sample_plain by (simp add: message_plain_def sample_message_def)
  then show "printable_number (Finite False 5 0)" .
  show "sample_created = createIPCMessage (Finite False 5 0) (Finite False 5 0) []
      (payload_type (ErrorReport sample_error)) (Some (payload_json (ErrorReport sample_error))) (Some (js ''id-1''))"
    by simp
qed

end
