(* ===== verification/IotHub.thy ===== *)
theory IotHub
  imports JSValue "HOL-Library.Sublist"
begin

text \<open>
  \<open>src/backend/api/src/modules/iot-hub\<close>: the service around the device registry and the service
  client of the cloud, and its controller. The SDK is a parameter: a record of its calls over a
  state of the world, of which the registry's documented behaviour on twins is the only thing
  assumed (\<open>sdk_laws\<close>).
\<close>

section \<open>The SDK\<close>

record twin =
  desired :: "members option"
  reported :: jval
  connectionState :: jstring

record c2d_message =
  c2d_data :: jstring
  messageId :: jstring

text \<open>What a page of a query resolves to: not the twins, but an object that holds them.\<close>

record page_result =
  responseBody :: "twin list"

record ('w, 'q) iot_sdk =
  sdk_getTwin :: "jstring \<Rightarrow> ('w, twin) call"
  sdk_updateTwin :: "jstring \<Rightarrow> jval \<Rightarrow> jstring \<Rightarrow> ('w, twin) call"
  sdk_invokeDeviceMethod :: "jstring \<Rightarrow> jval \<Rightarrow> ('w, jval) call"
  sdk_send :: "jstring \<Rightarrow> c2d_message \<Rightarrow> ('w, unit) call"
  sdk_createQuery :: "jstring \<Rightarrow> ('w, 'q) call"
  sdk_hasMoreResults :: "'q \<Rightarrow> 'w \<Rightarrow> bool"
  sdk_nextAsTwin :: "'q \<Rightarrow> ('w, page_result) call"

text \<open>
  The service: its registry and client, both from the connection string, or neither. Using an
  absent one is a TypeError, raised inside the \<open>try\<close> of every method.
\<close>

type_synonym ('w, 'q) IotHubService = "('w, 'q) iot_sdk option"

definition IotHubService_new ::
  "(jstring \<Rightarrow> ('w, 'q) iot_sdk) \<Rightarrow> jstring option \<Rightarrow> ('w, 'q) IotHubService" where
  "IotHubService_new fromConnectionString connectionString =
     (if truthy_text connectionString then Some (fromConnectionString (the connectionString)) else None)"

definition unconfigured :: js_error where
  "unconfigured = TypeError (js ''Cannot read properties of undefined'')"

definition using_sdk ::
  "('w, 'q) IotHubService \<Rightarrow> (('w, 'q) iot_sdk \<Rightarrow> ('w, 'a) call) \<Rightarrow> ('w, 'a) call" where
  "using_sdk svc f = (case svc of None \<Rightarrow> throw unconfigured | Some sdk \<Rightarrow> f sdk)"

definition lift :: "js_error + 'a \<Rightarrow> ('w, 'a) call" where
  "lift r w = (r, w)"

section \<open>The service\<close>

definition getDeviceTwin :: "('w, 'q) IotHubService \<Rightarrow> jstring \<Rightarrow> ('w, twin) call" where
  "getDeviceTwin svc deviceId =
     try_catch (using_sdk svc (\<lambda>sdk. sdk_getTwin sdk deviceId)) (\<lambda>error. throw error)"

definition desired_patch :: "jval \<Rightarrow> jval" where
  "desired_patch d = JObj [(js ''properties'', JObj [(js ''desired'', d)])]"

definition updateTwinDesiredProperties ::
  "('w, 'q) IotHubService \<Rightarrow> jstring \<Rightarrow> jval \<Rightarrow> ('w, twin) call" where
  "updateTwinDesiredProperties svc deviceId desiredProperties =
     try_catch
       (using_sdk svc (\<lambda>sdk. sdk_updateTwin sdk deviceId (desired_patch desiredProperties) (js ''*'')))
       (\<lambda>error. throw error)"

definition getTwinReportedProperties :: "('w, 'q) IotHubService \<Rightarrow> jstring \<Rightarrow> ('w, jval) call" where
  "getTwinReportedProperties svc deviceId =
     try_catch (await (getDeviceTwin svc deviceId) (\<lambda>tw. return (reported tw))) (\<lambda>error. throw error)"

text \<open>The part of a job's addition between its two calls: the desired properties it will write.\<close>

definition with_job :: "twin \<Rightarrow> jval \<Rightarrow> js_error + jval" where
  "with_job tw job =
     bind (spread_array (or_else (Option.bind (desired tw) (\<lambda>kvs. obj_get kvs (js ''jobs''))) (JArr [])))
       (\<lambda>currentJobs. Inr (JObj (obj_put (spread_object (desired tw)) (js ''jobs'') (JArr (currentJobs @ [job])))))"

definition addJobToTwin :: "('w, 'q) IotHubService \<Rightarrow> jstring \<Rightarrow> jval \<Rightarrow> ('w, twin) call" where
  "addJobToTwin svc deviceId job =
     try_catch
       (await (getDeviceTwin svc deviceId) (\<lambda>tw.
        await (lift (with_job tw job)) (\<lambda>props.
          updateTwinDesiredProperties svc deviceId props)))
       (\<lambda>error. throw error)"

definition updateTopologyMapping ::
  "('w, 'q) IotHubService \<Rightarrow> jstring \<Rightarrow> jstring \<Rightarrow> jval \<Rightarrow> ('w, twin) call" where
  "updateTopologyMapping svc deviceId siteId nodeMappings =
     try_catch
       (await (getDeviceTwin svc deviceId) (\<lambda>tw.
          updateTwinDesiredProperties svc deviceId
            (JObj (obj_put (spread_object (desired tw)) (js ''topology'')
               (JObj [(js ''siteId'', JStr siteId), (js ''nodeMappings'', nodeMappings)])))))
       (\<lambda>error. throw error)"

definition updateHubPolicies :: "('w, 'q) IotHubService \<Rightarrow> jstring \<Rightarrow> jval \<Rightarrow> ('w, twin) call" where
  "updateHubPolicies svc deviceId policies =
     try_catch
       (await (getDeviceTwin svc deviceId) (\<lambda>tw.
          updateTwinDesiredProperties svc deviceId
            (JObj (obj_put (spread_object (desired tw)) (js ''policies'') policies))))
       (\<lambda>error. throw error)"

definition invokeDeviceMethod ::
  "('w, 'q) IotHubService \<Rightarrow> jstring \<Rightarrow> jstring \<Rightarrow> jval \<Rightarrow> ('w, jval) call" where
  "invokeDeviceMethod svc deviceId methodName payload =
     try_catch
       (using_sdk svc (\<lambda>sdk. sdk_invokeDeviceMethod sdk deviceId
          (JObj [(js ''methodName'', JStr methodName), (js ''payload'', payload),
                 (js ''responseTimeoutInSeconds'', JNum (num_of_int 30)),
                 (js ''connectTimeoutInSeconds'', JNum (num_of_int 15))])))
       (\<lambda>error. throw error)"

definition sendC2DMessage :: "('w, 'q) IotHubService \<Rightarrow> js_number \<Rightarrow> jstring \<Rightarrow> jval \<Rightarrow> ('w, unit) call" where
  "sendC2DMessage svc now deviceId msg =
     try_catch
       (using_sdk svc (\<lambda>sdk. sdk_send sdk deviceId
          \<lparr> c2d_data = stringify msg, messageId = js ''msg-'' @ number_to_string now \<rparr>))
       (\<lambda>error. throw error)"

text \<open>\<open>...page\<close> of a result object, which has no iterator: a TypeError, raised inside the \<open>try\<close>.\<close>

definition not_iterable :: js_error where
  "not_iterable = TypeError (js ''Spread syntax requires ...iterable[Symbol.iterator] to be a function'')"

definition spread_page :: "page_result \<Rightarrow> js_error + twin list" where
  "spread_page page = Inl not_iterable"

text \<open>
  The loop over the pages of a query, as written: a partial function on the state, whose value
  would be \<open>None\<close> if it did not return.
\<close>

partial_function (option) query_pages ::
  "('w, 'q) iot_sdk \<Rightarrow> 'q \<Rightarrow> twin list \<Rightarrow> 'w \<Rightarrow> ((js_error + twin list) \<times> 'w) option" where
  "query_pages sdk q results w =
     (if sdk_hasMoreResults sdk q w then
        (case sdk_nextAsTwin sdk q w of
           (Inl e, w') \<Rightarrow> Some (Inl e, w')
         | (Inr page, w') \<Rightarrow>
             (case spread_page page of
                Inl e \<Rightarrow> Some (Inl e, w')
              | Inr page_twins \<Rightarrow> query_pages sdk q (results @ page_twins) w'))
      else Some (Inr results, w))"

definition queryDevices ::
  "('w, 'q) IotHubService \<Rightarrow> jstring \<Rightarrow> 'w \<Rightarrow> ((js_error + twin list) \<times> 'w) option" where
  "queryDevices svc query w =
     (case svc of
        None \<Rightarrow> Some (Inl unconfigured, w)
      | Some sdk \<Rightarrow>
          (case sdk_createQuery sdk query w of
             (Inl e, w') \<Rightarrow> Some (Inl e, w')
           | (Inr q, w') \<Rightarrow> query_pages sdk q [] w'))"

definition hubs_by_tag_query :: "jstring \<Rightarrow> jstring \<Rightarrow> jstring" where
  "hubs_by_tag_query tagName tagValue =
     js ''SELECT * FROM devices WHERE tags.'' @ tagName @ js '' = '' @ [39] @ tagValue @ [39]"

definition getHubsByTag ::
  "('w, 'q) IotHubService \<Rightarrow> jstring \<Rightarrow> jstring \<Rightarrow> 'w \<Rightarrow> ((js_error + twin list) \<times> 'w) option" where
  "getHubsByTag svc tagName tagValue = queryDevices svc (hubs_by_tag_query tagName tagValue)"

definition isDeviceConnected :: "('w, 'q) IotHubService \<Rightarrow> jstring \<Rightarrow> ('w, bool) call" where
  "isDeviceConnected svc deviceId =
     try_catch
       (await (getDeviceTwin svc deviceId) (\<lambda>tw. return (connectionState tw = js ''Connected'')))
       (\<lambda>error. return False)"

section \<open>The controller\<close>

record topology_body =
  body_siteId :: jstring
  body_nodeMappings :: jval

record method_body =
  body_methodName :: jstring
  body_payload :: jval

definition IotHubController_getDeviceTwin :: "('w, 'q) IotHubService \<Rightarrow> jstring \<Rightarrow> ('w, twin) call" where
  "IotHubController_getDeviceTwin svc deviceId = getDeviceTwin svc deviceId"

definition IotHubController_getReportedProperties :: "('w, 'q) IotHubService \<Rightarrow> jstring \<Rightarrow> ('w, jval) call" where
  "IotHubController_getReportedProperties svc deviceId = getTwinReportedProperties svc deviceId"

definition IotHubController_updateDesiredProperties ::
  "('w, 'q) IotHubService \<Rightarrow> jstring \<Rightarrow> jval \<Rightarrow> ('w, twin) call" where
  "IotHubController_updateDesiredProperties svc deviceId desiredProperties =
     updateTwinDesiredProperties svc deviceId desiredProperties"

definition IotHubController_addJob :: "('w, 'q) IotHubService \<Rightarrow> jstring \<Rightarrow> jval \<Rightarrow> ('w, twin) call" where
  "IotHubController_addJob svc deviceId job = addJobToTwin svc deviceId job"

definition IotHubController_updateTopology ::
  "('w, 'q) IotHubService \<Rightarrow> jstring \<Rightarrow> topology_body \<Rightarrow> ('w, twin) call" where
  "IotHubController_updateTopology svc deviceId body =
     updateTopologyMapping svc deviceId (body_siteId body) (body_nodeMappings body)"

definition IotHubController_updatePolicies ::
  "('w, 'q) IotHubService \<Rightarrow> jstring \<Rightarrow> jval \<Rightarrow> ('w, twin) call" where
  "IotHubController_updatePolicies svc deviceId policies = updateHubPolicies svc deviceId policies"

definition IotHubController_invokeMethod ::
  "('w, 'q) IotHubService \<Rightarrow> jstring \<Rightarrow> method_body \<Rightarrow> ('w, jval) call" where
  "IotHubController_invokeMethod svc deviceId params =
     invokeDeviceMethod svc deviceId (body_methodName params) (body_payload params)"

definition IotHubController_isDeviceConnected :: "('w, 'q) IotHubService \<Rightarrow> jstring \<Rightarrow> ('w, jval) call" where
  "IotHubController_isDeviceConnected svc deviceId =
     await (isDeviceConnected svc deviceId) (\<lambda>connected.
       return (JObj [(js ''deviceId'', JStr deviceId), (js ''connected'', JBool connected)]))"

definition IotHubController_queryDevices ::
  "('w, 'q) IotHubService \<Rightarrow> jstring \<Rightarrow> 'w \<Rightarrow> ((js_error + twin list) \<times> 'w) option" where
  "IotHubController_queryDevices svc query = queryDevices svc query"

section \<open>What the code relies on\<close>

text \<open>The registry keeps \<open>$version\<close> and \<open>$metadata\<close> among the desired properties itself.\<close>

definition own_property :: "jstring \<Rightarrow> bool" where
  "own_property k \<longleftrightarrow> take 1 k \<noteq> [0x24]"

lemma own_jobs [simp]: "own_property (js ''jobs'')"
  by (simp add: own_property_def)

definition desired_get :: "twin \<Rightarrow> jstring \<Rightarrow> jval option" where
  "desired_get tw k = Option.bind (desired tw) (\<lambda>kvs. obj_get kvs k)"

text \<open>
  The documented behaviour of the registry on twins. A request is answered or rejected, as the
  registry decides: the device may be unknown, the document too large, the service throttled or out of
  reach. An answer to a reading is the twin of the device, and reading changes nothing. A
  rejected patch changes nothing; an accepted patch of desired properties with etag \<open>*\<close> is merged property by
  property: an array replaces what was there, a property that is not in the patch or is the
  same in it stays, the registry's own ones apart, and no other device changes.
\<close>

definition patched :: "members \<Rightarrow> twin \<Rightarrow> twin \<Rightarrow> bool" where
  "patched kvs tw tw' \<longleftrightarrow>
     reported tw' = reported tw \<and>
     (\<forall>k vs. own_property k \<and> obj_get kvs k = Some (JArr vs) \<and> json_plain (JArr vs) \<longrightarrow> desired_get tw' k = Some (JArr vs)) \<and>
     (\<forall>k. own_property k \<and> (obj_get kvs k = desired_get tw k \<or> obj_get kvs k = None) \<longrightarrow> desired_get tw' k = desired_get tw k)"

definition sdk_laws :: "('w, 'q) iot_sdk \<Rightarrow> ('w \<Rightarrow> jstring \<Rightarrow> twin option) \<Rightarrow> bool" where
  "sdk_laws sdk twins \<longleftrightarrow>
     (\<forall>w d. case sdk_getTwin sdk d w of
        (Inl e, w') \<Rightarrow> w' = w
      | (Inr tw, w') \<Rightarrow> w' = w \<and> twins w d = Some tw) \<and>
     (\<forall>w d kvs. case sdk_updateTwin sdk d (desired_patch (JObj kvs)) (js ''*'') w of
        (Inl e, w') \<Rightarrow> twins w' = twins w
      | (Inr tw', w') \<Rightarrow> \<exists>tw. twins w d = Some tw \<and> twins w' = (twins w)(d \<mapsto> tw') \<and> patched kvs tw tw')"

lemma sdk_laws_get:
  "sdk_laws sdk twins \<Longrightarrow> sdk_getTwin sdk d w = (Inl e, w') \<Longrightarrow> w' = w"
  "sdk_laws sdk twins \<Longrightarrow> sdk_getTwin sdk d w = (Inr tw, w') \<Longrightarrow> w' = w \<and> twins w d = Some tw"
  unfolding sdk_laws_def by (drule conjunct1, drule spec [of _ w], drule spec [of _ d], simp)+

lemma sdk_laws_update:
  "sdk_laws sdk twins \<Longrightarrow> sdk_updateTwin sdk d (desired_patch (JObj kvs)) (js ''*'') w = (Inl e, w') \<Longrightarrow> twins w' = twins w"
  "sdk_laws sdk twins \<Longrightarrow> sdk_updateTwin sdk d (desired_patch (JObj kvs)) (js ''*'') w = (Inr tw', w') \<Longrightarrow>
     \<exists>tw. twins w d = Some tw \<and> twins w' = (twins w)(d \<mapsto> tw') \<and> patched kvs tw tw'"
  unfolding sdk_laws_def by (drule conjunct2, drule spec [of _ w], drule spec [of _ d], drule spec [of _ kvs], simp)+

text \<open>The job list in a twin, for a twin whose \<open>jobs\<close> property is an array or missing.\<close>

definition twin_jobs :: "twin \<Rightarrow> jval list" where
  "twin_jobs tw = (case desired_get tw (js ''jobs'') of Some (JArr vs) \<Rightarrow> vs | _ \<Rightarrow> [])"

definition jobs_readable :: "twin \<Rightarrow> bool" where
  "jobs_readable tw \<longleftrightarrow> (case desired_get tw (js ''jobs'') of None \<Rightarrow> True | Some (JArr vs) \<Rightarrow> True | _ \<Rightarrow> False)"

lemma with_job_readable:
  "jobs_readable tw \<Longrightarrow> with_job tw job =
     Inr (JObj (obj_put (spread_object (desired tw)) (js ''jobs'') (JArr (twin_jobs tw @ [job]))))"
  by (auto simp: with_job_def jobs_readable_def twin_jobs_def or_else_def truthy_opt_def
      desired_get_def spread_array_def split: option.splits jval.splits)

lemma obj_get_spread [simp]: "obj_get (spread_object (desired tw)) = desired_get tw"
  by (auto simp: spread_object_def desired_get_def obj_get_def split: option.split)

text \<open>The two halves of the addition of a job, as other requests can see them.\<close>

definition addJob_write :: "('w, 'q) IotHubService \<Rightarrow> jstring \<Rightarrow> jval \<Rightarrow> twin \<Rightarrow> ('w, twin) call" where
  "addJob_write svc deviceId job tw =
     await (lift (with_job tw job)) (\<lambda>props. updateTwinDesiredProperties svc deviceId props)"

lemma addJobToTwin_split:
  "addJobToTwin svc deviceId job = await (getDeviceTwin svc deviceId) (addJob_write svc deviceId job)"
  by (simp add: addJobToTwin_def addJob_write_def [abs_def] call_simps)

section \<open>The contract of the job channel\<close>

text \<open>
  What the jobs component relies on: if the addition of a sendable job to a ready device is accepted, the job is
  appended to the list of that device, and the other devices' lists and every device's
  readiness are left alone; if it is rejected, all of them are.
\<close>

text \<open>One job after the other, whether or not those before were accepted: the accepted ones.\<close>

fun send_all :: "('j \<Rightarrow> ('w, 'r) call) \<Rightarrow> 'j list \<Rightarrow> 'w \<Rightarrow> 'j list \<times> 'w" where
  "send_all add [] w = ([], w)"
| "send_all add (j # jobs) w =
     (case add j w of
        (Inl e, w') \<Rightarrow> send_all add jobs w'
      | (Inr r, w') \<Rightarrow> (let (accepted, w'') = send_all add jobs w' in (j # accepted, w'')))"

locale job_channel =
  fixes add :: "'d \<Rightarrow> 'j \<Rightarrow> ('w, 'r) call"
    and jobs_of :: "'w \<Rightarrow> 'd \<Rightarrow> 'j list"
    and ready :: "'w \<Rightarrow> 'd \<Rightarrow> bool"
    and sendable :: "'j \<Rightarrow> bool"
  assumes add_accepted: "ready w d \<Longrightarrow> sendable j \<Longrightarrow> add d j w = (Inr r, w') \<Longrightarrow>
      jobs_of w' = (jobs_of w)(d := jobs_of w d @ [j]) \<and> ready w' = ready w"
    and add_rejected: "add d j w = (Inl e, w') \<Longrightarrow> jobs_of w' = jobs_of w \<and> ready w' = ready w"
begin

text \<open>The accepted jobs arrive in the order in which they were added.\<close>

lemma add_list:
  assumes "ready w d" and "list_all sendable xs" and "send_all (add d) xs w = (accepted, w')"
  shows "jobs_of w' = (jobs_of w)(d := jobs_of w d @ accepted) \<and> ready w' = ready w \<and> subseq accepted xs"
  using assms
proof (induction xs arbitrary: w accepted)
  case (Cons j xs)
  obtain res w1 where a: "add d j w = (res, w1)" by fastforce
  show ?case
  proof (cases res)
    case (Inl e)
    with a add_rejected have "jobs_of w1 = jobs_of w" "ready w1 = ready w" by blast+
    with Cons a Inl show ?thesis using Cons.IH [of w1 accepted] by (auto intro: subseq_Cons')
  next
    case (Inr r)
    obtain rest where rest: "send_all (add d) xs w1 = (rest, w')" "accepted = j # rest"
      using Cons.prems(3) a Inr by (auto split: prod.splits)
    have "jobs_of w1 = (jobs_of w)(d := jobs_of w d @ [j])" "ready w1 = ready w"
      using add_accepted [of w d j r w1] Cons.prems(1,2) a Inr by simp_all
    with rest Cons.prems Cons.IH [of w1 rest] show ?thesis by (simp add: fun_eq_iff)
  qed
qed simp

end

definition device_jobs :: "(jstring \<Rightarrow> twin option) \<Rightarrow> jstring \<Rightarrow> jval list" where
  "device_jobs tws d = (case tws d of None \<Rightarrow> [] | Some tw \<Rightarrow> twin_jobs tw)"

definition device_ready :: "(jstring \<Rightarrow> twin option) \<Rightarrow> jstring \<Rightarrow> bool" where
  "device_ready tws d \<longleftrightarrow>
     (case tws d of None \<Rightarrow> False | Some tw \<Rightarrow> jobs_readable tw \<and> list_all json_plain (twin_jobs tw))"

text \<open>A registry that behaves as documented provides the channel through the service.\<close>

locale iot_registry =
  fixes sdk :: "('w, 'q) iot_sdk"
    and twins :: "'w \<Rightarrow> jstring \<Rightarrow> twin option"
  assumes laws: "sdk_laws sdk twins"
begin

lemma get_answered: "getDeviceTwin (Some sdk) d w = (Inr tw, w') \<Longrightarrow> w' = w \<and> twins w d = Some tw"
  using sdk_laws_get(2) [OF laws, of d w]
  by (auto simp: getDeviceTwin_def using_sdk_def call_simps split: prod.splits sum.splits)

lemma get_rejected: "getDeviceTwin (Some sdk) d w = (Inl e, w') \<Longrightarrow> w' = w"
  using sdk_laws_get(1) [OF laws, of d w]
  by (auto simp: getDeviceTwin_def using_sdk_def call_simps split: prod.splits sum.splits)

lemma get_unknown: "twins w d = None \<Longrightarrow> \<exists>e. getDeviceTwin (Some sdk) d w = (Inl e, w)"
  using get_answered [of d w] get_rejected [of d w] by (cases "getDeviceTwin (Some sdk) d w"; cases "fst (getDeviceTwin (Some sdk) d w)") auto

lemma update_accepted:
  "updateTwinDesiredProperties (Some sdk) d (JObj kvs) w = (Inr tw', w') \<Longrightarrow>
     \<exists>tw. twins w d = Some tw \<and> twins w' = (twins w)(d \<mapsto> tw') \<and> patched kvs tw tw'"
  using sdk_laws_update(2) [OF laws, of d kvs w]
  by (auto simp: updateTwinDesiredProperties_def using_sdk_def call_simps split: prod.splits sum.splits)

lemma update_rejected:
  "updateTwinDesiredProperties (Some sdk) d (JObj kvs) w = (Inl e, w') \<Longrightarrow> twins w' = twins w"
  using sdk_laws_update(1) [OF laws, of d kvs w]
  by (auto simp: updateTwinDesiredProperties_def using_sdk_def call_simps split: prod.splits sum.splits)

lemma write_rejected:
  assumes "addJob_write (Some sdk) d job tw w = (Inl e, w')"
  shows "twins w' = twins w"
proof (cases "with_job tw job")
  case (Inl e)
  with assms show ?thesis by (simp add: addJob_write_def await_def lift_def)
next
  case (Inr props)
  then obtain kvs where "props = JObj kvs" by (auto simp: with_job_def bind_def split: sum.splits)
  with assms Inr update_rejected show ?thesis by (auto simp: addJob_write_def await_def lift_def)
qed

lemma write_accepted:
  assumes "addJob_write (Some sdk) d job tw w = (Inr tw', w')"
    and "jobs_readable tw" "list_all json_plain (twin_jobs tw)" "json_plain job"
  obtains cur where "twins w d = Some cur" "twins w' = (twins w)(d \<mapsto> tw')"
    "desired_get tw' (js ''jobs'') = Some (JArr (twin_jobs tw @ [job]))" "reported tw' = reported cur"
    "\<And>k. k \<noteq> js ''jobs'' \<Longrightarrow> own_property k \<Longrightarrow> desired_get tw k = desired_get cur k \<Longrightarrow> desired_get tw' k = desired_get cur k"
proof -
  let ?kvs = "obj_put (spread_object (desired tw)) (js ''jobs'') (JArr (twin_jobs tw @ [job]))"
  have "updateTwinDesiredProperties (Some sdk) d (JObj ?kvs) w = (Inr tw', w')"
    using assms(1,2) by (simp add: addJob_write_def with_job_readable await_def lift_def)
  then obtain cur where cur: "twins w d = Some cur" "twins w' = (twins w)(d \<mapsto> tw')" and p: "patched ?kvs cur tw'"
    using update_accepted by blast
  show thesis
  proof (rule that [OF cur])
    show "desired_get tw' (js ''jobs'') = Some (JArr (twin_jobs tw @ [job]))"
    proof -
      have "own_property k \<and> obj_get ?kvs k = Some (JArr vs) \<and> json_plain (JArr vs) \<longrightarrow> desired_get tw' k = Some (JArr vs)" for k vs
        using p unfolding patched_def by blast
      from this [of "js ''jobs''" "twin_jobs tw @ [job]"] show ?thesis
        using assms(3,4) by (simp del: js_simps)
    qed
    show "reported tw' = reported cur" using p by (simp add: patched_def)
    show "desired_get tw' k = desired_get cur k"
      if "k \<noteq> js ''jobs''" "own_property k" "desired_get tw k = desired_get cur k" for k
      using p that by (simp add: patched_def)
  qed
qed

lemma add_split_accepted:
  assumes "addJobToTwin (Some sdk) d job w = (Inr tw', w')"
  obtains tw where "twins w d = Some tw" "addJob_write (Some sdk) d job tw w = (Inr tw', w')"
  using assms get_answered [of d w]
  by (cases "getDeviceTwin (Some sdk) d w"; cases "fst (getDeviceTwin (Some sdk) d w)")
     (auto simp: addJobToTwin_split await_def)

lemma add_keeps_twins:
  assumes "addJobToTwin (Some sdk) d job w = (Inl e, w')"
  shows "twins w' = twins w"
  using assms get_answered [of d w] get_rejected [of d w] write_rejected
  by (cases "getDeviceTwin (Some sdk) d w"; cases "fst (getDeviceTwin (Some sdk) d w)")
     (auto simp: addJobToTwin_split await_def)

lemma add_accepted:
  assumes "addJobToTwin (Some sdk) d job w = (Inr tw', w')" and "twins w d = Some tw"
    and "jobs_readable tw" "list_all json_plain (twin_jobs tw)" "json_plain job"
  shows "twins w' = (twins w)(d \<mapsto> tw') \<and> desired_get tw' (js ''jobs'') = Some (JArr (twin_jobs tw @ [job])) \<and>
    reported tw' = reported tw \<and> (\<forall>k. own_property k \<longrightarrow> k \<noteq> js ''jobs'' \<longrightarrow> desired_get tw' k = desired_get tw k)"
proof (rule add_split_accepted [OF assms(1)])
  fix tw1 assume "twins w d = Some tw1" "addJob_write (Some sdk) d job tw1 w = (Inr tw', w')"
  with assms(2) have "addJob_write (Some sdk) d job tw w = (Inr tw', w')" by simp
  then show ?thesis by (rule write_accepted [OF _ assms(3-5)]) (use assms(2) in simp)
qed

end

sublocale iot_registry \<subseteq> channel: job_channel "addJobToTwin (Some sdk)" "\<lambda>w. device_jobs (twins w)"
    "\<lambda>w. device_ready (twins w)" json_plain
proof
  fix w w' d job r
  assume "device_ready (twins w) d" and job: "json_plain job" and a: "addJobToTwin (Some sdk) d job w = (Inr r, w')"
  then obtain tw where tw: "twins w d = Some tw" "jobs_readable tw" "list_all json_plain (twin_jobs tw)"
    by (auto simp: device_ready_def split: option.splits)
  have p: "twins w' = (twins w)(d \<mapsto> r)" "desired_get r (js ''jobs'') = Some (JArr (twin_jobs tw @ [job]))"
    using add_accepted [OF a tw job] by blast+
  then have "twin_jobs r = twin_jobs tw @ [job]" "jobs_readable r"
    by (simp_all add: twin_jobs_def jobs_readable_def)
  then show "device_jobs (twins w') = (device_jobs (twins w))(d := device_jobs (twins w) d @ [job]) \<and>
      device_ready (twins w') = device_ready (twins w)"
    using p(1) tw job by (auto simp: fun_eq_iff device_jobs_def device_ready_def)
qed (simp add: add_keeps_twins)

context iot_registry begin

lemma add_jobs:
  assumes "device_ready (twins w) d" and "list_all json_plain jobs"
    and "send_all (addJobToTwin (Some sdk) d) jobs w = (accepted, w')"
  shows "device_jobs (twins w') = (device_jobs (twins w))(d := device_jobs (twins w) d @ accepted) \<and> subseq accepted jobs"
  using channel.add_list [OF assms] by blast

end

section \<open>A registry in memory\<close>

text \<open>
  A concrete registry that behaves as documented, over any state that holds the twins: the
  parameter of the model made concrete.
\<close>

definition patch_members :: "jval \<Rightarrow> members" where
  "patch_members patch =
     (case patch of
        JObj [(_, JObj [(_, JObj kvs)])] \<Rightarrow> kvs
      | _ \<Rightarrow> [])"

definition merge_members :: "members \<Rightarrow> members \<Rightarrow> members" where
  "merge_members kvs old = foldr (\<lambda>(k, v) kvs'. obj_put kvs' k v) kvs old"

lemma obj_get_merge:
  "obj_get (merge_members kvs old) k = (case obj_get kvs k of None \<Rightarrow> obj_get old k | Some v \<Rightarrow> Some v)"
proof (induction kvs)
  case (Cons kv kvs)
  then show ?case by (cases kv) (simp add: merge_members_def, simp add: obj_get_def)
qed (simp add: merge_members_def obj_get_def)

definition memory_sdk ::
  "('w \<Rightarrow> jstring \<Rightarrow> twin option) \<Rightarrow> ((jstring \<Rightarrow> twin option) \<Rightarrow> 'w \<Rightarrow> 'w) \<Rightarrow> ('w, unit) iot_sdk" where
  "memory_sdk twins set_twins = \<lparr>
     sdk_getTwin = (\<lambda>d w. case twins w d of None \<Rightarrow> (Inl (Error (js ''Device not found'')), w) | Some tw \<Rightarrow> (Inr tw, w)),
     sdk_updateTwin = (\<lambda>d patch etag w. case twins w d of
         None \<Rightarrow> (Inl (Error (js ''Device not found'')), w)
       | Some tw \<Rightarrow>
           (let tw' = tw \<lparr> desired := Some (merge_members (patch_members patch) (spread_object (desired tw))) \<rparr>
            in (Inr tw', set_twins ((twins w)(d \<mapsto> tw')) w))),
     sdk_invokeDeviceMethod = (\<lambda>d params. throw (Error (js ''Device not online''))),
     sdk_send = (\<lambda>d msg. return ()),
     sdk_createQuery = (\<lambda>query. return ()),
     sdk_hasMoreResults = (\<lambda>q w. False),
     sdk_nextAsTwin = (\<lambda>q. return \<lparr> responseBody = [] \<rparr>) \<rparr>"

lemma memory_sdk_laws:
  assumes "\<And>tws w. twins (set_twins tws w) = tws"
  shows "sdk_laws (memory_sdk twins set_twins) twins"
  unfolding sdk_laws_def
  by (auto simp: memory_sdk_def assms patched_def patch_members_def desired_patch_def desired_get_def
      obj_get_merge Let_def split: option.split)

lemma memory_get:
  "twins w d = Some tw \<Longrightarrow> getDeviceTwin (Some (memory_sdk twins set_twins)) d w = (Inr tw, w)"
  by (simp add: getDeviceTwin_def using_sdk_def memory_sdk_def call_simps)

lemma memory_write:
  "twins w d \<noteq> None \<Longrightarrow> jobs_readable tw \<Longrightarrow>
     \<exists>tw' w'. addJob_write (Some (memory_sdk twins set_twins)) d job tw w = (Inr tw', w')"
  by (auto simp: addJob_write_def with_job_readable lift_def await_def updateTwinDesiredProperties_def using_sdk_def
      memory_sdk_def call_simps Let_def)

lemma memory_add:
  "twins w d = Some tw \<Longrightarrow> jobs_readable tw \<Longrightarrow>
     \<exists>tw' w'. addJobToTwin (Some (memory_sdk twins set_twins)) d job w = (Inr tw', w')"
  using memory_write [of twins w d tw set_twins job] by (simp add: addJobToTwin_split await_def memory_get)

interpretation memory: iot_registry "memory_sdk id (\<lambda>tws w. tws)" id
  by unfold_locales (rule memory_sdk_laws, simp)

section \<open>Properties\<close>

text \<open>
  If the registry accepts the addition of a job to a hub whose job list is well formed, the job is appended to
  that hub's desired jobs, the other desired properties (but for the registry's own) and the reported ones are kept, and no
  other hub's twin changes.
\<close>

theorem addJobToTwin_appends:
  assumes "sdk_laws sdk twins" and "addJobToTwin (Some sdk) d job w = (Inr tw', w')" and "twins w d = Some tw"
    and "jobs_readable tw" and "list_all json_plain (job # twin_jobs tw)"
  shows "twins w' = (twins w)(d \<mapsto> tw') \<and> twin_jobs tw' = twin_jobs tw @ [job] \<and> reported tw' = reported tw \<and>
    (\<forall>k. own_property k \<longrightarrow> desired_get tw' k = ((desired_get tw)(js ''jobs'' \<mapsto> JArr (twin_jobs tw @ [job]))) k)"
proof -
  have plain: "list_all json_plain (twin_jobs tw)" "json_plain job" using assms(5) by simp_all
  note a = iot_registry.add_accepted [OF iot_registry.intro [OF assms(1)] assms(2-4) plain]
  then have "twin_jobs tw' = twin_jobs tw @ [job]" by (simp add: twin_jobs_def)
  moreover have "\<forall>k. own_property k \<longrightarrow> desired_get tw' k = ((desired_get tw)(js ''jobs'' \<mapsto> JArr (twin_jobs tw @ [job]))) k"
    using a by (simp del: js_simps)
  ultimately show ?thesis using a by blast
qed

text \<open>
  C17: Jobs added one after the other to a ready hub arrive in order and change no other hub's list: those whose
  addition the registry accepted, and only those, also when it rejects some of them in between.
\<close>

theorem jobs_arrive_in_order:
  assumes "sdk_laws sdk twins" and "device_ready (twins w) d" and "list_all json_plain jobs"
    and "send_all (addJobToTwin (Some sdk) d) jobs w = (accepted, w')"
  shows "device_jobs (twins w') = (device_jobs (twins w))(d := device_jobs (twins w) d @ accepted) \<and> subseq accepted jobs"
  using iot_registry.add_jobs [OF iot_registry.intro [OF assms(1)] assms(2-4)] .

definition sample_twin :: twin where
  "sample_twin = \<lparr> desired = Some [(js ''jobs'', JArr [JStr (js ''j0'')]), (js ''policies'', JBool True)],
     reported = JObj [], connectionState = js ''Connected'' \<rparr>"

lemma sample_twin_jobs: "twin_jobs sample_twin = [JStr (js ''j0'')]" "jobs_readable sample_twin"
  by (simp_all add: sample_twin_def twin_jobs_def jobs_readable_def desired_get_def obj_get_def)

theorem addJobToTwin_appends_witness:
  "\<exists>tw' w'. addJobToTwin (Some (memory_sdk id (\<lambda>tws w. tws))) (js ''hub-1'') (JStr (js ''j1''))
       [js ''hub-1'' \<mapsto> sample_twin] = (Inr tw', w') \<and>
     w' = [js ''hub-1'' \<mapsto> tw'] \<and> twin_jobs tw' = [JStr (js ''j0''), JStr (js ''j1'')]"
proof -
  have known: "id [js ''hub-1'' \<mapsto> sample_twin] (js ''hub-1'') = Some sample_twin" by simp
  obtain tw' w' where a: "addJobToTwin (Some (memory_sdk id (\<lambda>tws w. tws))) (js ''hub-1'') (JStr (js ''j1''))
      [js ''hub-1'' \<mapsto> sample_twin] = (Inr tw', w')"
    using memory_add [of id _ "js ''hub-1''", OF known sample_twin_jobs(2)] by blast
  have "list_all json_plain (JStr (js ''j1'') # twin_jobs sample_twin)" by (simp add: sample_twin_jobs)
  from addJobToTwin_appends [where twins = id, OF memory.laws a known sample_twin_jobs(2) this]
  have "w' = [js ''hub-1'' \<mapsto> tw']" "twin_jobs tw' = [JStr (js ''j0''), JStr (js ''j1'')]"
    by (simp_all add: sample_twin_jobs(1) del: js_simps)
  with a show ?thesis by blast
qed

theorem jobs_arrive_in_order_witness:
  "\<exists>w'. send_all (addJobToTwin (Some (memory_sdk id (\<lambda>tws w. tws))) (js ''hub-1''))
       [JStr (js ''j1''), JStr (js ''j2'')] [js ''hub-1'' \<mapsto> sample_twin] = ([JStr (js ''j1''), JStr (js ''j2'')], w') \<and>
     device_jobs w' (js ''hub-1'') = [JStr (js ''j0''), JStr (js ''j1''), JStr (js ''j2'')]"
proof -
  let ?add = "addJobToTwin (Some (memory_sdk id (\<lambda>tws w. tws))) (js ''hub-1'')"
  let ?w = "[js ''hub-1'' \<mapsto> sample_twin]" and ?jobs = "[JStr (js ''j1''), JStr (js ''j2'')]"
  have ready: "device_ready (id ?w) (js ''hub-1'')" by (simp add: device_ready_def sample_twin_jobs)
  have accepts: "\<exists>r w1. ?add j w = (Inr r, w1)" if "device_ready (id w) (js ''hub-1'')" for j w
    using that memory_add [of id w "js ''hub-1''"] by (fastforce simp: device_ready_def split: option.splits)
  obtain r1 w1 where 1: "?add (JStr (js ''j1'')) ?w = (Inr r1, w1)" using accepts [OF ready] by blast
  have "device_ready (id w1) (js ''hub-1'')"
    using memory.channel.add_accepted [OF ready _ 1] ready by simp
  then obtain r2 w2 where 2: "?add (JStr (js ''j2'')) w1 = (Inr r2, w2)" using accepts by blast
  have s: "send_all ?add ?jobs ?w = (?jobs, w2)" using 1 2 by simp
  have start: "device_jobs (id ?w) (js ''hub-1'') = [JStr (js ''j0'')]"
    by (simp add: device_jobs_def sample_twin_jobs)
  have plain: "list_all json_plain ?jobs" by simp
  have "device_jobs (id w2) (js ''hub-1'') = device_jobs (id ?w) (js ''hub-1'') @ ?jobs"
    using jobs_arrive_in_order [OF memory.laws ready plain s] by (simp only: fun_upd_same)
  then have "device_jobs w2 (js ''hub-1'') = [JStr (js ''j0''), JStr (js ''j1''), JStr (js ''j2'')]"
    unfolding start by (simp only: id_apply append.simps)
  then show ?thesis using s by (intro exI [of _ w2]) (simp del: js_simps send_all.simps)
qed

text \<open>
  C37: The addition of a job is not atomic: if two requests read the twin of a hub before either
  writes it and both are answered with success, the job of the request that writes first is lost.
\<close>

theorem concurrent_jobs_lost:
  assumes "sdk_laws sdk twins" and "getDeviceTwin (Some sdk) d w = (Inr tw, w')"
    and "jobs_readable tw" and "list_all json_plain (job1 # job2 # twin_jobs tw)"
    and "addJob_write (Some sdk) d job1 tw w' = (Inr tw1, w1)" and "addJob_write (Some sdk) d job2 tw w1 = (Inr tw2, w2)"
  shows "device_jobs (twins w1) d = twin_jobs tw @ [job1] \<and> device_jobs (twins w2) d = twin_jobs tw @ [job2]"
proof -
  have arrives: "device_jobs (twins w2) d = twin_jobs tw @ [job]"
    if "addJob_write (Some sdk) d job tw w1 = (Inr tw2, w2)" "json_plain job" for job w1 tw2 w2
  proof -
    have plain: "list_all json_plain (twin_jobs tw)" using assms(4) by simp
    show ?thesis
      by (rule iot_registry.write_accepted [OF iot_registry.intro [OF assms(1)] that(1) assms(3) plain that(2)])
         (simp add: device_jobs_def twin_jobs_def)
  qed
  show ?thesis using arrives [OF assms(5)] arrives [OF assms(6)] assms(4) by simp
qed

theorem concurrent_jobs_lost_witness:
  "\<exists>tw1 w1 tw2 w2. addJob_write (Some (memory_sdk id (\<lambda>tws w. tws))) (js ''hub-1'') (JStr (js ''j1'')) sample_twin
       [js ''hub-1'' \<mapsto> sample_twin] = (Inr tw1, w1) \<and>
     addJob_write (Some (memory_sdk id (\<lambda>tws w. tws))) (js ''hub-1'') (JStr (js ''j2'')) sample_twin w1 = (Inr tw2, w2) \<and>
     device_jobs w2 (js ''hub-1'') = [JStr (js ''j0''), JStr (js ''j2'')]"
proof -
  let ?sdk = "memory_sdk id (\<lambda>tws w. tws)" and ?h = "js ''hub-1''"
  let ?w = "[?h \<mapsto> sample_twin]"
  have get: "getDeviceTwin (Some ?sdk) ?h ?w = (Inr sample_twin, ?w)" by (rule memory_get) simp
  obtain tw1 w1 where 1: "addJob_write (Some ?sdk) ?h (JStr (js ''j1'')) sample_twin ?w = (Inr tw1, w1)"
    using memory_write [of id ?w ?h, OF _ sample_twin_jobs(2)] by fastforce
  have plain: "list_all json_plain (twin_jobs sample_twin)" "json_plain (JStr (js ''j1''))" by (simp_all add: sample_twin_jobs)
  have known: "id w1 ?h \<noteq> None"
    by (rule memory.write_accepted [OF 1 sample_twin_jobs(2) plain]) (simp del: js_simps)
  obtain tw2 w2 where 2: "addJob_write (Some ?sdk) ?h (JStr (js ''j2'')) sample_twin w1 = (Inr tw2, w2)"
    using memory_write [of id, OF known sample_twin_jobs(2)] by blast
  have "list_all json_plain (JStr (js ''j1'') # JStr (js ''j2'') # twin_jobs sample_twin)" by (simp add: sample_twin_jobs)
  from concurrent_jobs_lost [where twins = id, OF memory.laws get sample_twin_jobs(2) this 1 2]
  have "device_jobs w2 ?h = [JStr (js ''j0''), JStr (js ''j2'')]" by (simp add: sample_twin_jobs(1) del: js_simps)
  with 1 2 show ?thesis by blast
qed

text \<open>
  Without a connection string every operation of the service is rejected with a TypeError and
  changes nothing, except the connection check, which answers false.
\<close>

theorem unconfigured_service:
  "let svc = IotHubService_new from_connection_string None in
     getDeviceTwin svc d w = (Inl unconfigured, w) \<and>
     updateTwinDesiredProperties svc d props w = (Inl unconfigured, w) \<and>
     getTwinReportedProperties svc d w = (Inl unconfigured, w) \<and>
     addJobToTwin svc d job w = (Inl unconfigured, w) \<and>
     updateTopologyMapping svc d siteId nodeMappings w = (Inl unconfigured, w) \<and>
     updateHubPolicies svc d policies w = (Inl unconfigured, w) \<and>
     invokeDeviceMethod svc d methodName body w = (Inl unconfigured, w) \<and>
     sendC2DMessage svc now d msg w = (Inl unconfigured, w) \<and>
     queryDevices svc query w = Some (Inl unconfigured, w) \<and>
     getHubsByTag svc tagName tagValue w = Some (Inl unconfigured, w) \<and>
     isDeviceConnected svc d w = (Inr False, w)"
  by (simp add: IotHubService_new_def truthy_text_def getDeviceTwin_def updateTwinDesiredProperties_def
      getTwinReportedProperties_def addJobToTwin_def updateTopologyMapping_def updateHubPolicies_def
      invokeDeviceMethod_def sendC2DMessage_def queryDevices_def getHubsByTag_def isDeviceConnected_def
      using_sdk_def call_simps)



text \<open>
  The tag query does not protect its values: a tag value that contains a quote closes the
  literal, so the query for \<open>v'rest\<close> is the query for \<open>v\<close> followed by the text \<open>rest\<close> as query
  language. For a fixed tag name, different values still give different queries.
\<close>

theorem tag_query_injection:
  "hubs_by_tag_query tagName (v @ [39] @ rest) = hubs_by_tag_query tagName v @ rest @ [39] \<and>
   (hubs_by_tag_query tagName v = hubs_by_tag_query tagName v' \<longleftrightarrow> v = v')"
  by (simp add: hubs_by_tag_query_def)

end
