(* ===== verification/Jobs.thy ===== *)
theory Jobs
  imports IotHub
begin

text \<open>
  \<open>src/backend/api/src/modules/jobs\<close>: the job entity, the service that creates jobs, sends them
  to hubs and follows their status, and the controller. The repository (TypeORM over Postgres)
  is a parameter; the theory JobStore states what is relied on.
\<close>

text \<open>String literals stay folded from here on; \<open>js_inj\<close> compares them.\<close>

declare js_simps [simp del]

section \<open>The entity\<close>

definition job_types :: "jstring list" where
  "job_types = map js [''push_node_config'', ''pull_node_diagnostics'', ''trigger_node_maintenance'',
     ''update_hub_firmware'', ''export_support_package'']"

definition job_statuses :: "jstring list" where
  "job_statuses = map js [''queued'', ''running'', ''succeeded'', ''failed'', ''timeout'', ''cancelled'']"

text \<open>Nullable columns, and those the database generates, are options.\<close>

record Job =
  job_id :: "jstring option"
  job_type :: "jstring option"
  hubId :: "jstring option"
  nodeId :: "jstring option"
  job_payload :: "jval option"
  status :: jstring
  startedAt :: "date option"
  completedAt :: "date option"
  timeoutSeconds :: "js_number option"
  errorCode :: "jstring option"
  errorMessage :: "jstring option"
  job_result :: "jval option"
  createdBy :: "jstring option"
  createdAt :: date
  updatedAt :: "date option"

text \<open>A \<open>where\<close> object: a criterion that is missing or \<open>undefined\<close> is not applied.\<close>

record job_where =
  where_id :: "jstring option"
  where_hubId :: "jstring option"
  where_status :: "jstring option"

definition where_all :: job_where where
  "where_all = \<lparr> where_id = None, where_hubId = None, where_status = None \<rparr>"

text \<open>The repository: \<open>repo_find\<close> orders by \<open>createdAt\<close>, newest first, as every caller asks.\<close>

record 'w job_repo =
  repo_create :: "Job \<Rightarrow> Job"
  repo_save :: "Job \<Rightarrow> ('w, Job) call"
  repo_findOne :: "job_where \<Rightarrow> ('w, Job option) call"
  repo_find :: "job_where \<Rightarrow> ('w, Job list) call"
  repo_count :: "job_where \<Rightarrow> ('w, nat) call"
  repo_deleteCompleted :: "jstring list \<Rightarrow> date \<Rightarrow> ('w, nat option) call"

section \<open>Creating and sending\<close>

definition number_or :: "js_number option \<Rightarrow> js_number \<Rightarrow> js_number" where
  "number_or x d = (if truthy_opt (map_option JNum x) then the x else d)"

text \<open>The job has been saved: nullable columns without a value are \<open>null\<close> then.\<close>

definition or_null :: "('a \<Rightarrow> jval) \<Rightarrow> 'a option \<Rightarrow> jval" where
  "or_null f x = (case x of None \<Rightarrow> JNull | Some a \<Rightarrow> f a)"

definition job_message :: "Job \<Rightarrow> jval" where
  "job_message job =
     object_literal [
       (''jobId'', map_option JStr (job_id job)),
       (''type'', map_option JStr (job_type job)),
       (''targetNodeId'', Some (or_null JStr (nodeId job))),
       (''payload'', Some (or_null id (job_payload job))),
       (''createdAt'', Some (JStr (toISOString (createdAt job)))),
       (''timeoutSeconds'', Some (JNum (number_or (timeoutSeconds job) (num_of_int 300))))]"

definition sendJobToHub :: "('w, 'q) IotHubService \<Rightarrow> Job \<Rightarrow> ('w, unit) call" where
  "sendJobToHub iotHub job =
     await (addJobToTwin iotHub (the (hubId job)) (job_message job)) (\<lambda>tw. return ())"

text \<open>\<open>jobData\<close> is a partial job: its own \<open>status\<close> and \<open>createdAt\<close> are overridden.\<close>

definition createJob ::
  "'w job_repo \<Rightarrow> ('w, 'q) IotHubService \<Rightarrow> date \<Rightarrow> Job \<Rightarrow> ('w, Job) call" where
  "createJob repo iotHub now jobData =
     (let job = repo_create repo (jobData \<lparr> status := js ''queued'', createdAt := now \<rparr>) in
      await (repo_save repo job) (\<lambda>savedJob.
        if truthy_text (hubId savedJob) then
          try_catch
            (await (sendJobToHub iotHub savedJob) (\<lambda>_. return savedJob))
            (\<lambda>error. repo_save repo
               (savedJob \<lparr> status := js ''failed'', errorMessage := Some (message error) \<rparr>))
        else return savedJob))"

section \<open>Finding\<close>

definition findJobById :: "'w job_repo \<Rightarrow> jstring option \<Rightarrow> ('w, Job option) call" where
  "findJobById repo i = repo_findOne repo (where_all \<lparr> where_id := i \<rparr>)"

definition findJobsByHub :: "'w job_repo \<Rightarrow> jstring \<Rightarrow> ('w, Job list) call" where
  "findJobsByHub repo hub = repo_find repo (where_all \<lparr> where_hubId := Some hub \<rparr>)"

definition findJobsByStatus :: "'w job_repo \<Rightarrow> jstring \<Rightarrow> ('w, Job list) call" where
  "findJobsByStatus repo st = repo_find repo (where_all \<lparr> where_status := Some st \<rparr>)"

section \<open>Status updates\<close>

text \<open>The clock is read once for \<open>updatedAt\<close> (\<open>now 0\<close>) and at most once more (\<open>now 1\<close>).\<close>

definition job_not_found :: "jstring option \<Rightarrow> js_error" where
  "job_not_found i =
     Error (js ''Job '' @ (case i of None \<Rightarrow> js ''undefined'' | Some s \<Rightarrow> s) @ js '' not found'')"

definition with_status ::
  "(nat \<Rightarrow> date) \<Rightarrow> Job \<Rightarrow> jstring \<Rightarrow> jstring option \<Rightarrow> jstring option \<Rightarrow> jval option \<Rightarrow> Job" where
  "with_status now job st errCode errMessage res =
     (let job = job \<lparr> status := st, updatedAt := Some (now 0) \<rparr>;
          job = (if st = js ''running'' \<and> startedAt job = None then job \<lparr> startedAt := Some (now 1) \<rparr> else job);
          job = (if st = js ''succeeded'' \<or> st = js ''failed'' \<or> st = js ''timeout''
                 then job \<lparr> completedAt := Some (now 1) \<rparr> else job);
          job = (if truthy_text errCode then job \<lparr> errorCode := errCode \<rparr> else job);
          job = (if truthy_text errMessage then job \<lparr> errorMessage := errMessage \<rparr> else job);
          job = (if truthy_opt res then job \<lparr> job_result := res \<rparr> else job)
      in job)"

lemma with_status_fields [simp]:
  "job_id (with_status now job st ec em res) = job_id job"
  "job_type (with_status now job st ec em res) = job_type job"
  "hubId (with_status now job st ec em res) = hubId job"
  "nodeId (with_status now job st ec em res) = nodeId job"
  "job_payload (with_status now job st ec em res) = job_payload job"
  "status (with_status now job st ec em res) = st"
  "startedAt (with_status now job st ec em res) =
     (if st = js ''running'' \<and> startedAt job = None then Some (now 1) else startedAt job)"
  "completedAt (with_status now job st ec em res) =
     (if st = js ''succeeded'' \<or> st = js ''failed'' \<or> st = js ''timeout'' then Some (now 1) else completedAt job)"
  "timeoutSeconds (with_status now job st ec em res) = timeoutSeconds job"
  "errorCode (with_status now job st ec em res) = (if truthy_text ec then ec else errorCode job)"
  "errorMessage (with_status now job st ec em res) = (if truthy_text em then em else errorMessage job)"
  "job_result (with_status now job st ec em res) = (if truthy_opt res then res else job_result job)"
  "createdBy (with_status now job st ec em res) = createdBy job"
  "createdAt (with_status now job st ec em res) = createdAt job"
  "updatedAt (with_status now job st ec em res) = Some (now 0)"
  by (auto simp: with_status_def Let_def)

definition updateJobStatus ::
  "'w job_repo \<Rightarrow> (nat \<Rightarrow> date) \<Rightarrow> jstring option \<Rightarrow> jstring \<Rightarrow> jstring option \<Rightarrow> jstring option \<Rightarrow>
   jval option \<Rightarrow> ('w, Job) call" where
  "updateJobStatus repo now i st errCode errMessage res =
     await (findJobById repo i) (\<lambda>found.
       case found of
         None \<Rightarrow> throw (job_not_found i)
       | Some job \<Rightarrow> repo_save repo (with_status now job st errCode errMessage res))"

text \<open>A reported result with a status; the other properties may be missing.\<close>

record job_result_report =
  report_jobId :: "jstring option"
  report_status :: jstring
  report_errorCode :: "jstring option"
  report_errorMessage :: "jstring option"
  report_diagnostics :: "jval option"

text \<open>Destructuring \<open>null\<close> or \<open>undefined\<close> throws outside the \<open>try\<close>.\<close>

definition processJobResult ::
  "'w job_repo \<Rightarrow> (nat \<Rightarrow> date) \<Rightarrow> jstring \<Rightarrow> job_result_report option \<Rightarrow> ('w, unit) call" where
  "processJobResult repo now hub jobResult =
     (case jobResult of
        None \<Rightarrow> throw (TypeError (js ''Cannot destructure property jobId of jobResult''))
      | Some report \<Rightarrow>
          try_catch
            (await (updateJobStatus repo now (report_jobId report) (report_status report)
               (report_errorCode report) (report_errorMessage report) (report_diagnostics report)) (\<lambda>_. return ()))
            (\<lambda>error. return ()))"

definition cancelJob :: "'w job_repo \<Rightarrow> (nat \<Rightarrow> date) \<Rightarrow> jstring option \<Rightarrow> ('w, Job) call" where
  "cancelJob repo now i = updateJobStatus repo now i (js ''cancelled'') None None None"

section \<open>Jobs of a kind\<close>

definition no_job :: Job where
  "no_job = \<lparr> job_id = None, job_type = None, hubId = None, nodeId = None, job_payload = None,
     status = [], startedAt = None, completedAt = None, timeoutSeconds = None, errorCode = None,
     errorMessage = None, job_result = None, createdBy = None, createdAt = 0, updatedAt = None \<rparr>"

definition createPushNodeConfigJob ::
  "'w job_repo \<Rightarrow> ('w, 'q) IotHubService \<Rightarrow> date \<Rightarrow> jstring \<Rightarrow> jstring \<Rightarrow> jval \<Rightarrow> jstring \<Rightarrow> ('w, Job) call" where
  "createPushNodeConfigJob repo iotHub now hub node configuration creator =
     createJob repo iotHub now (no_job \<lparr> job_type := Some (js ''push_node_config''), hubId := Some hub,
       nodeId := Some node, job_payload := Some (JObj [(js ''configuration'', configuration)]),
       createdBy := Some creator, timeoutSeconds := Some (num_of_int 300) \<rparr>)"

definition createPullNodeDiagnosticsJob ::
  "'w job_repo \<Rightarrow> ('w, 'q) IotHubService \<Rightarrow> date \<Rightarrow> jstring \<Rightarrow> jstring \<Rightarrow> jstring \<Rightarrow> ('w, Job) call" where
  "createPullNodeDiagnosticsJob repo iotHub now hub node creator =
     createJob repo iotHub now (no_job \<lparr> job_type := Some (js ''pull_node_diagnostics''), hubId := Some hub,
       nodeId := Some node, job_payload := Some (JObj []), createdBy := Some creator,
       timeoutSeconds := Some (num_of_int 180) \<rparr>)"

definition createFirmwareUpdateJob ::
  "'w job_repo \<Rightarrow> ('w, 'q) IotHubService \<Rightarrow> date \<Rightarrow> jstring \<Rightarrow> jval \<Rightarrow> jstring \<Rightarrow> ('w, Job) call" where
  "createFirmwareUpdateJob repo iotHub now hub firmwareUpdate creator =
     createJob repo iotHub now (no_job \<lparr> job_type := Some (js ''update_hub_firmware''), hubId := Some hub,
       job_payload := Some firmwareUpdate, createdBy := Some creator,
       timeoutSeconds := Some (num_of_int 600) \<rparr>)"

section \<open>Statistics and cleanup\<close>

record job_statistics =
  total :: nat
  queued :: nat
  running :: nat
  succeeded :: nat
  failed :: nat

definition count_status :: "'w job_repo \<Rightarrow> string \<Rightarrow> ('w, nat) call" where
  "count_status repo st = repo_count repo (where_all \<lparr> where_status := Some (js st) \<rparr>)"

definition getJobStatistics :: "'w job_repo \<Rightarrow> ('w, job_statistics) call" where
  "getJobStatistics repo =
     await (repo_count repo where_all) (\<lambda>n.
     await (count_status repo ''queued'') (\<lambda>q.
     await (count_status repo ''running'') (\<lambda>r.
     await (count_status repo ''succeeded'') (\<lambda>s.
     await (count_status repo ''failed'') (\<lambda>f.
       return \<lparr> total = n, queued = q, running = r, succeeded = s, failed = f \<rparr>)))))"

definition final_statuses :: "jstring list" where
  "final_statuses = map js [''succeeded'', ''failed'', ''timeout'', ''cancelled'']"

definition cleanupOldJobs :: "'w job_repo \<Rightarrow> time_zone \<Rightarrow> date \<Rightarrow> int \<Rightarrow> ('w, nat) call" where
  "cleanupOldJobs repo tz now daysOld =
     (let cutoffDate = days_before tz now daysOld in
      await (repo_deleteCompleted repo final_statuses cutoffDate) (\<lambda>affected.
        return (case affected of None \<Rightarrow> 0 | Some n \<Rightarrow> n)))"

section \<open>The controller\<close>

definition JobsController_createJob ::
  "'w job_repo \<Rightarrow> ('w, 'q) IotHubService \<Rightarrow> date \<Rightarrow> Job \<Rightarrow> ('w, Job) call" where
  "JobsController_createJob repo iotHub now jobData = createJob repo iotHub now jobData"

definition JobsController_getJob :: "'w job_repo \<Rightarrow> jstring \<Rightarrow> ('w, Job option) call" where
  "JobsController_getJob repo i = findJobById repo (Some i)"

definition JobsController_getJobs ::
  "'w job_repo \<Rightarrow> jstring option \<Rightarrow> jstring option \<Rightarrow> ('w, Job list) call" where
  "JobsController_getJobs repo hub st =
     (if truthy_text hub then findJobsByHub repo (the hub)
      else if truthy_text st then findJobsByStatus repo (the st)
      else findJobsByStatus repo (js ''queued''))"

record status_update =
  update_status :: jstring
  update_errorCode :: "jstring option"
  update_errorMessage :: "jstring option"
  update_result :: "jval option"

definition JobsController_updateJobStatus ::
  "'w job_repo \<Rightarrow> (nat \<Rightarrow> date) \<Rightarrow> jstring \<Rightarrow> status_update \<Rightarrow> ('w, Job) call" where
  "JobsController_updateJobStatus repo now i upd =
     updateJobStatus repo now (Some i) (update_status upd) (update_errorCode upd)
       (update_errorMessage upd) (update_result upd)"

definition JobsController_cancelJob :: "'w job_repo \<Rightarrow> (nat \<Rightarrow> date) \<Rightarrow> jstring \<Rightarrow> ('w, Job) call" where
  "JobsController_cancelJob repo now i = cancelJob repo now (Some i)"

record push_config_body =
  push_hubId :: jstring
  push_nodeId :: jstring
  push_configuration :: jval
  push_createdBy :: jstring

definition JobsController_pushNodeConfig ::
  "'w job_repo \<Rightarrow> ('w, 'q) IotHubService \<Rightarrow> date \<Rightarrow> push_config_body \<Rightarrow> ('w, Job) call" where
  "JobsController_pushNodeConfig repo iotHub now params =
     createPushNodeConfigJob repo iotHub now (push_hubId params) (push_nodeId params)
       (push_configuration params) (push_createdBy params)"

record pull_diagnostics_body =
  pull_hubId :: jstring
  pull_nodeId :: jstring
  pull_createdBy :: jstring

definition JobsController_pullNodeDiagnostics ::
  "'w job_repo \<Rightarrow> ('w, 'q) IotHubService \<Rightarrow> date \<Rightarrow> pull_diagnostics_body \<Rightarrow> ('w, Job) call" where
  "JobsController_pullNodeDiagnostics repo iotHub now params =
     createPullNodeDiagnosticsJob repo iotHub now (pull_hubId params) (pull_nodeId params) (pull_createdBy params)"

record firmware_body =
  firmware_hubId :: jstring
  firmware_update :: jval
  firmware_createdBy :: jstring

definition JobsController_updateHubFirmware ::
  "'w job_repo \<Rightarrow> ('w, 'q) IotHubService \<Rightarrow> date \<Rightarrow> firmware_body \<Rightarrow> ('w, Job) call" where
  "JobsController_updateHubFirmware repo iotHub now params =
     createFirmwareUpdateJob repo iotHub now (firmware_hubId params) (firmware_update params)
       (firmware_createdBy params)"

definition JobsController_getStatistics :: "'w job_repo \<Rightarrow> ('w, job_statistics) call" where
  "JobsController_getStatistics repo = getJobStatistics repo"

text \<open>\<open>daysOld || 30\<close>: zero days are taken as missing.\<close>

definition JobsController_cleanupOldJobs ::
  "'w job_repo \<Rightarrow> time_zone \<Rightarrow> date \<Rightarrow> int option \<Rightarrow> ('w, jstring) call" where
  "JobsController_cleanupOldJobs repo tz now daysOld =
     await (cleanupOldJobs repo tz now (if daysOld = None \<or> daysOld = Some 0 then 30 else the daysOld))
       (\<lambda>count. return (js ''Cleaned up '' @ to_string 10 count @ js '' old jobs''))"

end
