(* ===== verification/JobStore.thy ===== *)
theory JobStore
  imports Jobs "HOL-Library.Multiset"
begin

text \<open>
  What the jobs service relies on: the table of jobs behind the repository, as documented for
  TypeORM and Postgres, and the independence of the database and the registry. The locale
  \<open>job_store\<close> states it once; a table in memory shows that it can be met.
\<close>

section \<open>Rows\<close>

definition matches :: "job_where \<Rightarrow> Job \<Rightarrow> bool" where
  "matches wh j \<longleftrightarrow>
     (where_id wh \<noteq> None \<longrightarrow> job_id j = where_id wh) \<and>
     (where_hubId wh \<noteq> None \<longrightarrow> hubId j = where_hubId wh) \<and>
     (where_status wh \<noteq> None \<longrightarrow> Some (status j) = where_status wh)"

text \<open>Enum columns only hold values of their enum; the type column is not nullable.\<close>

definition valid_row :: "Job \<Rightarrow> bool" where
  "valid_row j \<longleftrightarrow> job_type j \<in> Some ` set job_types \<and> status j \<in> set job_statuses"

text \<open>
  What the columns can hold unchanged: identifiers in canonical form, texts (without NUL, say),
  JSON values in the form in which the database gives them back, integers of the width of the
  column, and times of its range and precision. A row fits if all its columns do.
\<close>

record job_columns =
  fit_id :: "jstring \<Rightarrow> bool"
  fit_text :: "jstring \<Rightarrow> bool"
  fit_json :: "jval \<Rightarrow> bool"
  fit_int :: "js_number \<Rightarrow> bool"
  fit_time :: "date \<Rightarrow> bool"

definition fits :: "job_columns \<Rightarrow> Job \<Rightarrow> bool" where
  "fits F j \<longleftrightarrow>
     pred_option (fit_id F) (job_id j) \<and>
     pred_option (fit_text F) (hubId j) \<and> pred_option (fit_text F) (nodeId j) \<and>
     pred_option (fit_text F) (errorCode j) \<and> pred_option (fit_text F) (errorMessage j) \<and>
     pred_option (fit_text F) (createdBy j) \<and>
     pred_option (fit_json F) (job_payload j) \<and> pred_option (fit_json F) (job_result j) \<and>
     pred_option (fit_int F) (timeoutSeconds j) \<and>
     pred_option (fit_time F) (startedAt j) \<and> pred_option (fit_time F) (completedAt j) \<and>
     fit_time F (createdAt j) \<and> pred_option (fit_time F) (updatedAt j)"

text \<open>
  Criteria that the database can compare: an identifier or text that fits, an enum column only
  with values of its enum.
\<close>

definition valid_where :: "job_columns \<Rightarrow> job_where \<Rightarrow> bool" where
  "valid_where F wh \<longleftrightarrow> where_status wh \<in> insert None (Some ` set job_statuses) \<and>
     pred_option (fit_id F) (where_id wh) \<and> pred_option (fit_text F) (where_hubId wh)"

definition table_ok :: "Job list \<Rightarrow> bool" where
  "table_ok rows \<longleftrightarrow> distinct (map job_id rows) \<and> None \<notin> set (map job_id rows)"

text \<open>A loaded entity that is saved again: no column is undefined that has a value in the row.\<close>

definition extends :: "Job \<Rightarrow> Job \<Rightarrow> bool" where
  "extends row j \<longleftrightarrow>
     (hubId j = None \<longrightarrow> hubId row = None) \<and> (nodeId j = None \<longrightarrow> nodeId row = None) \<and>
     (job_payload j = None \<longrightarrow> job_payload row = None) \<and> (startedAt j = None \<longrightarrow> startedAt row = None) \<and>
     (completedAt j = None \<longrightarrow> completedAt row = None) \<and> (timeoutSeconds j = None \<longrightarrow> timeoutSeconds row = None) \<and>
     (errorCode j = None \<longrightarrow> errorCode row = None) \<and> (errorMessage j = None \<longrightarrow> errorMessage row = None) \<and>
     (job_result j = None \<longrightarrow> job_result row = None) \<and> (createdBy j = None \<longrightarrow> createdBy row = None)"

text \<open>
  A row that an entity was written to, over the rows there were: its enums are the entity's, and its times are set where
  the entity's are. An undefined type is left as it was in the row of the entity's identifier.
\<close>

definition written_over :: "Job list \<Rightarrow> Job \<Rightarrow> Job \<Rightarrow> bool" where
  "written_over old j row \<longleftrightarrow>
     (case job_type j of
        Some t \<Rightarrow> job_type row = Some t \<and> t \<in> set job_types
      | None \<Rightarrow> \<exists>r\<in>set old. job_id r = job_id j \<and> job_type row = job_type r) \<and>
     status row = status j \<and> status j \<in> set job_statuses \<and>
     (startedAt j \<noteq> None \<longrightarrow> startedAt row \<noteq> None) \<and> (completedAt j \<noteq> None \<longrightarrow> completedAt row \<noteq> None)"

text \<open>What no row can hold: a status or type that is none, or no type at all in a new row.\<close>

definition never_stored :: "Job list \<Rightarrow> Job \<Rightarrow> bool" where
  "never_stored old j \<longleftrightarrow> status j \<notin> set job_statuses \<or>
     (case job_type j of Some t \<Rightarrow> t \<notin> set job_types | None \<Rightarrow> job_id j \<notin> set (map job_id old))"

lemma written_over_valid:
  assumes "written_over old j r" and "list_all valid_row old"
  shows "valid_row r"
  using assms by (auto simp: written_over_def valid_row_def list_all_iff split: option.splits)

lemma never_stored_invalid: "never_stored old j \<Longrightarrow> \<not> valid_row j"
  by (auto simp: never_stored_def valid_row_def)

lemma extends_refl [simp]: "extends j j"
  by (simp add: extends_def)

lemma extends_with_status [simp]: "extends j (with_status now j st ec em res)"
  by (auto simp: extends_def truthy_text_def truthy_opt_def)

text \<open>What \<open>save\<close> may change of the entity: its generated columns.\<close>

definition saved_as :: "Job \<Rightarrow> Job \<Rightarrow> bool" where
  "saved_as j j' \<longleftrightarrow> (\<exists>u. j' = j \<lparr> job_id := job_id j', updatedAt := Some u \<rparr>)"

lemma saved_as_iff:
  "saved_as j j' \<longleftrightarrow>
     job_type j' = job_type j \<and> hubId j' = hubId j \<and> nodeId j' = nodeId j \<and> job_payload j' = job_payload j \<and>
     status j' = status j \<and> startedAt j' = startedAt j \<and> completedAt j' = completedAt j \<and>
     timeoutSeconds j' = timeoutSeconds j \<and> errorCode j' = errorCode j \<and> errorMessage j' = errorMessage j \<and>
     job_result j' = job_result j \<and> createdBy j' = createdBy j \<and> createdAt j' = createdAt j \<and>
     updatedAt j' \<noteq> None"
  by (cases j; cases j') (auto simp: saved_as_def)

lemma saved_as_fields:
  assumes "saved_as j j'"
  shows "job_type j' = job_type j" "hubId j' = hubId j" "nodeId j' = nodeId j" "job_payload j' = job_payload j"
    "status j' = status j" "startedAt j' = startedAt j" "completedAt j' = completedAt j"
    "timeoutSeconds j' = timeoutSeconds j" "errorCode j' = errorCode j" "errorMessage j' = errorMessage j"
    "job_result j' = job_result j" "createdBy j' = createdBy j" "createdAt j' = createdAt j"
  using assms unfolding saved_as_iff by simp_all

definition replace_row :: "Job \<Rightarrow> Job list \<Rightarrow> Job list" where
  "replace_row j rows = map (\<lambda>r. if job_id r = job_id j then j else r) rows"

lemma replace_row_fresh: "job_id j \<notin> set (map job_id rs) \<Longrightarrow> replace_row j rs = rs"
  unfolding replace_row_def by (rule map_idI) (metis image_eqI list.set_map)

lemma replace_row_append: "replace_row j (rs @ rs') = replace_row j rs @ replace_row j rs'"
  by (simp add: replace_row_def)

lemma replace_row_ids: "map job_id (replace_row j rs) = map job_id rs"
  by (auto simp: replace_row_def)

definition expired :: "jstring list \<Rightarrow> date \<Rightarrow> Job \<Rightarrow> bool" where
  "expired sts cutoff j \<longleftrightarrow> status j \<in> set sts \<and> (case completedAt j of None \<Rightarrow> False | Some t \<Rightarrow> t < cutoff)"

section \<open>The laws\<close>

text \<open>
  Saving: whatever the entity is, every row is afterwards an old one or one that the entity was
  written to, and what is returned is the entity with its generated columns. If the entity is
  valid and fits, it is saved: as the row of its identifier, or as a new row. An entity with a type
  or a status that is none, or a new one without a type, is rejected and nothing is written. An entity without a type
  whose identifier is that of a row updates the other columns of that row or is rejected, for undefined
  properties are passed over and null is not. Of entities that do not fit nothing
  else is said: some are rejected, some are stored in another form.
\<close>

definition save_safe :: "'w job_repo \<Rightarrow> ('w \<Rightarrow> Job list) \<Rightarrow> bool" where
  "save_safe repo rows \<longleftrightarrow> (\<forall>j w. \<exists>res w'. repo_save repo j w = (res, w') \<and>
     (\<forall>r\<in>set (rows w'). r \<in> set (rows w) \<or> written_over (rows w) j r) \<and>
     (case res of Inl e \<Rightarrow> True | Inr j' \<Rightarrow> saved_as j j'))"

definition save_exact :: "'w job_repo \<Rightarrow> job_columns \<Rightarrow> ('w \<Rightarrow> Job list) \<Rightarrow> bool" where
  "save_exact repo F rows \<longleftrightarrow>
     (\<forall>j w. valid_row j \<longrightarrow> fits F j \<longrightarrow> (\<forall>row\<in>set (rows w). job_id row = job_id j \<longrightarrow> extends row j) \<longrightarrow>
        (\<exists>j' w'. repo_save repo j w = (Inr j', w') \<and> saved_as j j' \<and>
           (if job_id j \<in> set (map job_id (rows w))
            then job_id j' = job_id j \<and> rows w' = replace_row j' (rows w)
            else (job_id j \<noteq> None \<longrightarrow> job_id j' = job_id j) \<and> job_id j' \<notin> set (map job_id (rows w)) \<and>
                 job_id j' \<noteq> None \<and> rows w' = rows w @ [j']))) \<and>
     (\<forall>j w. never_stored (rows w) j \<longrightarrow> (\<exists>e. repo_save repo j w = (Inl e, w)))"

definition reads_exact :: "'w job_repo \<Rightarrow> job_columns \<Rightarrow> ('w \<Rightarrow> Job list) \<Rightarrow> bool" where
  "reads_exact repo F rows \<longleftrightarrow>
     (\<forall>wh w. valid_where F wh \<longrightarrow> (\<exists>found. repo_findOne repo wh w = (Inr found, w) \<and>
        (case found of None \<Rightarrow> \<forall>j\<in>set (rows w). \<not> matches wh j
         | Some j \<Rightarrow> j \<in> set (rows w) \<and> matches wh j))) \<and>
     (\<forall>wh w. \<exists>res. repo_findOne repo wh w = (res, w) \<and>
        (case res of Inl e \<Rightarrow> True | Inr found \<Rightarrow> pred_option (\<lambda>j. j \<in> set (rows w)) found)) \<and>
     (\<forall>wh w. valid_where F wh \<longrightarrow> (\<exists>found. repo_find repo wh w = (Inr found, w) \<and>
        mset found = filter_mset (matches wh) (mset (rows w)) \<and>
        sorted_wrt (\<lambda>a b. createdAt b \<le> createdAt a) found)) \<and>
     (\<forall>wh w. valid_where F wh \<longrightarrow> repo_count repo wh w = (Inr (length (filter (matches wh) (rows w))), w))"

definition delete_exact :: "'w job_repo \<Rightarrow> ('w \<Rightarrow> Job list) \<Rightarrow> bool" where
  "delete_exact repo rows \<longleftrightarrow>
     (\<forall>sts cutoff w. \<exists>w'. repo_deleteCompleted repo sts cutoff w
           = (Inr (Some (length (filter (expired sts cutoff) (rows w)))), w') \<and>
        rows w' = filter (\<lambda>j. \<not> expired sts cutoff j) (rows w))"

definition repo_laws :: "'w job_repo \<Rightarrow> job_columns \<Rightarrow> ('w \<Rightarrow> Job list) \<Rightarrow> bool" where
  "repo_laws repo F rows \<longleftrightarrow>
     (\<forall>j. repo_create repo j = j) \<and> (\<forall>w. table_ok (rows w) \<and> list_all (fits F) (rows w)) \<and>
     save_safe repo rows \<and> save_exact repo F rows \<and> reads_exact repo F rows \<and> delete_exact repo rows"

text \<open>The database and the registry do not share state.\<close>

definition independent ::
  "'w job_repo \<Rightarrow> ('w, 'q) iot_sdk \<Rightarrow> ('w \<Rightarrow> Job list) \<Rightarrow> ('w \<Rightarrow> jstring \<Rightarrow> twin option) \<Rightarrow> bool" where
  "independent repo sdk rows twins \<longleftrightarrow>
     (\<forall>d w. rows (snd (sdk_getTwin sdk d w)) = rows w) \<and>
     (\<forall>d patch etag w. rows (snd (sdk_updateTwin sdk d patch etag w)) = rows w) \<and>
     (\<forall>j w. twins (snd (repo_save repo j w)) = twins w)"

locale job_store =
  fixes repo :: "'w job_repo"
    and F :: job_columns
    and rows :: "'w \<Rightarrow> Job list"
  assumes store_laws: "repo_laws repo F rows"
begin

lemma create_id [simp]: "repo_create repo j = j"
  using store_laws by (simp add: repo_laws_def)

lemma rows_ok: "table_ok (rows w)"
  using store_laws by (simp add: repo_laws_def)

lemma row_unique: "j \<in> set (rows w) \<Longrightarrow> r \<in> set (rows w) \<Longrightarrow> job_id j = job_id r \<Longrightarrow> j = r"
  using rows_ok [of w] by (auto simp: table_ok_def distinct_map inj_on_def)

lemma row_fits: "row \<in> set (rows w) \<Longrightarrow> fits F row"
  using store_laws by (simp add: repo_laws_def list_all_iff)

lemma save_covers:
  obtains res w' where "repo_save repo j w = (res, w')"
    "\<And>r. r \<in> set (rows w') \<Longrightarrow> r \<in> set (rows w) \<or> written_over (rows w) j r"
    "\<And>j'. res = Inr j' \<Longrightarrow> saved_as j j'"
proof -
  have "\<exists>res w'. repo_save repo j w = (res, w') \<and>
      (\<forall>r\<in>set (rows w'). r \<in> set (rows w) \<or> written_over (rows w) j r) \<and>
      (case res of Inl e \<Rightarrow> True | Inr j' \<Rightarrow> saved_as j j')"
    using store_laws unfolding repo_laws_def save_safe_def by blast
  then show thesis by (elim exE conjE, intro that) auto
qed

lemma save_law:
  assumes "valid_row j" and "fits F j" and "\<And>row. row \<in> set (rows w) \<Longrightarrow> job_id row = job_id j \<Longrightarrow> extends row j"
  shows "\<exists>j' w'. repo_save repo j w = (Inr j', w') \<and> saved_as j j' \<and>
           (if job_id j \<in> set (map job_id (rows w))
            then job_id j' = job_id j \<and> rows w' = replace_row j' (rows w)
            else (job_id j \<noteq> None \<longrightarrow> job_id j' = job_id j) \<and> job_id j' \<notin> set (map job_id (rows w)) \<and>
                 job_id j' \<noteq> None \<and> rows w' = rows w @ [j'])"
  using store_laws assms unfolding repo_laws_def save_exact_def by blast

lemma save_new:
  assumes "valid_row j" and "fits F j" and "job_id j = None"
  obtains j' w' where "repo_save repo j w = (Inr j', w')" "saved_as j j'"
    "job_id j' \<noteq> None" "job_id j' \<notin> set (map job_id (rows w))" "rows w' = rows w @ [j']"
proof -
  have new: "job_id j \<notin> set (map job_id (rows w))" using rows_ok [of w] assms(3) by (auto simp: table_ok_def)
  then have "\<exists>j' w'. repo_save repo j w = (Inr j', w') \<and> saved_as j j' \<and>
      job_id j' \<noteq> None \<and> job_id j' \<notin> set (map job_id (rows w)) \<and> rows w' = rows w @ [j']"
    using save_law [OF assms(1,2), of w] by (metis (no_types, lifting) image_eqI list.set_map)
  then show thesis using that by blast
qed

lemma save_row:
  assumes "valid_row j" and "fits F j" and "row \<in> set (rows w)" "job_id row = job_id j" "extends row j"
  obtains j' w' where "repo_save repo j w = (Inr j', w')" "saved_as j j'" "job_id j' = job_id j"
    "rows w' = replace_row j' (rows w)"
proof -
  have "extends r j" if "r \<in> set (rows w)" "job_id r = job_id j" for r
    using row_unique [OF that(1) assms(3)] assms(4,5) that(2) by metis
  moreover have "job_id j \<in> set (map job_id (rows w))"
    using assms(3) unfolding assms(4) [symmetric] by simp
  ultimately have "\<exists>j' w'. repo_save repo j w = (Inr j', w') \<and> saved_as j j' \<and> job_id j' = job_id j \<and>
      rows w' = replace_row j' (rows w)"
    using save_law [OF assms(1,2), of w] by presburger
  then show thesis using that by blast
qed

lemma save_invalid: "never_stored (rows w) j \<Longrightarrow> \<exists>e. repo_save repo j w = (Inl e, w)"
  using store_laws by (simp add: repo_laws_def save_exact_def)

lemma findOne_law:
  "valid_where F wh \<Longrightarrow> \<exists>found. repo_findOne repo wh w = (Inr found, w) \<and>
        (case found of None \<Rightarrow> \<forall>j\<in>set (rows w). \<not> matches wh j
         | Some j \<Rightarrow> j \<in> set (rows w) \<and> matches wh j)"
  using store_laws by (simp add: repo_laws_def reads_exact_def)

text \<open>Whatever the identifier is, what is found is a row.\<close>

lemma find_any:
  obtains res where "findJobById repo i w = (res, w)" "\<And>j. res = Inr (Some j) \<Longrightarrow> j \<in> set (rows w)"
proof -
  have "\<exists>res. findJobById repo i w = (res, w) \<and>
      (case res of Inl e \<Rightarrow> True | Inr found \<Rightarrow> pred_option (\<lambda>j. j \<in> set (rows w)) found)"
    using store_laws by (simp add: repo_laws_def reads_exact_def findJobById_def)
  then show thesis by (elim exE conjE, intro that) auto
qed

lemma find_by_id:
  "pred_option (fit_id F) i \<Longrightarrow> \<exists>found. findJobById repo i w = (Inr found, w) \<and>
        (case found of None \<Rightarrow> \<forall>j\<in>set (rows w). i \<noteq> None \<and> job_id j \<noteq> i
         | Some j \<Rightarrow> j \<in> set (rows w) \<and> (i \<noteq> None \<longrightarrow> job_id j = i))"
  using findOne_law [of "where_all \<lparr> where_id := i \<rparr>" w]
  by (auto simp: findJobById_def valid_where_def where_all_def matches_def split: option.splits)

lemma find_row:
  assumes "row \<in> set (rows w)" and "job_id row = Some i"
  shows "findJobById repo (Some i) w = (Inr (Some row), w)"
proof -
  obtain found where f: "findJobById repo (Some i) w = (Inr found, w)"
    and c: "case found of None \<Rightarrow> \<forall>j\<in>set (rows w). Some i \<noteq> None \<and> job_id j \<noteq> Some i
      | Some j \<Rightarrow> j \<in> set (rows w) \<and> (Some i \<noteq> None \<longrightarrow> job_id j = Some i)"
    using find_by_id [of "Some i" w] row_fits [OF assms(1)] assms(2) by (auto simp: fits_def)
  show ?thesis
  proof (cases found)
    case None
    with c assms show ?thesis by auto
  next
    case (Some j)
    with c have "j = row" using row_unique [OF _ assms(1)] assms(2) by simp
    with f Some show ?thesis by simp
  qed
qed

lemma find_missing:
  assumes "Some i \<notin> set (map job_id (rows w))" and "fit_id F i"
  shows "findJobById repo (Some i) w = (Inr None, w)"
proof -
  obtain found where f: "findJobById repo (Some i) w = (Inr found, w)"
    and c: "case found of None \<Rightarrow> \<forall>j\<in>set (rows w). Some i \<noteq> None \<and> job_id j \<noteq> Some i
      | Some j \<Rightarrow> j \<in> set (rows w) \<and> (Some i \<noteq> None \<longrightarrow> job_id j = Some i)"
    using find_by_id [of "Some i" w] assms(2) by auto
  have "found = None"
  proof (cases found)
    case (Some j)
    with c have "j \<in> set (rows w)" "job_id j = Some i" by simp_all
    then have "Some i \<in> set (map job_id (rows w))" by force
    with assms(1) show ?thesis by contradiction
  qed
  with f show ?thesis by simp
qed

lemma find_law:
  "valid_where F wh \<Longrightarrow> \<exists>found. repo_find repo wh w = (Inr found, w) \<and>
        mset found = filter_mset (matches wh) (mset (rows w)) \<and>
        sorted_wrt (\<lambda>a b. createdAt b \<le> createdAt a) found"
  using store_laws by (simp add: repo_laws_def reads_exact_def)

lemma count_law: "valid_where F wh \<Longrightarrow> repo_count repo wh w = (Inr (length (filter (matches wh) (rows w))), w)"
  using store_laws by (simp add: repo_laws_def reads_exact_def)

lemma delete_law:
  "\<exists>w'. repo_deleteCompleted repo sts cutoff w
           = (Inr (Some (length (filter (expired sts cutoff) (rows w)))), w') \<and>
        rows w' = filter (\<lambda>j. \<not> expired sts cutoff j) (rows w)"
  using store_laws by (simp add: repo_laws_def delete_exact_def)

lemma fits_with_status:
  assumes "fits F j" and "\<And>n. fit_time F (now n)"
    and "pred_option (fit_text F) ec" "pred_option (fit_text F) em" "pred_option (fit_json F) res"
  shows "fits F (with_status now j st ec em res)"
  using assms by (simp add: fits_def)

text \<open>An update of a row that is there, whatever its status.\<close>

lemma update_row:
  assumes "row \<in> set (rows w)" "job_id row = Some i" "valid_row row" "st \<in> set job_statuses"
    and "fits F (with_status now row st ec em res)"
  obtains j' w' where "updateJobStatus repo now (Some i) st ec em res w = (Inr j', w')"
    "saved_as (with_status now row st ec em res) j'" "job_id j' = Some i" "rows w' = replace_row j' (rows w)"
proof -
  let ?j = "with_status now row st ec em res"
  have keep: "job_id ?j = Some i" "valid_row ?j"
    using assms by (simp_all add: valid_row_def)
  show thesis
  proof (rule save_row [OF keep(2) assms(5) assms(1)])
    show "job_id row = job_id ?j" using assms(2) keep(1) by simp
    fix j' w'
    assume "repo_save repo ?j w = (Inr j', w')" "saved_as ?j j'" "job_id j' = job_id ?j"
      "rows w' = replace_row j' (rows w)"
    then show thesis
      using keep(1) by (intro that) (simp_all add: updateJobStatus_def await_def find_row [OF assms(1,2)])
  qed simp
qed

lemma update_missing:
  assumes "Some i \<notin> set (map job_id (rows w))" and "fit_id F i"
  shows "updateJobStatus repo now (Some i) st ec em res w = (Inl (job_not_found (Some i)), w)"
  by (simp add: updateJobStatus_def await_def find_missing [OF assms] throw_def)

end

end
