(* ===== verification/JobLifecycle.thy ===== *)
theory JobLifecycle
  imports JobStore
begin

text \<open>
  The jobs service on a lawful database and registry: what creating, updating, cancelling,
  counting and cleaning up do to the table and to the hubs' twins, and the invariant of job
  rows over any sequence of service operations.
\<close>

section \<open>The backend\<close>

locale job_backend = job_store repo F rows + iot_registry sdk twins
  for repo :: "'w job_repo" and F and rows and sdk :: "('w, 'q) iot_sdk" and twins +
  assumes separate: "independent repo sdk rows twins"
begin

lemma get_keeps_rows: "rows (snd (getDeviceTwin (Some sdk) d w)) = rows w"
  using separate by (simp add: independent_def getDeviceTwin_def using_sdk_def call_simps)

lemma update_keeps_rows: "rows (snd (updateTwinDesiredProperties (Some sdk) d props w)) = rows w"
  using separate by (simp add: independent_def updateTwinDesiredProperties_def using_sdk_def call_simps)

lemma add_keeps_rows: "rows (snd (addJobToTwin (Some sdk) d job w)) = rows w"
proof (cases "getDeviceTwin (Some sdk) d w")
  case (Pair r w1)
  then have w1: "rows w1 = rows w" using get_keeps_rows [of d w] by simp
  show ?thesis
  proof (cases r)
    case (Inr tw)
    show ?thesis
    proof (cases "with_job tw job")
      case (Inl e)
      with Pair Inr w1 show ?thesis
        by (simp add: addJobToTwin_split await_def addJob_write_def lift_def)
    next
      case props: (Inr props)
      with Pair Inr w1 show ?thesis
        using update_keeps_rows [of d props w1]
        by (simp add: addJobToTwin_split await_def addJob_write_def lift_def)
    qed
  qed (use Pair w1 in \<open>simp add: addJobToTwin_split await_def\<close>)
qed

lemma save_keeps_twins: "twins (snd (repo_save repo j w)) = twins w"
  using separate by (simp add: independent_def)

end

lemma job_backendI:
  "repo_laws repo F rows \<Longrightarrow> sdk_laws sdk twins \<Longrightarrow> independent repo sdk rows twins \<Longrightarrow>
     job_backend repo F rows sdk twins"
  by (simp add: job_backend_def job_backend_axioms_def job_store_def iot_registry_def)

section \<open>Messages to hubs\<close>

lemma printable_nat: "n < 2 ^ 53 \<Longrightarrow> printable_number (num_of_int (int n))"
proof -
  assume n: "n < 2 ^ 53"
  have "is_binary64 (round64 False n 1)" by simp
  then have "is_binary64 (num_of_int (int n))" unfolding round64_nat [OF n] .
  then show ?thesis by (cases "odd_form n 0") (simp add: num_of_int_def)
qed

definition sendable_job :: "Job \<Rightarrow> bool" where
  "sendable_job j \<longleftrightarrow> pred_option json_plain (job_payload j) \<and> pred_option printable_number (timeoutSeconds j)"

lemma job_message_plain:
  assumes "sendable_job j"
  shows "json_plain (job_message j)"
proof -
  have "printable_number (number_or (timeoutSeconds j) (num_of_int 300))"
    using assms printable_nat [of 300]
    by (cases "timeoutSeconds j") (auto simp: sendable_job_def number_or_def truthy_opt_def)
  moreover have "json_plain (or_null JStr (nodeId j))" "json_plain (or_null id (job_payload j))"
    using assms by (auto simp: or_null_def sendable_job_def split: option.splits)
  ultimately show ?thesis
    unfolding job_message_def by (intro literal_plain) (simp_all add: name_key_def is_digit_def)
qed

section \<open>Creating jobs\<close>

text \<open>The message of every rejection by the registry can be stored in a text column.\<close>

definition rejections_fit :: "job_columns \<Rightarrow> ('w, 'q) iot_sdk \<Rightarrow> bool" where
  "rejections_fit F sdk \<longleftrightarrow>
     (\<forall>d w e. fst (sdk_getTwin sdk d w) = Inl e \<longrightarrow> fit_text F (message e)) \<and>
     (\<forall>d patch w e. fst (sdk_updateTwin sdk d patch (js ''*'') w) = Inl e \<longrightarrow> fit_text F (message e))"

lemma rejection_fits:
  assumes "rejections_fit F sdk"
  shows "getDeviceTwin (Some sdk) d w = (Inl e, w') \<Longrightarrow> fit_text F (message e)"
    and "updateTwinDesiredProperties (Some sdk) d props w = (Inl e, w') \<Longrightarrow> fit_text F (message e)"
  using assms unfolding rejections_fit_def
  by (auto simp: getDeviceTwin_def updateTwinDesiredProperties_def using_sdk_def call_simps split: prod.splits sum.splits)
     (metis fst_conv)+

context job_backend begin

lemma send_rejection_fits:
  assumes "rejections_fit F sdk" and "device_ready (twins w) h" and "addJobToTwin (Some sdk) h msg w = (Inl e, w')"
  shows "fit_text F (message e)"
proof -
  obtain res w1 where g: "getDeviceTwin (Some sdk) h w = (res, w1)" by fastforce
  show ?thesis
  proof (cases res)
    case (Inl e')
    with g assms rejection_fits(1) [OF assms(1), of h w] show ?thesis by (auto simp: addJobToTwin_split await_def)
  next
    case (Inr tw)
    with g get_answered have "w1 = w" "twins w h = Some tw" by blast+
    with assms(2) have "jobs_readable tw" by (simp add: device_ready_def)
    with g Inr assms(3) rejection_fits(2) [OF assms(1)] show ?thesis
      by (auto simp: addJobToTwin_split addJob_write_def with_job_readable lift_def await_def)
  qed
qed

text \<open>The first step of creation, and what follows a rejection of the second one.\<close>

lemma create_stores:
  assumes "job_id jobData = None" and "job_type jobData \<in> Some ` set job_types" and "fits F (jobData \<lparr> createdAt := now \<rparr>)"
  obtains j w1 where "repo_save repo (jobData \<lparr> status := js ''queued'', createdAt := now \<rparr>) w = (Inr j, w1)"
    "saved_as (jobData \<lparr> status := js ''queued'', createdAt := now \<rparr>) j" "job_id j \<noteq> None"
    "job_id j \<notin> set (map job_id (rows w))" "rows w1 = rows w @ [j]" "twins w1 = twins w"
proof -
  let ?j = "jobData \<lparr> status := js ''queued'', createdAt := now \<rparr>"
  have v: "valid_row ?j" "fits F ?j" "job_id ?j = None"
    using assms by (simp_all add: valid_row_def job_statuses_def fits_def)
  obtain j w1 where s: "repo_save repo ?j w = (Inr j, w1)" "saved_as ?j j" "job_id j \<noteq> None"
    "job_id j \<notin> set (map job_id (rows w))" "rows w1 = rows w @ [j]"
    by (rule save_new [OF v])
  moreover have "twins w1 = twins w" using save_keeps_twins [of ?j w] s(1) by simp
  ultimately show thesis by (rule that)
qed

lemma create_fails:
  assumes "job_type jobData \<in> Some ` set job_types" and "hubId jobData = Some h" "h \<noteq> []"
    and s: "repo_save repo (jobData \<lparr> status := js ''queued'', createdAt := now \<rparr>) w = (Inr j, w1)"
      "saved_as (jobData \<lparr> status := js ''queued'', createdAt := now \<rparr>) j" "job_id j \<noteq> None"
      "job_id j \<notin> set (map job_id (rows w))" "rows w1 = rows w @ [j]"
    and a: "addJobToTwin (Some sdk) h (job_message j) w1 = (Inl e, w2)" and "fit_text F (message e)"
  shows "\<exists>j' w'. createJob repo (Some sdk) now jobData w = (Inr j', w') \<and>
    saved_as (jobData \<lparr> status := js ''failed'', errorMessage := Some (message e), createdAt := now \<rparr>) j' \<and>
    job_id j' = job_id j \<and> rows w' = rows w @ [j'] \<and> twins w' = twins w1"
proof -
  let ?f = "j \<lparr> status := js ''failed'', errorMessage := Some (message e) \<rparr>"
  have w2: "rows w2 = rows w1" "twins w2 = twins w1"
    using add_keeps_rows [of h "job_message j" w1] add_keeps_twins [OF a] a by simp_all
  have f: "valid_row ?f" "j \<in> set (rows w2)" "job_id j = job_id ?f" "extends j ?f"
    using s(5) w2 assms(1) saved_as_fields [OF s(2)] by (simp_all add: valid_row_def job_statuses_def extends_def)
  have ff: "fits F ?f" using row_fits [OF f(2)] \<open>fit_text F (message e)\<close> by (simp add: fits_def)
  obtain j2 w3 where s2: "repo_save repo ?f w2 = (Inr j2, w3)" "saved_as ?f j2" "job_id j2 = job_id ?f"
    "rows w3 = replace_row j2 (rows w2)"
    by (rule save_row [OF f(1) ff f(2-4)])
  have "twins w3 = twins w1" using save_keeps_twins [of ?f w2] s2(1) w2 by simp
  moreover have "createJob repo (Some sdk) now jobData w = (Inr j2, w3)"
    using s(1) s2(1) a assms(2,3) saved_as_fields(2) [OF s(2)]
    by (simp add: createJob_def await_def sendJobToHub_def truthy_text_def try_catch_def)
  moreover have "rows w3 = rows w @ [j2]"
    using s(4,5) s2(3,4) w2 by (simp add: replace_row_append replace_row_fresh del: list.set_map)
       (simp add: replace_row_def)
  moreover have "saved_as (jobData \<lparr> status := js ''failed'', errorMessage := Some (message e), createdAt := now \<rparr>) j2"
    using saved_as_fields [OF s(2)] saved_as_fields [OF s2(2)] s2(2) by (simp add: saved_as_iff)
  ultimately show ?thesis using s2(3) by auto
qed

lemma create_delivers:
  assumes new: "job_id jobData = None" "job_type jobData \<in> Some ` set job_types"
      "fits F (jobData \<lparr> createdAt := now \<rparr>)"
    and hub: "hubId jobData = Some h" "h \<noteq> []" "device_ready (twins w) h" and msg: "sendable_job jobData"
    and texts: "rejections_fit F sdk"
  shows "\<exists>j w1. repo_save repo (jobData \<lparr> status := js ''queued'', createdAt := now \<rparr>) w = (Inr j, w1) \<and>
    saved_as (jobData \<lparr> status := js ''queued'', createdAt := now \<rparr>) j \<and> job_id j \<noteq> None \<and>
    (case addJobToTwin (Some sdk) h (job_message j) w1 of
       (Inr tw, w2) \<Rightarrow> createJob repo (Some sdk) now jobData w = (Inr j, w2) \<and> rows w2 = rows w @ [j] \<and>
         device_jobs (twins w2) = (device_jobs (twins w))(h := device_jobs (twins w) h @ [job_message j])
     | (Inl e, w2) \<Rightarrow> \<exists>j' w'. createJob repo (Some sdk) now jobData w = (Inr j', w') \<and>
         saved_as (jobData \<lparr> status := js ''failed'', errorMessage := Some (message e), createdAt := now \<rparr>) j' \<and>
         job_id j' = job_id j \<and> rows w' = rows w @ [j'] \<and> twins w' = twins w)"
proof (rule create_stores [OF new, of w])
  fix j w1
  assume s: "repo_save repo (jobData \<lparr> status := js ''queued'', createdAt := now \<rparr>) w = (Inr j, w1)"
    "saved_as (jobData \<lparr> status := js ''queued'', createdAt := now \<rparr>) j" "job_id j \<noteq> None"
    "job_id j \<notin> set (map job_id (rows w))" "rows w1 = rows w @ [j]" "twins w1 = twins w"
  have j: "hubId j = Some h" "sendable_job j"
    using hub(1) msg saved_as_fields [OF s(2)] by (simp_all add: sendable_job_def)
  have ready: "device_ready (twins w1) h" using hub(3) s(6) by simp
  obtain res w2 where a: "addJobToTwin (Some sdk) h (job_message j) w1 = (res, w2)" by fastforce
  have rows: "rows w2 = rows w1" using add_keeps_rows [of h "job_message j" w1] a by simp
  show ?thesis
  proof (cases res)
    case (Inr tw)
    with a have "createJob repo (Some sdk) now jobData w = (Inr j, w2)"
      using s(1) j(1) hub(2) by (simp add: createJob_def await_def sendJobToHub_def truthy_text_def try_catch_def return_def)
    moreover have "device_jobs (twins w2) = (device_jobs (twins w1))(h := device_jobs (twins w1) h @ [job_message j])"
      using channel.add_accepted [OF ready job_message_plain [OF j(2)]] a Inr by blast
    ultimately show ?thesis using s a Inr rows by (intro exI [of _ j] exI [of _ w1]) simp
  next
    case (Inl e)
    note a = a [unfolded Inl]
    from create_fails [OF new(2) hub(1,2) s(1-5) a send_rejection_fits [OF texts ready a]] s a
    show ?thesis by (intro exI [of _ j] exI [of _ w1]) simp
  qed
qed

lemma create_undelivered:
  assumes new: "job_id jobData = None" "job_type jobData \<in> Some ` set job_types"
      "fits F (jobData \<lparr> createdAt := now \<rparr>)"
    and hub: "hubId jobData = Some h" "h \<noteq> []" "twins w h = None" and texts: "rejections_fit F sdk"
  shows "\<exists>j e w'. createJob repo (Some sdk) now jobData w = (Inr j, w') \<and>
    saved_as (jobData \<lparr> status := js ''failed'', errorMessage := Some (message e), createdAt := now \<rparr>) j \<and>
    job_id j \<noteq> None \<and> rows w' = rows w @ [j] \<and> twins w' = twins w"
proof (rule create_stores [OF new, of w])
  fix j w1
  assume s: "repo_save repo (jobData \<lparr> status := js ''queued'', createdAt := now \<rparr>) w = (Inr j, w1)"
    "saved_as (jobData \<lparr> status := js ''queued'', createdAt := now \<rparr>) j" "job_id j \<noteq> None"
    "job_id j \<notin> set (map job_id (rows w))" "rows w1 = rows w @ [j]" "twins w1 = twins w"
  obtain e where e: "getDeviceTwin (Some sdk) h w1 = (Inl e, w1)"
    using get_unknown [of w1 h] hub(3) s(6) by auto
  then have "addJobToTwin (Some sdk) h (job_message j) w1 = (Inl e, w1)" by (simp add: addJobToTwin_split await_def)
  from create_fails [OF new(2) hub(1,2) s(1-5) this rejection_fits(1) [OF texts e]] s(3,6) show ?thesis by auto
qed

lemma create_over_existing:
  assumes "job_type jobData \<in> Some ` set job_types" and "hubId jobData = None"
    and "fits F (jobData \<lparr> createdAt := now \<rparr>)"
    and row: "row \<in> set (rows w)" "job_id jobData = job_id row" "extends row jobData"
  shows "\<exists>j w'. createJob repo svc now jobData w = (Inr j, w') \<and>
    saved_as (jobData \<lparr> status := js ''queued'', createdAt := now \<rparr>) j \<and> job_id j = job_id row \<and>
    rows w' = replace_row j (rows w)"
proof -
  let ?j = "jobData \<lparr> status := js ''queued'', createdAt := now \<rparr>"
  have v: "valid_row ?j" "fits F ?j" "row \<in> set (rows w)" "job_id row = job_id ?j" "extends row ?j"
    using assms by (simp_all add: valid_row_def job_statuses_def extends_def fits_def)
  obtain j w1 where s: "repo_save repo ?j w = (Inr j, w1)" "saved_as ?j j" "job_id j = job_id ?j"
    "rows w1 = replace_row j (rows w)"
    by (rule save_row [OF v])
  then have "createJob repo svc now jobData w = (Inr j, w1)"
    using assms(2) saved_as_fields(2) [OF s(2)] by (simp add: createJob_def await_def truthy_text_def return_def)
  with s row(2) show ?thesis by auto
qed

end

section \<open>A database in memory\<close>

text \<open>
  A concrete table and registry that meet all laws. An ill-formed table, which no operation
  produces, counts as empty; a new identifier is longer than every one in use.
\<close>

record memory =
  memory_table :: "Job list"
  memory_twins :: "jstring \<Rightarrow> twin option"

definition memory_rows :: "memory \<Rightarrow> Job list" where
  "memory_rows w = (if table_ok (memory_table w) then memory_table w else [])"

definition fresh_id :: "Job list \<Rightarrow> jstring" where
  "fresh_id rs = replicate (Suc (sum_list (map (\<lambda>j. case job_id j of None \<Rightarrow> 0 | Some i \<Rightarrow> length i) rs))) 48"

definition memory_save :: "Job \<Rightarrow> (memory, Job) call" where
  "memory_save j w =
     (if \<not> valid_row j then (Inl (Error (js ''invalid input value'')), w)
      else
        (let i = (if job_id j = None then Some (fresh_id (memory_rows w)) else job_id j);
             j' = j \<lparr> job_id := i, updatedAt := Some (case updatedAt j of None \<Rightarrow> createdAt j | Some u \<Rightarrow> u) \<rparr>;
             rows' = (if i \<in> set (map job_id (memory_rows w)) then replace_row j' (memory_rows w)
                      else memory_rows w @ [j'])
         in (Inr j', w \<lparr> memory_table := rows' \<rparr>)))"

definition memory_repo :: "memory job_repo" where
  "memory_repo = \<lparr>
     repo_create = id,
     repo_save = memory_save,
     repo_findOne = (\<lambda>wh w. (Inr (List.find (matches wh) (memory_rows w)), w)),
     repo_find = (\<lambda>wh w. (Inr (sort_key (\<lambda>j. - createdAt j) (filter (matches wh) (memory_rows w))), w)),
     repo_count = (\<lambda>wh w. (Inr (length (filter (matches wh) (memory_rows w))), w)),
     repo_deleteCompleted = (\<lambda>sts cutoff w.
       (Inr (Some (length (filter (expired sts cutoff) (memory_rows w)))),
        w \<lparr> memory_table := filter (\<lambda>j. \<not> expired sts cutoff j) (memory_rows w) \<rparr>)) \<rparr>"

lemma memory_rows_ok: "table_ok (memory_rows w)"
  by (cases "table_ok (memory_table w)") (simp_all add: memory_rows_def, simp add: table_ok_def)

lemma memory_rows_set [simp]: "table_ok rs \<Longrightarrow> memory_rows (w \<lparr> memory_table := rs \<rparr>) = rs"
  by (simp add: memory_rows_def)

lemma fresh_id_new: "Some (fresh_id rs) \<notin> set (map job_id rs)"
proof
  assume "Some (fresh_id rs) \<in> set (map job_id rs)"
  then obtain j where j: "j \<in> set rs" "job_id j = Some (fresh_id rs)" by auto
  let ?f = "\<lambda>j. case job_id j of None \<Rightarrow> 0 | Some i \<Rightarrow> length i"
  have "?f j \<le> sum_list (map ?f rs)" using j(1) by (intro member_le_sum_list) auto
  with j(2) show False by (simp add: fresh_id_def)
qed

lemma table_ok_replace [simp]: "table_ok (replace_row j rs) = table_ok rs"
  by (simp add: table_ok_def replace_row_ids del: list.set_map)

lemma table_ok_snoc: "table_ok (rs @ [j]) \<longleftrightarrow> table_ok rs \<and> job_id j \<noteq> None \<and> job_id j \<notin> set (map job_id rs)"
  by (auto simp: table_ok_def)

lemma table_ok_filter: "table_ok rs \<Longrightarrow> table_ok (filter P rs)"
  by (auto simp: table_ok_def distinct_map_filter)

lemma newest_first: "sorted_wrt (\<lambda>a b. createdAt b \<le> createdAt a) (sort_key (\<lambda>j. - createdAt j) rs)"
  using sorted_sort_key [of "\<lambda>j. - createdAt j" rs] by (simp add: sorted_map)

text \<open>Columns that hold everything.\<close>

definition any_columns :: job_columns where
  "any_columns = \<lparr> fit_id = (\<lambda>_. True), fit_text = (\<lambda>_. True), fit_json = (\<lambda>_. True),
     fit_int = (\<lambda>_. True), fit_time = (\<lambda>_. True) \<rparr>"

lemma any_column [simp]:
  "fit_id any_columns i" "fit_text any_columns t" "fit_json any_columns v" "fit_int any_columns n" "fit_time any_columns d"
  by (simp_all add: any_columns_def)

lemma any_fits [simp]: "fits any_columns j" "rejections_fit any_columns sdk"
  by (auto simp: fits_def rejections_fit_def pred_option_def split: sum.split)

lemma saved_as_written: "saved_as j j' \<Longrightarrow> valid_row j \<Longrightarrow> written_over old j j'"
  by (auto simp: saved_as_iff written_over_def valid_row_def)

lemma set_replace_row: "r \<in> set (replace_row j rs) \<Longrightarrow> r = j \<or> r \<in> set rs"
  by (auto simp: replace_row_def split: if_splits)

lemma rows_covered:
  "saved_as j j' \<Longrightarrow> valid_row j \<Longrightarrow>
     \<forall>r\<in>set (if old then replace_row j' rs else rs @ [j']). r \<in> set rs \<or> written_over rs j r"
  by (auto dest: set_replace_row saved_as_written)

lemma found_in: "pred_option (\<lambda>j. j \<in> set xs) (List.find P xs)"
  by (cases "List.find P xs") (simp_all, auto simp: find_Some_iff)

lemma memory_save_safe: "save_safe memory_repo memory_rows"
  unfolding save_safe_def
proof (intro allI)
  fix j :: Job and w
  let ?i = "if job_id j = None then Some (fresh_id (memory_rows w)) else job_id j"
  let ?j = "j \<lparr> job_id := ?i, updatedAt := Some (case updatedAt j of None \<Rightarrow> createdAt j | Some u \<Rightarrow> u) \<rparr>"
  have ok: "table_ok (memory_rows w)" by (rule memory_rows_ok)
  have as: "saved_as j ?j" by (simp add: saved_as_iff)
  show "\<exists>res w'. repo_save memory_repo j w = (res, w') \<and>
     (\<forall>r\<in>set (memory_rows w'). r \<in> set (memory_rows w) \<or> written_over (memory_rows w) j r) \<and>
     (case res of Inl e \<Rightarrow> True | Inr j' \<Rightarrow> saved_as j j')"
  proof (cases "valid_row j")
    case False
    then show ?thesis by (simp add: memory_repo_def memory_save_def)
  next
    case True
    let ?rows = "if ?i \<in> set (map job_id (memory_rows w)) then replace_row ?j (memory_rows w)
                      else memory_rows w @ [?j]"
    have "table_ok ?rows" using ok fresh_id_new [of "memory_rows w"] by (simp add: table_ok_snoc del: list.set_map)
    then have rows': "memory_rows (w \<lparr> memory_table := ?rows \<rparr>) = ?rows" by (rule memory_rows_set)
    note rows_covered [OF as True, of "?i \<in> set (map job_id (memory_rows w))" "memory_rows w"]
    moreover have "repo_save memory_repo j w = (Inr ?j, w \<lparr> memory_table := ?rows \<rparr>)"
      using True by (simp add: memory_repo_def memory_save_def Let_def)
    ultimately show ?thesis using as rows' by (intro exI conjI) (assumption | simp only: sum.case)+
  qed
qed

lemma memory_save_exact: "save_exact memory_repo any_columns memory_rows"
  unfolding save_exact_def
proof (intro conjI allI impI)
  fix j w
  assume v: "valid_row j"
  let ?i = "if job_id j = None then Some (fresh_id (memory_rows w)) else job_id j"
  let ?j = "j \<lparr> job_id := ?i, updatedAt := Some (case updatedAt j of None \<Rightarrow> createdAt j | Some u \<Rightarrow> u) \<rparr>"
  let ?w = "w \<lparr> memory_table := (if ?i \<in> set (map job_id (memory_rows w)) then replace_row ?j (memory_rows w)
                      else memory_rows w @ [?j]) \<rparr>"
  have ok: "table_ok (memory_rows w)" by (rule memory_rows_ok)
  then have none: "None \<notin> set (map job_id (memory_rows w))" by (simp add: table_ok_def)
  have save: "repo_save memory_repo j w = (Inr ?j, ?w)"
    using v by (simp add: memory_repo_def memory_save_def Let_def)
  have as: "saved_as j ?j" by (simp add: saved_as_iff)
  show "\<exists>j' w'. repo_save memory_repo j w = (Inr j', w') \<and> saved_as j j' \<and>
           (if job_id j \<in> set (map job_id (memory_rows w))
            then job_id j' = job_id j \<and> memory_rows w' = replace_row j' (memory_rows w)
            else (job_id j \<noteq> None \<longrightarrow> job_id j' = job_id j) \<and> job_id j' \<notin> set (map job_id (memory_rows w)) \<and>
                 job_id j' \<noteq> None \<and> memory_rows w' = memory_rows w @ [j'])"
  proof (intro exI conjI)
    show "repo_save memory_repo j w = (Inr ?j, ?w)" by (rule save)
    show "saved_as j ?j" by (rule as)
    show "if job_id j \<in> set (map job_id (memory_rows w))
            then job_id ?j = job_id j \<and> memory_rows ?w = replace_row ?j (memory_rows w)
            else (job_id j \<noteq> None \<longrightarrow> job_id ?j = job_id j) \<and> job_id ?j \<notin> set (map job_id (memory_rows w)) \<and>
                 job_id ?j \<noteq> None \<and> memory_rows ?w = memory_rows w @ [?j]"
      using none ok fresh_id_new [of "memory_rows w"] by (auto simp: table_ok_snoc simp del: list.set_map)
  qed
qed (auto simp: memory_repo_def memory_save_def dest: never_stored_invalid)

lemma memory_reads_exact: "reads_exact memory_repo any_columns memory_rows"
  unfolding reads_exact_def
  by (intro conjI allI)
     (simp_all add: memory_repo_def found_in mset_filter newest_first,
      auto simp: find_None_iff find_Some_iff split: option.split)

lemma memory_delete_exact: "delete_exact memory_repo memory_rows"
  unfolding delete_exact_def by (auto simp: memory_repo_def table_ok_filter memory_rows_ok)

lemma memory_repo_laws: "repo_laws memory_repo any_columns memory_rows"
proof -
  have "repo_create memory_repo j = j" for j by (simp add: memory_repo_def)
  then show ?thesis
    using memory_save_safe memory_save_exact memory_reads_exact memory_delete_exact
    by (simp add: repo_laws_def memory_rows_ok list_all_iff)
qed

abbreviation memory_hub :: "(memory, unit) iot_sdk" where
  "memory_hub \<equiv> memory_sdk memory_twins (\<lambda>tws w. w \<lparr> memory_twins := tws \<rparr>)"

lemma memory_hub_laws: "sdk_laws memory_hub memory_twins"
  by (rule memory_sdk_laws) simp

lemma memory_independent: "independent memory_repo memory_hub memory_rows memory_twins"
  by (auto simp: independent_def memory_repo_def memory_sdk_def memory_save_def memory_rows_def Let_def
      split: option.splits)

interpretation db: job_backend memory_repo any_columns memory_rows memory_hub memory_twins
  by unfold_locales (rule memory_repo_laws memory_hub_laws memory_independent)+

section \<open>Properties of creation\<close>

text \<open>
  C13: Creating a job for a ready hub stores it under a fresh identifier with status queued and the
  creation time, leaving every other row alone, and then sends its message to the hub. If the registry accepts it, the
  message is appended to the desired jobs of that hub and of no other and the stored job is returned; if it
  rejects it, no twin changes, and the job, stored and returned, has status failed with the message of the error.
\<close>

theorem createJob_delivers:
  assumes "repo_laws repo F rows" and "sdk_laws sdk twins" and "independent repo sdk rows twins"
    and "job_id jobData = None" and "job_type jobData \<in> Some ` set job_types"
    and "fits F (jobData \<lparr> createdAt := now \<rparr>)"
    and "hubId jobData = Some h" and "h \<noteq> []" and "device_ready (twins w) h" and "sendable_job jobData"
    and "rejections_fit F sdk"
  shows "\<exists>j w1. repo_save repo (jobData \<lparr> status := js ''queued'', createdAt := now \<rparr>) w = (Inr j, w1) \<and>
    saved_as (jobData \<lparr> status := js ''queued'', createdAt := now \<rparr>) j \<and> job_id j \<noteq> None \<and>
    (case addJobToTwin (Some sdk) h (job_message j) w1 of
       (Inr tw, w2) \<Rightarrow> createJob repo (Some sdk) now jobData w = (Inr j, w2) \<and> rows w2 = rows w @ [j] \<and>
         device_jobs (twins w2) = (device_jobs (twins w))(h := device_jobs (twins w) h @ [job_message j])
     | (Inl e, w2) \<Rightarrow> \<exists>j' w'. createJob repo (Some sdk) now jobData w = (Inr j', w') \<and>
         saved_as (jobData \<lparr> status := js ''failed'', errorMessage := Some (message e), createdAt := now \<rparr>) j' \<and>
         job_id j' = job_id j \<and> rows w' = rows w @ [j'] \<and> twins w' = twins w)"
  using job_backend.create_delivers [OF job_backendI [OF assms(1-3)] assms(4-11)] .

definition sample_job :: Job where
  "sample_job = no_job \<lparr> job_type := Some (js ''push_node_config''), hubId := Some (js ''hub-1''),
     nodeId := Some (js ''node-1''), job_payload := Some (JObj []), createdBy := Some (js ''user-1'') \<rparr>"

definition sample_world :: memory where
  "sample_world = \<lparr> memory_table = [], memory_twins = [js ''hub-1'' \<mapsto> sample_twin] \<rparr>"

lemma sample_job_ok:
  "job_id sample_job = None" "job_type sample_job \<in> Some ` set job_types"
  "hubId sample_job = Some (js ''hub-1'')" "sendable_job sample_job"
  by (simp_all add: sample_job_def no_job_def job_types_def sendable_job_def)

lemma sample_world_ready: "device_ready (memory_twins sample_world) (js ''hub-1'')"
  by (simp add: sample_world_def device_ready_def sample_twin_jobs)

lemma sample_world_rows: "memory_rows sample_world = []"
  by (simp add: sample_world_def memory_rows_def)

theorem createJob_delivers_witness:
  "\<exists>j w'. createJob memory_repo (Some memory_hub) 1700000000000 sample_job sample_world = (Inr j, w') \<and>
     memory_rows w' = [j] \<and> status j = js ''queued'' \<and>
     device_jobs (memory_twins w') (js ''hub-1'') = [JStr (js ''j0''), job_message j]"
proof -
  have texts: "rejections_fit any_columns memory_hub" by (simp add: rejections_fit_def)
  obtain j w1 where s: "repo_save memory_repo (sample_job \<lparr> status := js ''queued'', createdAt := 1700000000000 \<rparr>) sample_world = (Inr j, w1)"
    and as: "saved_as (sample_job \<lparr> status := js ''queued'', createdAt := 1700000000000 \<rparr>) j"
    and sent: "case addJobToTwin (Some memory_hub) (js ''hub-1'') (job_message j) w1 of
       (Inr tw, w2) \<Rightarrow> createJob memory_repo (Some memory_hub) 1700000000000 sample_job sample_world = (Inr j, w2) \<and>
         memory_rows w2 = memory_rows sample_world @ [j] \<and>
         device_jobs (memory_twins w2) = (device_jobs (memory_twins sample_world))(js ''hub-1'' :=
           device_jobs (memory_twins sample_world) (js ''hub-1'') @ [job_message j])
     | (Inl e, w2) \<Rightarrow> \<exists>j' w'. createJob memory_repo (Some memory_hub) 1700000000000 sample_job sample_world = (Inr j', w') \<and>
         saved_as (sample_job \<lparr> status := js ''failed'', errorMessage := Some (message e), createdAt := 1700000000000 \<rparr>) j' \<and>
         job_id j' = job_id j \<and> memory_rows w' = memory_rows sample_world @ [j'] \<and> memory_twins w' = memory_twins sample_world"
    using createJob_delivers [where now = 1700000000000, OF memory_repo_laws memory_hub_laws memory_independent
        sample_job_ok(1,2) any_fits(1) sample_job_ok(3) _ sample_world_ready sample_job_ok(4) texts] by auto
  have "memory_twins w1 = memory_twins sample_world" using db.save_keeps_twins [of _ sample_world] s by (metis snd_conv)
  then have "memory_twins w1 (js ''hub-1'') = Some sample_twin" by (simp add: sample_world_def)
  from memory_add [of memory_twins, OF this sample_twin_jobs(2)]
  obtain tw w2 where "addJobToTwin (Some memory_hub) (js ''hub-1'') (job_message j) w1 = (Inr tw, w2)" by blast
  with sent have "createJob memory_repo (Some memory_hub) 1700000000000 sample_job sample_world = (Inr j, w2)"
    "memory_rows w2 = memory_rows sample_world @ [j]"
    "device_jobs (memory_twins w2) (js ''hub-1'') = device_jobs (memory_twins sample_world) (js ''hub-1'') @ [job_message j]"
    by simp_all
  moreover have "device_jobs (memory_twins sample_world) (js ''hub-1'') = [JStr (js ''j0'')]"
    by (simp add: sample_world_def device_jobs_def sample_twin_jobs)
  ultimately show ?thesis using saved_as_fields(5) [OF as] by (auto simp: sample_world_rows)
qed

text \<open>
  C31: If the hub is unknown to the registry, creating a job still succeeds: the job is stored, the
  returned and stored job has status failed with the message of the error, and no twin changes.
  Its completion time stays what the request gave, in general none.
\<close>

theorem createJob_undelivered:
  assumes "repo_laws repo F rows" and "sdk_laws sdk twins" and "independent repo sdk rows twins"
    and "job_id jobData = None" and "job_type jobData \<in> Some ` set job_types"
    and "fits F (jobData \<lparr> createdAt := now \<rparr>)"
    and "hubId jobData = Some h" and "h \<noteq> []" and "twins w h = None"
    and "rejections_fit F sdk"
  shows "\<exists>j e w'. createJob repo (Some sdk) now jobData w = (Inr j, w') \<and>
    saved_as (jobData \<lparr> status := js ''failed'', errorMessage := Some (message e), createdAt := now \<rparr>) j \<and>
    job_id j \<noteq> None \<and> rows w' = rows w @ [j] \<and> twins w' = twins w"
  using job_backend.create_undelivered [OF job_backendI [OF assms(1-3)] assms(4-10)] .

theorem createJob_undelivered_witness:
  "\<exists>j e w'. createJob memory_repo (Some memory_hub) 1700000000000 (sample_job \<lparr> hubId := Some (js ''hub-2'') \<rparr>)
       sample_world = (Inr j, w') \<and>
     status j = js ''failed'' \<and> errorMessage j = Some (message e) \<and> completedAt j = None \<and> memory_rows w' = [j]"
proof -
  let ?d = "sample_job \<lparr> hubId := Some (js ''hub-2'') \<rparr>"
  have "memory_twins sample_world (js ''hub-2'') = None" by (simp add: sample_world_def)
  then obtain j e w' where "createJob memory_repo (Some memory_hub) 1700000000000 ?d sample_world = (Inr j, w')"
    and as: "saved_as (?d \<lparr> status := js ''failed'', errorMessage := Some (message e), createdAt := 1700000000000 \<rparr>) j"
    and "memory_rows w' = memory_rows sample_world @ [j]"
    using createJob_undelivered [OF memory_repo_laws memory_hub_laws memory_independent, of ?d 1700000000000 "js ''hub-2''"
        sample_world] sample_job_ok(1,2) by auto
  then show ?thesis
    using saved_as_fields(5,7,10) [OF as] by (auto simp: sample_world_rows sample_job_def no_job_def)
qed

text \<open>
  The identifier of a new job is not protected: a request that carries the identifier of a
  stored job (and no hub) replaces that job by the request's data with status queued, whatever
  its status was, instead of adding one.
\<close>

theorem createJob_replaces_existing:
  assumes "repo_laws repo F rows" and "sdk_laws sdk twins" and "independent repo sdk rows twins"
    and "job_type jobData \<in> Some ` set job_types" and "hubId jobData = None"
    and "fits F (jobData \<lparr> createdAt := now \<rparr>)" and "row \<in> set (rows w)" and "job_id jobData = job_id row" and "extends row jobData"
  shows "\<exists>j w'. createJob repo (Some sdk) now jobData w = (Inr j, w') \<and> status j = js ''queued'' \<and>
    job_id j = job_id row \<and> rows w' = replace_row j (rows w) \<and> length (rows w') = length (rows w)"
  using job_backend.create_over_existing [OF job_backendI [OF assms(1-3)] assms(4-9), of "Some sdk"]
  by (auto simp: saved_as_iff replace_row_def)

definition finished_job :: Job where
  "finished_job = no_job \<lparr> job_id := Some (js ''id-1''), job_type := Some (js ''push_node_config''),
     status := js ''succeeded'', completedAt := Some 5 \<rparr>"

definition finished_world :: memory where
  "finished_world = \<lparr> memory_table = [finished_job], memory_twins = (\<lambda>_. None) \<rparr>"

lemma finished_world_rows: "memory_rows finished_world = [finished_job]"
  by (simp add: finished_world_def memory_rows_def table_ok_def finished_job_def)

lemma finished_job_valid: "valid_row finished_job"
  by (simp add: valid_row_def finished_job_def no_job_def job_types_def job_statuses_def)

theorem createJob_replaces_existing_witness:
  "\<exists>j w'. createJob memory_repo (Some memory_hub) 9 finished_job finished_world = (Inr j, w') \<and>
     status j = js ''queued'' \<and> job_id j = Some (js ''id-1'') \<and> length (memory_rows w') = 1"
  using createJob_replaces_existing [OF memory_repo_laws memory_hub_laws memory_independent,
      of finished_job 9 finished_job finished_world]
  by (auto simp: finished_world_rows) (auto simp: finished_job_def no_job_def job_types_def)

end
