(* ===== verification/JobStatus.thy ===== *)
theory JobStatus
  imports JobLifecycle
begin

text \<open>
  Status updates, cancellation, reports from hubs, queries, statistics and cleanup of jobs on a
  lawful database, and the invariant of job rows over any sequence of service operations.
\<close>

section \<open>Updates\<close>

text \<open>
  C24: Updating the status of a stored job replaces exactly its row: the status is the given one
  whatever it was before, the start time is set by the first change to running and then kept,
  the completion time is set by succeeded, failed and timeout only, and code, message and result
  are kept unless a non-empty one is given.
\<close>

theorem updateJobStatus_row:
  assumes "repo_laws repo F rows" and "row \<in> set (rows w)" and "job_id row = Some i" and "valid_row row"
    and "st \<in> set job_statuses" and "fits F (with_status now row st ec em res)"
  shows "\<exists>j w'. updateJobStatus repo now (Some i) st ec em res w = (Inr j, w') \<and>
    rows w' = replace_row j (rows w) \<and> job_id j = Some i \<and> status j = st \<and> createdAt j = createdAt row \<and>
    startedAt j = (if st = js ''running'' \<and> startedAt row = None then Some (now 1) else startedAt row) \<and>
    completedAt j = (if st \<in> {js ''succeeded'', js ''failed'', js ''timeout''} then Some (now 1) else completedAt row) \<and>
    errorCode j = (if truthy_text ec then ec else errorCode row) \<and>
    errorMessage j = (if truthy_text em then em else errorMessage row) \<and>
    job_result j = (if truthy_opt res then res else job_result row)"
proof -
  obtain j w' where u: "updateJobStatus repo now (Some i) st ec em res w = (Inr j, w')"
    "saved_as (with_status now row st ec em res) j" "job_id j = Some i" "rows w' = replace_row j (rows w)"
    by (rule job_store.update_row [OF job_store.intro [OF assms(1)] assms(2-6)])
  then show ?thesis using saved_as_fields [OF u(2)] by simp
qed

theorem updateJobStatus_row_witness:
  "\<exists>j w'. updateJobStatus memory_repo (\<lambda>n. 7 + int n) (Some (js ''id-1'')) (js ''running'') None None None
       finished_world = (Inr j, w') \<and>
     memory_rows w' = [j] \<and> status j = js ''running'' \<and> startedAt j = Some 8 \<and> completedAt j = Some 5"
proof -
  have "finished_job \<in> set (memory_rows finished_world)" "job_id finished_job = Some (js ''id-1'')"
    by (simp_all add: finished_world_rows) (simp add: finished_job_def)
  from updateJobStatus_row [OF memory_repo_laws this finished_job_valid, of "js ''running''" "\<lambda>n. 7 + int n" None None None]
  show ?thesis
    by (auto simp: job_statuses_def finished_world_rows finished_job_def no_job_def replace_row_def)
qed

text \<open>
  Updating or cancelling a job that is not stored is rejected with the error
  \<open>Job ... not found\<close> and changes nothing; a report for it is swallowed.
\<close>

theorem update_unknown_job:
  assumes "repo_laws repo F rows" and "Some i \<notin> set (map job_id (rows w))" and "fit_id F i"
  shows "updateJobStatus repo now (Some i) st ec em res w =
      (Inl (Error (js ''Job '' @ i @ js '' not found'')), w) \<and>
    cancelJob repo now (Some i) w = (Inl (Error (js ''Job '' @ i @ js '' not found'')), w) \<and>
    processJobResult repo now h (Some \<lparr> report_jobId = Some i, report_status = st, report_errorCode = ec,
      report_errorMessage = em, report_diagnostics = res \<rparr>) w = (Inr (), w)"
  using job_store.update_missing [OF job_store.intro [OF assms(1)] assms(2,3)]
  by (simp add: cancelJob_def processJobResult_def try_catch_def await_def return_def job_not_found_def)

theorem update_unknown_job_witness:
  "updateJobStatus memory_repo (\<lambda>n. 7) (Some (js ''id-2'')) (js ''running'') None None None finished_world =
     (Inl (Error (js ''Job '' @ js ''id-2'' @ js '' not found'')), finished_world)"
  using update_unknown_job [OF memory_repo_laws, of "js ''id-2''" finished_world]
  by (simp add: finished_world_rows) (simp add: finished_job_def)

text \<open>
  Processing a report never fails, whatever the report and the database say; a missing report fails
  and changes nothing.
\<close>

theorem processJobResult_never_rejects:
  "fst (processJobResult repo now h report w) = Inr () \<longleftrightarrow> report \<noteq> None"
  by (simp add: processJobResult_def try_catch_def await_def return_def throw_def
      split: prod.split sum.split option.split)

text \<open>
  C39: A report without a job identifier is not ignored: on a table that is not empty it sets the
  status of some stored job, any one that the database happens to return first.
\<close>

theorem report_without_id_updates_some_job:
  assumes "repo_laws repo F rows" and "rows w \<noteq> []" and "\<forall>row\<in>set (rows w). valid_row row"
    and "st \<in> set job_statuses" and "\<forall>row\<in>set (rows w). fits F (with_status now row st ec em res)"
  shows "\<exists>row\<in>set (rows w). \<exists>j. status j = st \<and> job_id j = job_id row \<and>
    rows (snd (processJobResult repo now h (Some \<lparr> report_jobId = None, report_status = st, report_errorCode = ec,
      report_errorMessage = em, report_diagnostics = res \<rparr>) w)) = replace_row j (rows w)"
proof -
  note store = job_store.intro [OF assms(1)]
  from job_store.find_by_id [OF store, of None w] assms(2)
  obtain row where f: "findJobById repo None w = (Inr (Some row), w)" and row: "row \<in> set (rows w)"
    by (auto split: option.splits)
  let ?j = "with_status now row st ec em res"
  have v: "valid_row ?j" "fits F ?j" "row \<in> set (rows w)" "job_id row = job_id ?j" "extends row ?j"
    using assms(3,4,5) row by (simp_all add: valid_row_def)
  obtain j w' where s: "repo_save repo ?j w = (Inr j, w')" "saved_as ?j j" "job_id j = job_id ?j"
    "rows w' = replace_row j (rows w)"
    by (rule job_store.save_row [OF store v])
  have "processJobResult repo now h (Some \<lparr> report_jobId = None, report_status = st, report_errorCode = ec,
      report_errorMessage = em, report_diagnostics = res \<rparr>) w = (Inr (), w')"
    using s(1) by (simp add: processJobResult_def updateJobStatus_def try_catch_def await_def f return_def)
  then show ?thesis using s row saved_as_fields(5) [OF s(2)] by auto
qed

theorem report_without_id_updates_some_job_witness:
  "\<exists>j. status j = js ''failed'' \<and> memory_rows (snd (processJobResult memory_repo (\<lambda>n. 7) (js ''hub-1'')
     (Some \<lparr> report_jobId = None, report_status = js ''failed'', report_errorCode = None,
       report_errorMessage = None, report_diagnostics = None \<rparr>) finished_world)) = [j]"
proof -
  have "\<exists>row\<in>set (memory_rows finished_world). \<exists>j. status j = js ''failed'' \<and> job_id j = job_id row \<and>
    memory_rows (snd (processJobResult memory_repo (\<lambda>n. 7) (js ''hub-1'')
     (Some \<lparr> report_jobId = None, report_status = js ''failed'', report_errorCode = None,
       report_errorMessage = None, report_diagnostics = None \<rparr>) finished_world)) = replace_row j (memory_rows finished_world)"
    by (rule report_without_id_updates_some_job [OF memory_repo_laws])
       (simp_all add: finished_world_rows finished_job_valid job_statuses_def)
  then show ?thesis by (auto simp: finished_world_rows replace_row_def)
qed

section \<open>Cancellation and cleanup\<close>

text \<open>
  Cleaning up removes exactly the jobs in a final status that were completed before the
  cutoff, in particular no queued or running one, and answers with their number; doing it
  again for the same day removes nothing.
\<close>

theorem cleanup_removes_expired:
  assumes "repo_laws repo F rows"
  shows "\<exists>w'. cleanupOldJobs repo tz now days w
      = (Inr (length (rows w) - length (rows w')), w') \<and>
    rows w' = filter (\<lambda>j. \<not> expired final_statuses (days_before tz now days) j) (rows w) \<and>
    (\<exists>w''. cleanupOldJobs repo tz now days w' = (Inr 0, w'') \<and> rows w'' = rows w')"
proof -
  note store = job_store.intro [OF assms]
  let ?P = "expired final_statuses (days_before tz now days)"
  obtain w' where w': "repo_deleteCompleted repo final_statuses (days_before tz now days) w
      = (Inr (Some (length (filter ?P (rows w)))), w')" "rows w' = filter (\<lambda>j. \<not> ?P j) (rows w)"
    using job_store.delete_law [OF store] by blast
  obtain w'' where w'': "repo_deleteCompleted repo final_statuses (days_before tz now days) w'
      = (Inr (Some (length (filter ?P (rows w')))), w'')" "rows w'' = filter (\<lambda>j. \<not> ?P j) (rows w')"
    using job_store.delete_law [OF store] by blast
  have "length (rows w) = length (filter ?P (rows w)) + length (rows w')"
    unfolding w'(2) by (rule sum_length_filter_compl [symmetric])
  then have "cleanupOldJobs repo tz now days w = (Inr (length (rows w) - length (rows w')), w')"
    using w'(1) by (simp add: cleanupOldJobs_def await_def return_def)
  moreover have "cleanupOldJobs repo tz now days w' = (Inr 0, w'')" "rows w'' = rows w'"
    using w''(1) w'(2) w''(2) by (simp_all add: cleanupOldJobs_def await_def return_def)
  ultimately show ?thesis using w'(2) by blast
qed

theorem cleanup_removes_expired_witness:
  "\<exists>w'. cleanupOldJobs memory_repo utc (40 * ms_per_day) 30 finished_world = (Inr 1, w') \<and> memory_rows w' = []"
  using cleanup_removes_expired [OF memory_repo_laws, of utc "40 * ms_per_day" 30 finished_world]
  by (auto simp: finished_world_rows expired_def final_statuses_def finished_job_def ms_per_day_def)

text \<open>
  C38: A job that is cancelled before it completed keeps no completion time, so no cleanup ever
  removes it, although cancelled is one of the statuses that cleanup looks for.
\<close>

theorem cancelled_job_never_cleaned:
  assumes "repo_laws repo F rows" and "row \<in> set (rows w)" and "job_id row = Some i" and "valid_row row"
    and "completedAt row = None" and "\<forall>n. fit_time F (now n)"
  shows "\<exists>j w'. cancelJob repo now (Some i) w = (Inr j, w') \<and> status j = js ''cancelled'' \<and>
    j \<in> set (rows w') \<and> (\<forall>tz today days. j \<in> set (rows (snd (cleanupOldJobs repo tz today days w'))))"
proof -
  note store = job_store.intro [OF assms(1)]
  have st: "js ''cancelled'' \<in> set job_statuses" by (simp add: job_statuses_def)
  have ft: "fits F (with_status now row (js ''cancelled'') None None None)"
    using job_store.row_fits [OF store assms(2)] assms(6) by (intro job_store.fits_with_status [OF store]) simp_all
  obtain j w' where u: "updateJobStatus repo now (Some i) (js ''cancelled'') None None None w = (Inr j, w')"
    "saved_as (with_status now row (js ''cancelled'') None None None) j" "job_id j = Some i"
    "rows w' = replace_row j (rows w)"
    by (rule job_store.update_row [OF store assms(2-4) st ft])
  have j: "status j = js ''cancelled''" "completedAt j = None"
    using saved_as_fields [OF u(2)] assms(5) by simp_all
  have mem: "j \<in> set (rows w')"
    unfolding u(4) replace_row_def using assms(2,3) u(3) by (force simp: image_iff)
  have "j \<in> set (rows (snd (cleanupOldJobs repo tz today days w')))" for tz today days
  proof -
    obtain w'' where d: "repo_deleteCompleted repo final_statuses (days_before tz today days) w'
      = (Inr (Some (length (filter (expired final_statuses (days_before tz today days)) (rows w')))), w'')"
      "rows w'' = filter (\<lambda>j. \<not> expired final_statuses (days_before tz today days) j) (rows w')"
      using job_store.delete_law [OF store] by blast
    then show ?thesis using mem j by (simp add: cleanupOldJobs_def await_def return_def expired_def)
  qed
  with u(1) j mem show ?thesis by (auto simp: cancelJob_def)
qed

definition running_job :: Job where
  "running_job = no_job \<lparr> job_id := Some (js ''id-1''), job_type := Some (js ''push_node_config''),
     status := js ''running'' \<rparr>"

definition running_world :: memory where
  "running_world = \<lparr> memory_table = [running_job], memory_twins = (\<lambda>_. None) \<rparr>"

lemma running_world_row:
  "running_job \<in> set (memory_rows running_world)" "job_id running_job = Some (js ''id-1'')"
  "valid_row running_job" "completedAt running_job = None"
  by (simp_all add: running_world_def running_job_def memory_rows_def table_ok_def no_job_def valid_row_def
      job_types_def job_statuses_def)

theorem cancelled_job_never_cleaned_witness:
  "\<exists>j w'. cancelJob memory_repo (\<lambda>n. 7) (Some (js ''id-1'')) running_world = (Inr j, w') \<and>
     j \<in> set (memory_rows (snd (cleanupOldJobs memory_repo utc (400 * ms_per_day) 30 w')))"
proof -
  obtain j w' where c: "cancelJob memory_repo (\<lambda>n. 7) (Some (js ''id-1'')) running_world = (Inr j, w')"
    and stays: "\<forall>tz today days. j \<in> set (memory_rows (snd (cleanupOldJobs memory_repo tz today days w')))"
    using cancelled_job_never_cleaned [OF memory_repo_laws running_world_row, where now = "\<lambda>n. 7"]
    by auto
  show ?thesis by (intro exI conjI, rule c, rule stays [rule_format])
qed

section \<open>Queries and statistics\<close>

definition status_count :: "Job list \<Rightarrow> string \<Rightarrow> nat" where
  "status_count rs st = length (filter (\<lambda>j. status j = js st) rs)"

lemma count_status_rows:
  assumes "repo_laws repo F rows" and "js st \<in> set job_statuses"
  shows "count_status repo st w = (Inr (status_count (rows w) st), w)"
  using job_store.count_law [OF job_store.intro [OF assms(1)], of "where_all \<lparr> where_status := Some (js st) \<rparr>" w] assms(2)
  by (simp add: count_status_def status_count_def valid_where_def where_all_def matches_def [abs_def] eq_commute)

lemma status_counts_sum:
  "list_all valid_row rs \<Longrightarrow>
     length rs = status_count rs ''queued'' + status_count rs ''running'' + status_count rs ''succeeded'' +
       status_count rs ''failed'' + status_count rs ''timeout'' + status_count rs ''cancelled''"
  by (induction rs) (auto simp: status_count_def valid_row_def job_statuses_def)

text \<open>
  The statistics count the rows by status and change nothing; the total exceeds the sum of
  the four reported counts by exactly the jobs that timed out or were cancelled.
\<close>

theorem statistics_count_rows:
  assumes "repo_laws repo F rows" and "list_all valid_row (rows w)"
  shows "\<exists>s. getJobStatistics repo w = (Inr s, w) \<and> queued s = status_count (rows w) ''queued'' \<and>
    running s = status_count (rows w) ''running'' \<and> succeeded s = status_count (rows w) ''succeeded'' \<and>
    failed s = status_count (rows w) ''failed'' \<and>
    total s = queued s + running s + succeeded s + failed s +
      status_count (rows w) ''timeout'' + status_count (rows w) ''cancelled''"
proof -
  have all: "repo_count repo where_all w = (Inr (length (rows w)), w)"
    using job_store.count_law [OF job_store.intro [OF assms(1)], of where_all w]
    by (simp add: valid_where_def where_all_def matches_def)
  have "js ''queued'' \<in> set job_statuses" "js ''running'' \<in> set job_statuses"
    "js ''succeeded'' \<in> set job_statuses" "js ''failed'' \<in> set job_statuses"
    by (simp_all add: job_statuses_def)
  then have "getJobStatistics repo w = (Inr \<lparr> total = length (rows w), queued = status_count (rows w) ''queued'',
      running = status_count (rows w) ''running'', succeeded = status_count (rows w) ''succeeded'',
      failed = status_count (rows w) ''failed'' \<rparr>, w)"
    using all by (simp add: getJobStatistics_def await_def return_def count_status_rows [OF assms(1)])
  then show ?thesis using status_counts_sum [OF assms(2)] by simp
qed

theorem statistics_count_rows_witness:
  "\<exists>s. getJobStatistics memory_repo finished_world = (Inr s, finished_world) \<and> total s = 1 \<and> succeeded s = 1"
  using statistics_count_rows [OF memory_repo_laws, of finished_world] finished_job_valid
  by (auto simp: finished_world_rows status_count_def finished_job_def)

text \<open>
  Listing jobs by hub (the hub taking precedence over the status, and queued being the default
  status) returns exactly the matching rows, newest first, and changes nothing.
\<close>

theorem getJobs_lists_rows:
  assumes "repo_laws repo F rows" and "truthy_text st \<longrightarrow> the st \<in> set job_statuses"
    and "pred_option (fit_text F) hub"
  shows "\<exists>found. JobsController_getJobs repo hub st w = (Inr found, w) \<and>
    mset found = filter_mset (\<lambda>j. if truthy_text hub then hubId j = hub
      else status j = (if truthy_text st then the st else js ''queued'')) (mset (rows w)) \<and>
    sorted_wrt (\<lambda>a b. createdAt b \<le> createdAt a) found"
proof -
  let ?wh = "if truthy_text hub then where_all \<lparr> where_hubId := hub \<rparr>
    else where_all \<lparr> where_status := Some (if truthy_text st then the st else js ''queued'') \<rparr>"
  have "JobsController_getJobs repo hub st w = repo_find repo ?wh w"
    by (auto simp: JobsController_getJobs_def findJobsByHub_def findJobsByStatus_def truthy_text_def)
  moreover have "valid_where F ?wh" using assms(2,3) by (auto simp: valid_where_def where_all_def job_statuses_def)
  moreover have "matches ?wh = (\<lambda>j. if truthy_text hub then hubId j = hub
      else status j = (if truthy_text st then the st else js ''queued''))"
    by (auto simp: matches_def where_all_def truthy_text_def fun_eq_iff)
  ultimately show ?thesis using job_store.find_law [OF job_store.intro [OF assms(1)], of ?wh w] by simp
qed

theorem getJobs_lists_rows_witness:
  "JobsController_getJobs memory_repo None (Some (js ''succeeded'')) finished_world = (Inr [finished_job], finished_world)"
  using getJobs_lists_rows [OF memory_repo_laws, of "Some (js ''succeeded'')" None finished_world]
  by (auto simp: truthy_text_def job_statuses_def finished_world_rows) (simp add: finished_job_def)

section \<open>The invariant of job rows\<close>

text \<open>
  The service operations as steps of the backend, with any data and from any table.
\<close>

inductive job_step ::
  "'w job_repo \<Rightarrow> ('w, 'q) iot_sdk \<Rightarrow> ('w \<Rightarrow> Job list) \<Rightarrow> 'w \<Rightarrow> 'w \<Rightarrow> bool"
  for repo sdk rows where
  step_create: "job_step repo sdk rows w (snd (createJob repo (Some sdk) now jobData w))"
| step_update: "job_step repo sdk rows w (snd (updateJobStatus repo nows i st ec em res w))"
| step_cancel: "job_step repo sdk rows w (snd (cancelJob repo nows i w))"
| step_report: "job_step repo sdk rows w (snd (processJobResult repo nows h report w))"
| step_cleanup: "job_step repo sdk rows w (snd (cleanupOldJobs repo tz today days w))"

definition lifecycle_ok :: "Job \<Rightarrow> bool" where
  "lifecycle_ok j \<longleftrightarrow> valid_row j \<and>
     (status j = js ''running'' \<longrightarrow> startedAt j \<noteq> None) \<and>
     (status j = js ''succeeded'' \<or> status j = js ''timeout'' \<longrightarrow> completedAt j \<noteq> None)"

context job_backend begin

lemma save_lifecycle:
  assumes inv: "\<forall>r\<in>set (rows w). lifecycle_ok r"
    and j: "status j = js ''running'' \<Longrightarrow> startedAt j \<noteq> None" "status j = js ''succeeded'' \<or> status j = js ''timeout'' \<Longrightarrow> completedAt j \<noteq> None"
    and s: "repo_save repo j w = (res, w')"
  shows "\<forall>r\<in>set (rows w'). lifecycle_ok r"
proof -
  have valid: "list_all valid_row (rows w)" using inv by (simp add: list_all_iff lifecycle_ok_def)
  have "lifecycle_ok r" if "written_over (rows w) j r" for r
    using j that written_over_valid [OF that valid] by (auto simp: lifecycle_ok_def written_over_def)
  moreover from s have "r \<in> set (rows w) \<or> written_over (rows w) j r" if "r \<in> set (rows w')" for r
    using save_covers [of j w] that by (metis prod.inject)
  ultimately show ?thesis using inv by blast
qed

lemma update_rows:
  assumes "\<forall>r\<in>set (rows w). lifecycle_ok r"
  shows "\<forall>r\<in>set (rows (snd (updateJobStatus repo now i st ec em res w))). lifecycle_ok r"
proof -
  obtain found where f: "findJobById repo i w = (found, w)"
    by (rule find_any [of i w]) (rule that)
  consider e where "found = Inl e" | "found = Inr None" | row where "found = Inr (Some row)"
    by (metis old.sum.exhaust option.exhaust)
  then show ?thesis
  proof cases
    case 3
    let ?j = "with_status now row st ec em res"
    have j: "status ?j = js ''running'' \<Longrightarrow> startedAt ?j \<noteq> None"
      "status ?j = js ''succeeded'' \<or> status ?j = js ''timeout'' \<Longrightarrow> completedAt ?j \<noteq> None" by auto
    obtain r w' where s: "repo_save repo ?j w = (r, w')" by fastforce
    have "snd (updateJobStatus repo now i st ec em res w) = w'"
      using f 3 s by (simp add: updateJobStatus_def await_def)
    then show ?thesis using save_lifecycle [OF assms j s] by simp
  qed (use f assms in \<open>simp_all add: updateJobStatus_def await_def throw_def\<close>)
qed

lemma create_rows:
  assumes inv: "\<forall>r\<in>set (rows w). lifecycle_ok r"
  shows "\<forall>r\<in>set (rows (snd (createJob repo (Some sdk) now jobData w))). lifecycle_ok r"
proof -
  let ?j = "jobData \<lparr> status := js ''queued'', createdAt := now \<rparr>"
  obtain res w1 where s: "repo_save repo ?j w = (res, w1)" by fastforce
  have inv1: "\<forall>r\<in>set (rows w1). lifecycle_ok r"
    by (rule save_lifecycle [OF inv _ _ s]) simp_all
  show ?thesis
  proof (cases res)
    case (Inl e)
    with s inv1 show ?thesis by (simp add: createJob_def await_def)
  next
    case saved: (Inr j)
    show ?thesis
    proof (cases "truthy_text (hubId j)")
      case False
      with s saved inv1 show ?thesis by (simp add: createJob_def await_def return_def)
    next
      case hub: True
      obtain r w2 where a: "addJobToTwin (Some sdk) (the (hubId j)) (job_message j) w1 = (r, w2)" by fastforce
      then have rows2: "rows w2 = rows w1" using add_keeps_rows [of _ "job_message j" w1] by (metis snd_conv)
      show ?thesis
      proof (cases r)
        case (Inr tw)
        with s saved hub a rows2 inv1 show ?thesis
          by (simp add: createJob_def await_def sendJobToHub_def try_catch_def return_def)
      next
        case (Inl e)
        let ?f = "j \<lparr> status := js ''failed'', errorMessage := Some (message e) \<rparr>"
        obtain r3 w3 where s3: "repo_save repo ?f w2 = (r3, w3)" by fastforce
        have step: "snd (createJob repo (Some sdk) now jobData w) = w3"
          using s saved hub a Inl s3 by (simp add: createJob_def await_def sendJobToHub_def try_catch_def)
        have inv2: "\<forall>r\<in>set (rows w2). lifecycle_ok r" using inv1 rows2 by simp
        show ?thesis unfolding step
          by (rule save_lifecycle [OF inv2 _ _ s3]) simp_all
      qed
    qed
  qed
qed

lemma cleanup_rows:
  "set (rows (snd (cleanupOldJobs repo tz today days w))) \<subseteq> set (rows w)"
proof -
  obtain w' where "repo_deleteCompleted repo final_statuses (days_before tz today days) w
      = (Inr (Some (length (filter (expired final_statuses (days_before tz today days)) (rows w)))), w')"
    "rows w' = filter (\<lambda>j. \<not> expired final_statuses (days_before tz today days) j) (rows w)"
    using delete_law by blast
  then show ?thesis by (auto simp: cleanupOldJobs_def await_def return_def)
qed

lemma report_is_update:
  "snd (processJobResult repo now h (Some report) w) = snd (updateJobStatus repo now (report_jobId report)
     (report_status report) (report_errorCode report) (report_errorMessage report) (report_diagnostics report) w)"
  by (auto simp: processJobResult_def try_catch_def await_def return_def split: prod.split sum.split)

lemma no_report_no_change: "snd (processJobResult repo now h None w) = w"
  by (simp add: processJobResult_def throw_def)

lemma step_lifecycle:
  "job_step repo sdk rows w w' \<Longrightarrow> \<forall>r\<in>set (rows w). lifecycle_ok r \<Longrightarrow> \<forall>r\<in>set (rows w'). lifecycle_ok r"
proof (induction rule: job_step.induct)
  case (step_create w jobData now)
  then show ?case by (intro create_rows)
next
  case (step_cleanup w tz today days)
  then show ?case using cleanup_rows by blast
next
  case (step_report w nows h report)
  then show ?case by (cases report) (simp_all add: report_is_update no_report_no_change update_rows)
qed (simp_all add: update_rows cancelJob_def)

end

text \<open>
  C5: The invariant of job rows: from any table whose jobs satisfy it (the empty one, for
  instance), no sequence of creations, updates, cancellations, reports and cleanups leads to a
  running job without a start time, to a succeeded or timed-out job without a completion time,
  or to a job of an unknown type or status.
\<close>

theorem job_rows_invariant:
  assumes "repo_laws repo F rows" and "sdk_laws sdk twins" and "independent repo sdk rows twins"
    and "(job_step repo sdk rows)\<^sup>*\<^sup>* w w'" and "list_all lifecycle_ok (rows w)"
  shows "list_all lifecycle_ok (rows w')"
  using assms(4,5)
proof (induction rule: rtranclp_induct)
  case (step w1 w2)
  have "\<forall>r\<in>set (rows w1). lifecycle_ok r"
    using step.IH [OF step.prems] unfolding list_all_iff .
  then show ?case
    unfolding list_all_iff by (rule job_backend.step_lifecycle [OF job_backendI [OF assms(1-3)] step.hyps(2)])
qed

theorem job_rows_invariant_witness:
  "list_all lifecycle_ok (memory_rows (snd (updateJobStatus memory_repo (\<lambda>n. 7) (Some (js ''id-1''))
     (js ''running'') None None None (snd (createJob memory_repo (Some memory_hub) 5 sample_job sample_world)))))"
proof (rule job_rows_invariant [OF memory_repo_laws memory_hub_laws memory_independent])
  let ?step = "job_step memory_repo memory_hub memory_rows"
  let ?w = "snd (createJob memory_repo (Some memory_hub) 5 sample_job sample_world)"
  have "?step sample_world ?w"
    by (rule step_create)
  moreover have "?step ?w (snd (updateJobStatus memory_repo (\<lambda>n. 7) (Some (js ''id-1'')) (js ''running'') None None None ?w))"
    by (rule step_update)
  ultimately show "?step\<^sup>*\<^sup>* sample_world
      (snd (updateJobStatus memory_repo (\<lambda>n. 7) (Some (js ''id-1'')) (js ''running'') None None None ?w))"
    by (rule rtranclp.rtrancl_into_rtrancl [OF r_into_rtranclp])
  show "list_all lifecycle_ok (memory_rows sample_world)" by (simp add: sample_world_rows)
qed

end
