(* ===== verification/Auth.thy ===== *)
theory Auth
  imports JSValue
begin

text \<open>
  \<open>src/backend/api/src/modules/auth\<close>: the authentication service and controller, the claims the
  two passport strategies keep of a user, the roles decorator and the two guards. Users, claims
  and request bodies are untyped in the source (\<open>any\<close>) and so are JSON values here. The JWT
  library and the metadata store of the framework are parameters.
\<close>

declare js_simps [simp del]

section \<open>Untyped values\<close>

text \<open>
  \<open>v.k\<close>: reading a property of \<open>undefined\<close> or \<open>null\<close> throws. None of the names read here is a
  property of a primitive or of an array.
\<close>

definition cannot_read :: "string \<Rightarrow> string \<Rightarrow> js_error" where
  "cannot_read what k = TypeError (js ''Cannot read properties of '' @ js what @ js '' (reading '' @ js k @ js '')'')"

definition read_property :: "jval option \<Rightarrow> string \<Rightarrow> js_error + jval option" where
  "read_property v k =
     (case v of
        None \<Rightarrow> Inl (cannot_read ''undefined'' k)
      | Some JNull \<Rightarrow> Inl (cannot_read ''null'' k)
      | Some x \<Rightarrow> Inr (property x k))"

text \<open>\<open>a || b\<close> where both may be \<open>undefined\<close>.\<close>

definition or_opt :: "jval option \<Rightarrow> jval option \<Rightarrow> jval option" where
  "or_opt a b = (if truthy_opt a then a else b)"

text \<open>\<open>v?.k\<close>\<close>

definition optional_property :: "jval option \<Rightarrow> string \<Rightarrow> jval option" where
  "optional_property v k = (case v of None \<Rightarrow> None | Some x \<Rightarrow> property x k)"

text \<open>
  \<open>===\<close> on values of different origin: arrays and objects are compared by identity and so never
  equal, numbers as IEEE 754 does.
\<close>

fun strict_equal :: "jval option \<Rightarrow> jval option \<Rightarrow> bool" where
  "strict_equal None None = True"
| "strict_equal (Some JNull) (Some JNull) = True"
| "strict_equal (Some (JBool a)) (Some (JBool b)) = (a = b)"
| "strict_equal (Some (JNum x)) (Some (JNum y)) =
     (case (x, y) of
        (NaN, _) \<Rightarrow> False
      | (Finite s m e, Finite s' m' e') \<Rightarrow> m = m' \<and> (m = 0 \<or> s = s' \<and> e = e')
      | _ \<Rightarrow> x = y)"
| "strict_equal (Some (JStr s)) (Some (JStr t)) = (s = t)"
| "strict_equal _ _ = False"

text \<open>\<open>xs.some(f)\<close>, stopping at the first element that passes or throws.\<close>

fun some_element :: "('a \<Rightarrow> js_error + bool) \<Rightarrow> 'a list \<Rightarrow> js_error + bool" where
  "some_element f [] = Inr False"
| "some_element f (x # xs) = bind (f x) (\<lambda>b. if b then Inr True else some_element f xs)"

text \<open>\<open>v.includes(s)\<close>, which arrays and strings have.\<close>

fun occurs_in :: "jstring \<Rightarrow> jstring \<Rightarrow> bool" where
  "occurs_in s [] = (s = [])"
| "occurs_in s (u # us) = (take (length s) (u # us) = s \<or> occurs_in s us)"

definition array_includes :: "jval \<Rightarrow> jstring \<Rightarrow> js_error + bool" where
  "array_includes v s =
     (case v of
        JArr vs \<Rightarrow> Inr (JStr s \<in> set vs)
      | JStr t \<Rightarrow> Inr (occurs_in s t)
      | _ \<Rightarrow> Inl (TypeError (js ''user.roles?.includes is not a function'')))"

section \<open>The service and its controller\<close>

record jwt_service =
  jwt_sign :: "jval \<Rightarrow> js_error + jstring"
  jwt_verify :: "jstring \<Rightarrow> js_error + jval"

definition validateUser :: "jval option \<Rightarrow> jval option" where
  "validateUser email = None"

definition token_claims :: "jval \<Rightarrow> js_error + jval" where
  "token_claims user =
     bind (read_property (Some user) ''email'') (\<lambda>email.
     bind (read_property (Some user) ''id'') (\<lambda>i.
     bind (read_property (Some user) ''role'') (\<lambda>role.
       Inr (object_literal [(''email'', email), (''sub'', i), (''role'', role)]))))"

definition AuthService_login :: "jwt_service \<Rightarrow> jval \<Rightarrow> js_error + jval" where
  "AuthService_login jwt user =
     bind (token_claims user) (\<lambda>payload.
     bind (jwt_sign jwt payload) (\<lambda>token.
       Inr (object_literal [(''access_token'', Some (JStr token))])))"

definition verifyToken :: "jwt_service \<Rightarrow> jstring \<Rightarrow> jval" where
  "verifyToken jwt token = (case jwt_verify jwt token of Inl e \<Rightarrow> JNull | Inr claims \<Rightarrow> claims)"

definition AuthController_login :: "jwt_service \<Rightarrow> jval option \<Rightarrow> js_error + jval" where
  "AuthController_login jwt loginDto =
     bind (read_property loginDto ''email'') (\<lambda>email.
       case validateUser email of
         None \<Rightarrow> Inr (object_literal [(''message'', Some (JStr (js ''Invalid credentials'')))])
       | Some user \<Rightarrow>
           if truthy user then AuthService_login jwt user
           else Inr (object_literal [(''message'', Some (JStr (js ''Invalid credentials'')))]))"

text \<open>A request, as far as the guards and handlers read it.\<close>

record request =
  req_params :: members
  req_body :: "jval option"
  req_user :: "jval option"

definition AuthController_getProfile :: "request \<Rightarrow> jval option" where
  "AuthController_getProfile req = req_user req"

section \<open>What the strategies keep of a user\<close>

definition JwtStrategy_validate :: "jval \<Rightarrow> js_error + jval" where
  "JwtStrategy_validate claims =
     bind (read_property (Some claims) ''sub'') (\<lambda>sub.
     bind (read_property (Some claims) ''email'') (\<lambda>email.
     bind (read_property (Some claims) ''role'') (\<lambda>role.
       Inr (object_literal [(''userId'', sub), (''email'', email), (''role'', role)]))))"

text \<open>The user that the Azure AD strategy hands to \<open>done\<close>; the method itself returns nothing.\<close>

definition AzureAdStrategy_validate :: "jval option \<Rightarrow> js_error + jval" where
  "AzureAdStrategy_validate profile =
     bind (read_property profile ''upn'') (\<lambda>upn.
     bind (read_property profile ''email'') (\<lambda>email.
     bind (read_property profile ''name'') (\<lambda>nm.
     bind (read_property profile ''displayName'') (\<lambda>display.
     bind (read_property profile ''roles'') (\<lambda>roles.
       Inr (object_literal [
         (''email'', or_opt upn email),
         (''firstName'', optional_property nm ''givenName''),
         (''lastName'', optional_property nm ''familyName''),
         (''displayName'', display),
         (''roles'', or_opt roles (Some (JArr [])))]))))))"

section \<open>The guards\<close>

text \<open>
  The framework's metadata: what \<open>SetMetadata\<close> attaches to a handler or a class (\<open>'m\<close>), and
  what the reflector finds.
\<close>

record ('s, 'm) metadata_api =
  set_metadata :: "string \<Rightarrow> jstring list \<Rightarrow> 'm \<Rightarrow> 's \<Rightarrow> 's"
  get_all_and_override :: "'s \<Rightarrow> string \<Rightarrow> 'm list \<Rightarrow> jstring list option"

definition Roles :: "('s, 'm) metadata_api \<Rightarrow> jstring list \<Rightarrow> 'm \<Rightarrow> 's \<Rightarrow> 's" where
  "Roles api roles = set_metadata api ''roles'' roles"

definition user_has_role :: "jval \<Rightarrow> jstring \<Rightarrow> js_error + bool" where
  "user_has_role user role =
     (case property user ''roles'' of
        None \<Rightarrow> Inr False
      | Some JNull \<Rightarrow> Inr False
      | Some v \<Rightarrow> array_includes v role)"

definition RolesGuard_canActivate ::
  "('s, 'm) metadata_api \<Rightarrow> 's \<Rightarrow> 'm \<Rightarrow> 'm \<Rightarrow> request \<Rightarrow> js_error + bool" where
  "RolesGuard_canActivate api meta handler cls req =
     (case get_all_and_override api meta ''roles'' [handler, cls] of
        None \<Rightarrow> Inr True
      | Some requiredRoles \<Rightarrow>
          if \<not> truthy_opt (req_user req) then Inr False
          else some_element (user_has_role (the (req_user req))) requiredRoles)"

text \<open>\<open>request.params.organizationId || request.body.organizationId\<close>\<close>

definition requested_organization :: "request \<Rightarrow> js_error + jval option" where
  "requested_organization req =
     (let p = obj_get (req_params req) (js ''organizationId'') in
      if truthy_opt p then Inr p else read_property (req_body req) ''organizationId'')"

definition some_organization :: "jval option \<Rightarrow> jval \<Rightarrow> js_error + bool" where
  "some_organization organizationId organizations =
     (case organizations of
        JArr orgs \<Rightarrow> some_element (\<lambda>org. bind (read_property (Some org) ''id'') (\<lambda>i.
          Inr (strict_equal i organizationId))) orgs
      | _ \<Rightarrow> Inl (TypeError (js ''user.organizations.some is not a function'')))"

definition OrganizationGuard_canActivate :: "request \<Rightarrow> js_error + bool" where
  "OrganizationGuard_canActivate req =
     bind (requested_organization req) (\<lambda>organizationId.
       if \<not> truthy_opt (req_user req) \<or> \<not> truthy_opt (property (the (req_user req)) ''organizations'')
       then Inr False
       else some_organization organizationId (the (property (the (req_user req)) ''organizations'')))"

section \<open>Decisions\<close>

lemma some_element_pure: "(\<And>x. x \<in> set xs \<Longrightarrow> f x = Inr (P x)) \<Longrightarrow> some_element f xs = Inr (\<exists>x\<in>set xs. P x)"
  by (induction xs) auto

text \<open>The roles of a user whose \<open>roles\<close> is a list of texts.\<close>

definition has_roles :: "jval \<Rightarrow> jstring list \<Rightarrow> bool" where
  "has_roles user us \<longleftrightarrow> property user ''roles'' = Some (JArr (map JStr us))"

lemma user_has_role_list: "has_roles user us \<Longrightarrow> user_has_role user role = Inr (role \<in> set us)"
  by (auto simp: has_roles_def user_has_role_def array_includes_def)

lemma user_without_roles: "property user ''roles'' = None \<Longrightarrow> user_has_role user role = Inr False"
  by (simp add: user_has_role_def)

lemma property_truthy: "property user k = Some v \<Longrightarrow> truthy user"
  by (cases user) (simp_all add: property_def)

text \<open>Users made by the strategies.\<close>

lemma truthy_literal [simp]: "truthy (object_literal fs)"
  by (simp add: object_literal_def)

lemma read_property_eq_Inr: "read_property (Some v) k = Inr p \<longleftrightarrow> v \<noteq> JNull \<and> p = property v k"
  by (cases v) (auto simp: read_property_def)

lemma bind_eq_Inr: "bind m k = Inr b \<longleftrightarrow> (\<exists>a. m = Inr a \<and> k a = Inr b)"
  by (cases m) auto

lemma jwt_user:
  assumes "JwtStrategy_validate claims = Inr user"
  shows "truthy user" "property user ''userId'' = property claims ''sub''"
    "property user ''email'' = property claims ''email''" "property user ''role'' = property claims ''role''"
    "property user ''roles'' = None" "property user ''organizations'' = None"
  using assms by (auto simp: JwtStrategy_validate_def bind_eq_Inr read_property_eq_Inr)

lemma azure_user:
  assumes "AzureAdStrategy_validate (Some profile) = Inr user"
  shows "truthy user" "property user ''roles'' = or_opt (property profile ''roles'') (Some (JArr []))"
    "property user ''organizations'' = None"
  using assms by (auto simp: AzureAdStrategy_validate_def bind_eq_Inr read_property_eq_Inr)

section \<open>The metadata store\<close>

text \<open>
  What is relied on of the framework: \<open>SetMetadata\<close> sets one key of one target, and the
  reflector returns the value of the first target that has the key.
\<close>

definition metadata_laws ::
  "('s, 'm) metadata_api \<Rightarrow> ('s \<Rightarrow> 'm \<Rightarrow> string \<Rightarrow> jstring list option) \<Rightarrow> bool" where
  "metadata_laws api view \<longleftrightarrow>
     (\<forall>k v t s. view (set_metadata api k v t s) = (view s)(t := (view s t)(k \<mapsto> v))) \<and>
     (\<forall>s k t u. get_all_and_override api s k [t, u] =
        (case view s t k of None \<Rightarrow> view s u k | Some v \<Rightarrow> Some v))"

locale metadata_store =
  fixes api :: "('s, 'm) metadata_api"
    and view :: "'s \<Rightarrow> 'm \<Rightarrow> string \<Rightarrow> jstring list option"
  assumes laws: "metadata_laws api view"
begin

definition required :: "'s \<Rightarrow> 'm \<Rightarrow> 'm \<Rightarrow> jstring list option" where
  "required s handler cls =
     (case view s handler ''roles'' of None \<Rightarrow> view s cls ''roles'' | Some rs \<Rightarrow> Some rs)"

lemma found: "get_all_and_override api s ''roles'' [handler, cls] = required s handler cls"
  using laws by (simp add: metadata_laws_def required_def)

lemma decorated_handler: "required (Roles api rs handler s) handler cls = Some rs"
  using laws by (simp add: metadata_laws_def required_def Roles_def)

lemma decorated_other: "t \<noteq> handler \<Longrightarrow> t \<noteq> cls \<Longrightarrow> required (Roles api rs t s) handler cls = required s handler cls"
  using laws by (auto simp: metadata_laws_def required_def Roles_def split: option.split)

lemma undecorated_handler:
  "view s handler ''roles'' = None \<Longrightarrow> handler \<noteq> cls \<Longrightarrow> required (Roles api rs cls s) handler cls = Some rs"
  using laws by (simp add: metadata_laws_def required_def Roles_def)

lemma undecorated: "view s handler ''roles'' = None \<Longrightarrow> view s cls ''roles'' = None \<Longrightarrow> required s handler cls = None"
  by (simp add: required_def)

text \<open>The decision over the roles that apply.\<close>

lemma guard_decision:
  "RolesGuard_canActivate api s handler cls req =
     (case required s handler cls of
        None \<Rightarrow> Inr True
      | Some rs \<Rightarrow> if truthy_opt (req_user req) then some_element (user_has_role (the (req_user req))) rs else Inr False)"
  by (simp add: RolesGuard_canActivate_def found split: option.split)

end

text \<open>A store in memory.\<close>

definition memory_metadata :: "('m \<Rightarrow> string \<Rightarrow> jstring list option, 'm) metadata_api" where
  "memory_metadata = \<lparr> set_metadata = (\<lambda>k v t s. s(t := (s t)(k \<mapsto> v))),
     get_all_and_override = (\<lambda>s k ts. case List.find (\<lambda>t. s t k \<noteq> None) ts of None \<Rightarrow> None | Some t \<Rightarrow> s t k) \<rparr>"

interpretation memory_meta: metadata_store memory_metadata id
  by unfold_locales (simp add: metadata_laws_def memory_metadata_def option.case_eq_if)

section \<open>Properties\<close>

text \<open>
  C19: The roles guard: a handler decorated with roles lets a user with a list of roles pass
  exactly when the two lists meet, whatever roles its class asks for; roles on the class count
  for handlers without their own; and without any decoration every request passes, even one
  without a user.
\<close>

theorem roles_guard_decides:
  assumes "metadata_laws api view" and "handler \<noteq> cls"
    and "req_user req = Some user" and "has_roles user us"
  shows "RolesGuard_canActivate api (Roles api rs handler meta) handler cls req = Inr (\<exists>r\<in>set rs. r \<in> set us) \<and>
    (view meta handler ''roles'' = None \<longrightarrow>
       RolesGuard_canActivate api (Roles api rs cls meta) handler cls req = Inr (\<exists>r\<in>set rs. r \<in> set us) \<and>
       (view meta cls ''roles'' = None \<longrightarrow> RolesGuard_canActivate api meta handler cls req' = Inr True))"
proof -
  note store = metadata_store.intro [OF assms(1)]
  have list: "some_element (user_has_role user) rs = Inr (\<exists>r\<in>set rs. r \<in> set us)"
    by (rule some_element_pure) (rule user_has_role_list [OF assms(4)])
  have "truthy user" using assms(4) by (auto simp: has_roles_def intro: property_truthy)
  then have user: "truthy_opt (req_user req)" "the (req_user req) = user"
    by (simp_all add: assms(3) truthy_opt_def)
  show ?thesis
    by (simp add: metadata_store.guard_decision [OF store] metadata_store.decorated_handler [OF store]
        metadata_store.undecorated_handler [OF store _ assms(2)] metadata_store.undecorated [OF store] user list)
qed

definition sample_user :: jval where
  "sample_user = object_literal [(''roles'', Some (JArr (map JStr [js ''viewer'', js ''operator''])))]"

definition sample_request :: request where
  "sample_request = \<lparr> req_params = [(js ''organizationId'', JStr (js ''org-1''))], req_body = None,
     req_user = Some sample_user \<rparr>"

theorem roles_guard_decides_witness:
  "RolesGuard_canActivate memory_metadata (Roles memory_metadata [js ''admin'', js ''operator''] ''handler'' (\<lambda>_ _. None))
     ''handler'' ''class'' sample_request = Inr True"
proof -
  have "has_roles sample_user [js ''viewer'', js ''operator'']" by (simp add: has_roles_def sample_user_def)
  from roles_guard_decides [OF memory_meta.laws _ _ this, of "''handler''" "''class''" sample_request "[js ''admin'', js ''operator'']"
      "\<lambda>_ _. None" sample_request]
  show ?thesis by (simp add: sample_request_def)
qed

text \<open>
  C32: No user of the JWT strategy passes a guard: the strategy keeps a single \<open>role\<close>, the roles
  guard reads \<open>roles\<close>, so every handler with roles refuses the user, even if one of them is the
  user's role; and the organization guard refuses every request of the user for an organization.
\<close>

theorem jwt_users_denied:
  assumes "metadata_laws api view" and "JwtStrategy_validate claims = Inr user"
    and "req_user req = Some user" and "requested_organization req = Inr org"
  shows "RolesGuard_canActivate api (Roles api rs handler meta) handler cls req = Inr False \<and>
    OrganizationGuard_canActivate req = Inr False"
proof -
  note store = metadata_store.intro [OF assms(1)]
  note user = jwt_user [OF assms(2)]
  have "some_element (user_has_role user) rs = Inr (\<exists>r\<in>set rs. False)"
    by (rule some_element_pure) (rule user_without_roles [OF user(5)])
  then show ?thesis
    by (simp add: metadata_store.guard_decision [OF store] metadata_store.decorated_handler [OF store]
        OrganizationGuard_canActivate_def assms(3,4) user(1,6) truthy_opt_def)
qed

theorem jwt_users_denied_witness:
  "let user = object_literal [(''userId'', Some (JStr (js ''u1''))), (''email'', None), (''role'', Some (JStr (js ''admin'')))];
       req = sample_request \<lparr> req_user := Some user \<rparr>
   in RolesGuard_canActivate memory_metadata (Roles memory_metadata [js ''admin''] ''handler'' (\<lambda>_ _. None)) ''handler'' ''class'' req = Inr False \<and>
      OrganizationGuard_canActivate req = Inr False"
proof -
  let ?claims = "object_literal [(''sub'', Some (JStr (js ''u1''))), (''role'', Some (JStr (js ''admin'')))]"
  have claims: "JwtStrategy_validate ?claims =
      Inr (object_literal [(''userId'', Some (JStr (js ''u1''))), (''email'', None), (''role'', Some (JStr (js ''admin'')))])"
    by (simp add: JwtStrategy_validate_def read_property_def object_literal_def property_def obj_get_def)
  show ?thesis
    unfolding Let_def
    by (rule jwt_users_denied [OF memory_meta.laws claims])
       (simp_all add: sample_request_def requested_organization_def obj_get_def truthy_opt_def)
qed

lemma decided_by:
  assumes "requested_organization req = Inr org" and "req_user req = Some user"
    and "property user ''organizations'' = Some (JArr orgs)" and "JNull \<notin> set orgs"
  shows "OrganizationGuard_canActivate req = Inr (\<exists>e\<in>set orgs. strict_equal (property e ''id'') org)"
proof -
  have "some_element (\<lambda>e. bind (read_property (Some e) ''id'') (\<lambda>i. Inr (strict_equal i org))) orgs
      = Inr (\<exists>e\<in>set orgs. strict_equal (property e ''id'') org)"
  proof (rule some_element_pure)
    fix e
    assume "e \<in> set orgs"
    with assms(4) have "read_property (Some e) ''id'' = Inr (property e ''id'')" by (auto simp: read_property_eq_Inr)
    then show "bind (read_property (Some e) ''id'') (\<lambda>i. Inr (strict_equal i org)) = Inr (strict_equal (property e ''id'') org)"
      by simp
  qed
  with assms show ?thesis
    by (simp add: OrganizationGuard_canActivate_def some_organization_def truthy_opt_def property_truthy [OF assms(3)])
qed

lemma no_organizations:
  assumes "\<not> truthy_opt (req_user req) \<or> property (the (req_user req)) ''organizations'' = None"
  shows "OrganizationGuard_canActivate req \<noteq> Inr True"
  using assms by (cases "requested_organization req") (auto simp: OrganizationGuard_canActivate_def truthy_opt_def)

text \<open>
  C26: The organization guard: a request with a non-empty \<open>organizationId\<close> in its route passes for a user
  whose organizations are a list of objects exactly if one of them has that \<open>id\<close>, whatever the body
  says; without one in the route, exactly if one of them has the \<open>organizationId\<close> of the body as its \<open>id\<close>
  (none in the body matching an entry without an \<open>id\<close>), and without a body, or with a null one, the guard throws.
  A request without a user, or of a user of the Azure AD strategy, never passes.
\<close>

theorem organization_guard_decides:
  assumes "req_user req = Some user" and "property user ''organizations'' = Some (JArr orgs)" and "JNull \<notin> set orgs"
  shows "(case obj_get (req_params req) (js ''organizationId'') of
       Some i \<Rightarrow> truthy i \<longrightarrow> OrganizationGuard_canActivate req = Inr (\<exists>e\<in>set orgs. strict_equal (property e ''id'') (Some i))
     | None \<Rightarrow> True) \<and>
    (\<not> truthy_opt (obj_get (req_params req) (js ''organizationId'')) \<longrightarrow>
      (case req_body req of
         Some body \<Rightarrow> if body = JNull then \<exists>e. OrganizationGuard_canActivate req = Inl e
           else OrganizationGuard_canActivate req =
             Inr (\<exists>e\<in>set orgs. strict_equal (property e ''id'') (property body ''organizationId''))
       | None \<Rightarrow> \<exists>e. OrganizationGuard_canActivate req = Inl e)) \<and>
    OrganizationGuard_canActivate (req \<lparr> req_user := None \<rparr>) \<noteq> Inr True \<and>
    (AzureAdStrategy_validate (Some profile) = Inr other \<longrightarrow>
      OrganizationGuard_canActivate (req \<lparr> req_user := Some other \<rparr>) \<noteq> Inr True)"
proof (intro conjI impI)
  note by_param = decided_by [OF _ assms]
  show "case obj_get (req_params req) (js ''organizationId'') of
       Some i \<Rightarrow> truthy i \<longrightarrow> OrganizationGuard_canActivate req = Inr (\<exists>e\<in>set orgs. strict_equal (property e ''id'') (Some i))
     | None \<Rightarrow> True"
    using by_param by (auto simp: requested_organization_def truthy_opt_def split: option.split)
next
  assume "\<not> truthy_opt (obj_get (req_params req) (js ''organizationId''))"
  then have org: "requested_organization req = read_property (req_body req) ''organizationId''"
    by (simp add: requested_organization_def)
  show "case req_body req of
         Some body \<Rightarrow> if body = JNull then \<exists>e. OrganizationGuard_canActivate req = Inl e
           else OrganizationGuard_canActivate req =
             Inr (\<exists>e\<in>set orgs. strict_equal (property e ''id'') (property body ''organizationId''))
       | None \<Rightarrow> \<exists>e. OrganizationGuard_canActivate req = Inl e"
  proof (cases "req_body req")
    case None
    with org show ?thesis by (simp add: OrganizationGuard_canActivate_def read_property_def)
  next
    case (Some body)
    show ?thesis
    proof (cases "body = JNull")
      case True
      with org Some show ?thesis by (simp add: OrganizationGuard_canActivate_def read_property_def)
    next
      case False
      with Some have "read_property (req_body req) ''organizationId'' = Inr (property body ''organizationId'')"
        by (simp add: read_property_eq_Inr)
      with org Some False decided_by [OF _ assms] show ?thesis by simp
    qed
  qed
next
  show "OrganizationGuard_canActivate (req \<lparr> req_user := None \<rparr>) \<noteq> Inr True"
    by (rule no_organizations) (simp add: truthy_opt_def)
next
  assume "AzureAdStrategy_validate (Some profile) = Inr other"
  from azure_user(3) [OF this] show "OrganizationGuard_canActivate (req \<lparr> req_user := Some other \<rparr>) \<noteq> Inr True"
    by (intro no_organizations) simp
qed

definition sample_member :: jval where
  "sample_member = object_literal [(''organizations'',
     Some (JArr [object_literal [(''id'', Some (JStr (js ''org-1'')))]]))]"

theorem organization_guard_decides_witness:
  "OrganizationGuard_canActivate (sample_request \<lparr> req_user := Some sample_member \<rparr>) = Inr True \<and>
   OrganizationGuard_canActivate (sample_request \<lparr> req_params := [], req_user := Some sample_member,
     req_body := Some (JObj [(js ''organizationId'', JStr (js ''org-2''))]) \<rparr>) = Inr False"
proof -
  let ?orgs = "[JObj [(js ''id'', JStr (js ''org-1''))]]"
  have "property sample_member ''organizations'' = Some (JArr ?orgs)"
    by (simp add: sample_member_def) (simp add: object_literal_def)
  note decides = organization_guard_decides [OF _ this]
  show ?thesis
    using decides [of "sample_request \<lparr> req_user := Some sample_member \<rparr>"]
      decides [of "sample_request \<lparr> req_params := [], req_user := Some sample_member,
        req_body := Some (JObj [(js ''organizationId'', JStr (js ''org-2''))]) \<rparr>"]
    by (simp add: sample_request_def obj_get_def property_def truthy_opt_def)
qed

end
