(* ===== verification/Topology.thy ===== *)
theory Topology
  imports JSValue "HOL-Library.Multiset"
begin

text \<open>
  \<open>src/backend/api/src/modules/topology\<close>: the entities (organizations, sites, sensor groups, hubs,
  nodes, users), the service and the controller. The repositories (TypeORM over Postgres) are
  parameters; the theory TopologyStore states what is relied on.
\<close>

declare js_simps [simp del]

section \<open>Columns\<close>

text \<open>
  A property of an entity object is missing (\<open>undefined\<close>), \<open>null\<close>, or has a value. In a row of
  a table no column is missing.
\<close>

datatype 'a column = Undefined | Null | Value 'a

fun over :: "'a column \<Rightarrow> 'a column \<Rightarrow> 'a column" where
  "over Undefined y = y"
| "over x y = x"

text \<open>A criterion of a \<open>where\<close> object: only a value restricts the column.\<close>

fun meets :: "'a column \<Rightarrow> 'a column \<Rightarrow> bool" where
  "meets (Value a) y = (y = Value a)"
| "meets _ y = True"

fun has_value :: "'a column \<Rightarrow> bool" where
  "has_value (Value a) = True"
| "has_value _ = False"

lemma over_simps [simp]: "over x Undefined = x" "over x x = x"
  by (cases x; simp)+

section \<open>The columns of the entities\<close>

text \<open>
  Typed JSON columns (\<open>lastReading\<close>, \<open>faults\<close>) are JSON values, as Postgres stores them, and so
  are the decimal columns (\<open>latitude\<close>, \<open>longitude\<close>), which the driver returns as strings.
\<close>

record organization_row =
  org_id :: "jstring column"
  org_name :: "jstring column"
  org_description :: "jstring column"
  org_settings :: "jval column"
  org_active :: "bool column"
  org_createdAt :: "date column"
  org_updatedAt :: "date column"

definition no_organization :: organization_row where
  "no_organization = \<lparr>
     org_id = Undefined, org_name = Undefined, org_description = Undefined,
     org_settings = Undefined, org_active = Undefined, org_createdAt = Undefined,
     org_updatedAt = Undefined \<rparr>"

record user_row =
  user_id :: "jstring column"
  user_email :: "jstring column"
  user_name :: "jstring column"
  user_role :: "jstring column"
  user_active :: "bool column"
  user_organizationId :: "jstring column"
  user_createdAt :: "date column"
  user_updatedAt :: "date column"
  user_lastLogin :: "date column"

definition no_user :: user_row where
  "no_user = \<lparr>
     user_id = Undefined, user_email = Undefined, user_name = Undefined, user_role = Undefined,
     user_active = Undefined, user_organizationId = Undefined, user_createdAt = Undefined,
     user_updatedAt = Undefined, user_lastLogin = Undefined \<rparr>"

record site_row =
  site_id :: "jstring column"
  site_name :: "jstring column"
  site_description :: "jstring column"
  site_address :: "jstring column"
  site_latitude :: "jval column"
  site_longitude :: "jval column"
  site_metadata :: "jval column"
  site_organizationId :: "jstring column"
  site_createdAt :: "date column"
  site_updatedAt :: "date column"

definition no_site :: site_row where
  "no_site = \<lparr>
     site_id = Undefined, site_name = Undefined, site_description = Undefined,
     site_address = Undefined, site_latitude = Undefined, site_longitude = Undefined,
     site_metadata = Undefined, site_organizationId = Undefined, site_createdAt = Undefined,
     site_updatedAt = Undefined \<rparr>"

record sensor_group_row =
  group_id :: "jstring column"
  group_name :: "jstring column"
  group_description :: "jstring column"
  group_assetTag :: "jstring column"
  group_metadata :: "jval column"
  group_siteId :: "jstring column"
  group_createdAt :: "date column"
  group_updatedAt :: "date column"

definition no_sensor_group :: sensor_group_row where
  "no_sensor_group = \<lparr>
     group_id = Undefined, group_name = Undefined, group_description = Undefined,
     group_assetTag = Undefined, group_metadata = Undefined, group_siteId = Undefined,
     group_createdAt = Undefined, group_updatedAt = Undefined \<rparr>"

record hub_row =
  hub_id :: "jstring column"
  hub_deviceId :: "jstring column"
  hub_macAddress :: "jstring column"
  hub_serialNumber :: "jstring column"
  hub_firmwareVersion :: "jstring column"
  hub_hardwareRevision :: "jstring column"
  hub_status :: "jstring column"
  hub_lastSeen :: "date column"
  hub_deviceTwinDesired :: "jval column"
  hub_deviceTwinReported :: "jval column"
  hub_metadata :: "jval column"
  hub_siteId :: "jstring column"
  hub_createdAt :: "date column"
  hub_updatedAt :: "date column"

definition no_hub :: hub_row where
  "no_hub = \<lparr>
     hub_id = Undefined, hub_deviceId = Undefined, hub_macAddress = Undefined,
     hub_serialNumber = Undefined, hub_firmwareVersion = Undefined,
     hub_hardwareRevision = Undefined, hub_status = Undefined, hub_lastSeen = Undefined,
     hub_deviceTwinDesired = Undefined, hub_deviceTwinReported = Undefined,
     hub_metadata = Undefined, hub_siteId = Undefined, hub_createdAt = Undefined,
     hub_updatedAt = Undefined \<rparr>"

record node_row =
  node_id :: "jstring column"
  node_nodeId :: "jstring column"
  node_serialNumber :: "jstring column"
  node_firmwareVersion :: "jstring column"
  node_hardwareRevision :: "jstring column"
  node_status :: "jstring column"
  node_configuration :: "jval column"
  node_calibration :: "jval column"
  node_lastReading :: "jval column"
  node_batteryPercent :: "js_number column"
  node_batteryMillivolts :: "js_number column"
  node_faults :: "jval column"
  node_rssi :: "js_number column"
  node_lastSeen :: "date column"
  node_metadata :: "jval column"
  node_sensorGroupId :: "jstring column"
  node_hubId :: "jstring column"
  node_createdAt :: "date column"
  node_updatedAt :: "date column"

definition no_node :: node_row where
  "no_node = \<lparr>
     node_id = Undefined, node_nodeId = Undefined, node_serialNumber = Undefined,
     node_firmwareVersion = Undefined, node_hardwareRevision = Undefined, node_status = Undefined,
     node_configuration = Undefined, node_calibration = Undefined, node_lastReading = Undefined,
     node_batteryPercent = Undefined, node_batteryMillivolts = Undefined, node_faults = Undefined,
     node_rssi = Undefined, node_lastSeen = Undefined, node_metadata = Undefined,
     node_sensorGroupId = Undefined, node_hubId = Undefined, node_createdAt = Undefined,
     node_updatedAt = Undefined \<rparr>"

definition hub_statuses :: "jstring list" where
  "hub_statuses = map js [''provisioning'', ''connected'', ''disconnected'', ''error'']"

definition node_statuses :: "jstring list" where
  "node_statuses = map js [''uncommissioned'', ''operational'', ''maintenance'', ''fault'', ''offline'']"

definition user_roles :: "jstring list" where
  "user_roles = map js [''admin'', ''operator'', ''viewer'']"

section \<open>Entities\<close>

text \<open>
  An entity is its columns and its relations. A relation to one entity is loaded, \<open>null\<close> or
  missing; a relation to many is loaded or missing, and comes in no particular order.
\<close>

record Organization = organization_row +
  org_sites :: "site_row multiset option"
  org_users :: "user_row multiset option"

record Site = site_row +
  site_organization :: "organization_row column"
  site_sensorGroups :: "sensor_group_row multiset option"
  site_hubs :: "hub_row multiset option"

record SensorGroup = sensor_group_row +
  group_site :: "site_row column"
  group_nodes :: "node_row multiset option"

record Hub = hub_row +
  hub_site :: "site_row column"
  hub_nodes :: "node_row multiset option"

record Node = node_row +
  node_sensorGroup :: "sensor_group_row column"
  node_hub :: "hub_row column"

record User = user_row +
  user_organization :: "organization_row column"

section \<open>The service\<close>

text \<open>The operations of a repository that the service uses; \<open>'row\<close> is also the type of criteria.\<close>

record ('w, 'row, 'entity) repository =
  ent_create :: "'entity \<Rightarrow> 'entity"
  ent_save :: "'entity \<Rightarrow> ('w, 'entity) call"
  ent_update :: "jstring \<Rightarrow> 'entity \<Rightarrow> ('w, unit) call"
  ent_find :: "'row \<Rightarrow> string list \<Rightarrow> ('w, 'entity list) call"
  ent_findOne :: "'row \<Rightarrow> string list \<Rightarrow> ('w, 'entity option) call"

record 'w TopologyService =
  organizationRepository :: "('w, organization_row, Organization) repository"
  siteRepository :: "('w, site_row, Site) repository"
  sensorGroupRepository :: "('w, sensor_group_row, SensorGroup) repository"
  hubRepository :: "('w, hub_row, Hub) repository"
  nodeRepository :: "('w, node_row, Node) repository"

definition findAllOrganizations :: "'w TopologyService \<Rightarrow> ('w, Organization list) call" where
  "findAllOrganizations svc =
     ent_find (organizationRepository svc) no_organization [''sites'']"

definition findOrganizationById :: "'w TopologyService \<Rightarrow> jstring \<Rightarrow> ('w, Organization option) call" where
  "findOrganizationById svc i =
     ent_findOne (organizationRepository svc) (no_organization \<lparr> org_id := Value i \<rparr>) [''sites'', ''users'']"

definition createOrganization :: "'w TopologyService \<Rightarrow> Organization \<Rightarrow> ('w, Organization) call" where
  "createOrganization svc data =
     ent_save (organizationRepository svc) (ent_create (organizationRepository svc) data)"

definition findSitesByOrganization :: "'w TopologyService \<Rightarrow> jstring \<Rightarrow> ('w, Site list) call" where
  "findSitesByOrganization svc organizationId =
     ent_find (siteRepository svc) (no_site \<lparr> site_organizationId := Value organizationId \<rparr>) [''sensorGroups'', ''hubs'']"

definition findSiteById :: "'w TopologyService \<Rightarrow> jstring \<Rightarrow> ('w, Site option) call" where
  "findSiteById svc i =
     ent_findOne (siteRepository svc) (no_site \<lparr> site_id := Value i \<rparr>) [''organization'', ''sensorGroups'', ''hubs'']"

definition createSite :: "'w TopologyService \<Rightarrow> Site \<Rightarrow> ('w, Site) call" where
  "createSite svc data =
     ent_save (siteRepository svc) (ent_create (siteRepository svc) data)"

definition findSensorGroupsBySite :: "'w TopologyService \<Rightarrow> jstring \<Rightarrow> ('w, SensorGroup list) call" where
  "findSensorGroupsBySite svc siteId =
     ent_find (sensorGroupRepository svc) (no_sensor_group \<lparr> group_siteId := Value siteId \<rparr>) [''nodes'']"

definition findSensorGroupById :: "'w TopologyService \<Rightarrow> jstring \<Rightarrow> ('w, SensorGroup option) call" where
  "findSensorGroupById svc i =
     ent_findOne (sensorGroupRepository svc) (no_sensor_group \<lparr> group_id := Value i \<rparr>) [''site'', ''nodes'']"

definition createSensorGroup :: "'w TopologyService \<Rightarrow> SensorGroup \<Rightarrow> ('w, SensorGroup) call" where
  "createSensorGroup svc data =
     ent_save (sensorGroupRepository svc) (ent_create (sensorGroupRepository svc) data)"

definition findHubsBySite :: "'w TopologyService \<Rightarrow> jstring \<Rightarrow> ('w, Hub list) call" where
  "findHubsBySite svc siteId =
     ent_find (hubRepository svc) (no_hub \<lparr> hub_siteId := Value siteId \<rparr>) [''nodes'']"

definition findHubById :: "'w TopologyService \<Rightarrow> jstring \<Rightarrow> ('w, Hub option) call" where
  "findHubById svc i =
     ent_findOne (hubRepository svc) (no_hub \<lparr> hub_id := Value i \<rparr>) [''site'', ''nodes'']"

definition findHubByDeviceId :: "'w TopologyService \<Rightarrow> jstring \<Rightarrow> ('w, Hub option) call" where
  "findHubByDeviceId svc deviceId =
     ent_findOne (hubRepository svc) (no_hub \<lparr> hub_deviceId := Value deviceId \<rparr>) [''site'', ''nodes'']"

definition createHub :: "'w TopologyService \<Rightarrow> Hub \<Rightarrow> ('w, Hub) call" where
  "createHub svc data =
     ent_save (hubRepository svc) (ent_create (hubRepository svc) data)"

definition updateHub :: "'w TopologyService \<Rightarrow> jstring \<Rightarrow> Hub \<Rightarrow> ('w, Hub option) call" where
  "updateHub svc i data =
     await (ent_update (hubRepository svc) i data) (\<lambda>_. findHubById svc i)"

definition findNodesBySensorGroup :: "'w TopologyService \<Rightarrow> jstring \<Rightarrow> ('w, Node list) call" where
  "findNodesBySensorGroup svc sensorGroupId =
     ent_find (nodeRepository svc) (no_node \<lparr> node_sensorGroupId := Value sensorGroupId \<rparr>) [''hub'']"

definition findNodesByHub :: "'w TopologyService \<Rightarrow> jstring \<Rightarrow> ('w, Node list) call" where
  "findNodesByHub svc hub =
     ent_find (nodeRepository svc) (no_node \<lparr> node_hubId := Value hub \<rparr>) [''sensorGroup'']"

definition findNodeById :: "'w TopologyService \<Rightarrow> jstring \<Rightarrow> ('w, Node option) call" where
  "findNodeById svc i =
     ent_findOne (nodeRepository svc) (no_node \<lparr> node_id := Value i \<rparr>) [''sensorGroup'', ''hub'']"

definition findNodeByNodeId :: "'w TopologyService \<Rightarrow> jstring \<Rightarrow> ('w, Node option) call" where
  "findNodeByNodeId svc node =
     ent_findOne (nodeRepository svc) (no_node \<lparr> node_nodeId := Value node \<rparr>) [''sensorGroup'', ''hub'']"

definition createNode :: "'w TopologyService \<Rightarrow> Node \<Rightarrow> ('w, Node) call" where
  "createNode svc data =
     ent_save (nodeRepository svc) (ent_create (nodeRepository svc) data)"

definition updateNode :: "'w TopologyService \<Rightarrow> jstring \<Rightarrow> Node \<Rightarrow> ('w, Node option) call" where
  "updateNode svc i data =
     await (ent_update (nodeRepository svc) i data) (\<lambda>_. findNodeById svc i)"

definition node_not_found :: js_error where
  "node_not_found = Error (js ''Node not found'')"

definition assignNodeToSensorGroup :: "'w TopologyService \<Rightarrow> jstring \<Rightarrow> jstring \<Rightarrow> ('w, Node) call" where
  "assignNodeToSensorGroup svc nodeId sensorGroupId =
     await (findNodeByNodeId svc nodeId) (\<lambda>found.
       case found of
         None \<Rightarrow> throw node_not_found
       | Some node \<Rightarrow> ent_save (nodeRepository svc) (node \<lparr> node_sensorGroupId := Value sensorGroupId \<rparr>))"

definition bindNodeToHub :: "'w TopologyService \<Rightarrow> jstring \<Rightarrow> jstring \<Rightarrow> ('w, Node) call" where
  "bindNodeToHub svc nodeId hub =
     await (findNodeByNodeId svc nodeId) (\<lambda>found.
       case found of
         None \<Rightarrow> throw node_not_found
       | Some node \<Rightarrow> ent_save (nodeRepository svc) (node \<lparr> node_hubId := Value hub \<rparr>))"

section \<open>The controller\<close>

definition TopologyController_getOrganizations :: "'w TopologyService \<Rightarrow> ('w, Organization list) call" where
  "TopologyController_getOrganizations svc =
     findAllOrganizations svc"

definition TopologyController_getOrganization :: "'w TopologyService \<Rightarrow> jstring \<Rightarrow> ('w, Organization option) call" where
  "TopologyController_getOrganization svc i =
     findOrganizationById svc i"

definition TopologyController_createOrganization :: "'w TopologyService \<Rightarrow> Organization \<Rightarrow> ('w, Organization) call" where
  "TopologyController_createOrganization svc data =
     createOrganization svc data"

definition TopologyController_getSitesByOrganization :: "'w TopologyService \<Rightarrow> jstring \<Rightarrow> ('w, Site list) call" where
  "TopologyController_getSitesByOrganization svc orgId =
     findSitesByOrganization svc orgId"

definition TopologyController_getSite :: "'w TopologyService \<Rightarrow> jstring \<Rightarrow> ('w, Site option) call" where
  "TopologyController_getSite svc i =
     findSiteById svc i"

definition TopologyController_createSite :: "'w TopologyService \<Rightarrow> Site \<Rightarrow> ('w, Site) call" where
  "TopologyController_createSite svc data =
     createSite svc data"

definition TopologyController_getSensorGroupsBySite :: "'w TopologyService \<Rightarrow> jstring \<Rightarrow> ('w, SensorGroup list) call" where
  "TopologyController_getSensorGroupsBySite svc siteId =
     findSensorGroupsBySite svc siteId"

definition TopologyController_getSensorGroup :: "'w TopologyService \<Rightarrow> jstring \<Rightarrow> ('w, SensorGroup option) call" where
  "TopologyController_getSensorGroup svc i =
     findSensorGroupById svc i"

definition TopologyController_createSensorGroup :: "'w TopologyService \<Rightarrow> SensorGroup \<Rightarrow> ('w, SensorGroup) call" where
  "TopologyController_createSensorGroup svc data =
     createSensorGroup svc data"

definition TopologyController_getHubsBySite :: "'w TopologyService \<Rightarrow> jstring \<Rightarrow> ('w, Hub list) call" where
  "TopologyController_getHubsBySite svc siteId =
     findHubsBySite svc siteId"

definition TopologyController_getHub :: "'w TopologyService \<Rightarrow> jstring \<Rightarrow> ('w, Hub option) call" where
  "TopologyController_getHub svc i =
     findHubById svc i"

definition TopologyController_createHub :: "'w TopologyService \<Rightarrow> Hub \<Rightarrow> ('w, Hub) call" where
  "TopologyController_createHub svc data =
     createHub svc data"

definition TopologyController_updateHub :: "'w TopologyService \<Rightarrow> jstring \<Rightarrow> Hub \<Rightarrow> ('w, Hub option) call" where
  "TopologyController_updateHub svc i data =
     updateHub svc i data"

definition TopologyController_getNodesBySensorGroup :: "'w TopologyService \<Rightarrow> jstring \<Rightarrow> ('w, Node list) call" where
  "TopologyController_getNodesBySensorGroup svc sensorGroupId =
     findNodesBySensorGroup svc sensorGroupId"

definition TopologyController_getNodesByHub :: "'w TopologyService \<Rightarrow> jstring \<Rightarrow> ('w, Node list) call" where
  "TopologyController_getNodesByHub svc hub =
     findNodesByHub svc hub"

definition TopologyController_getNode :: "'w TopologyService \<Rightarrow> jstring \<Rightarrow> ('w, Node option) call" where
  "TopologyController_getNode svc i =
     findNodeById svc i"

definition TopologyController_createNode :: "'w TopologyService \<Rightarrow> Node \<Rightarrow> ('w, Node) call" where
  "TopologyController_createNode svc data =
     createNode svc data"

definition TopologyController_updateNode :: "'w TopologyService \<Rightarrow> jstring \<Rightarrow> Node \<Rightarrow> ('w, Node option) call" where
  "TopologyController_updateNode svc i data =
     updateNode svc i data"

definition TopologyController_assignNodeToSensorGroup :: "'w TopologyService \<Rightarrow> jstring \<Rightarrow> jstring \<Rightarrow> ('w, Node) call" where
  "TopologyController_assignNodeToSensorGroup svc nodeId sensorGroupId =
     assignNodeToSensorGroup svc nodeId sensorGroupId"

definition TopologyController_bindNodeToHub :: "'w TopologyService \<Rightarrow> jstring \<Rightarrow> jstring \<Rightarrow> ('w, Node) call" where
  "TopologyController_bindNodeToHub svc nodeId hub =
     bindNodeToHub svc nodeId hub"

end
