(* ===== verification/TopologyStore.thy ===== *)
theory TopologyStore
  imports Topology
begin

text \<open>
  What the topology service relies on: the tables behind the repositories with the constraints
  the entities declare, and how TypeORM reads and writes them. The locale \<open>table_store\<close> states
  it for one repository; a database in memory shows that all five can be met together.
\<close>

section \<open>Tables and constraints\<close>

record tables =
  organizations :: "organization_row list"
  users :: "user_row list"
  sites :: "site_row list"
  sensor_groups :: "sensor_group_row list"
  hubs :: "hub_row list"
  nodes :: "node_row list"

text \<open>A foreign key: null or the key of a row.\<close>

fun refers :: "jstring column list \<Rightarrow> jstring column \<Rightarrow> bool" where
  "refers keys (Value i) = (Value i \<in> set keys)"
| "refers keys Null = True"
| "refers keys Undefined = False"

definition keys_ok :: "jstring column list \<Rightarrow> bool" where
  "keys_ok keys \<longleftrightarrow> distinct keys \<and> list_all has_value keys"

definition in_enum :: "jstring list \<Rightarrow> jstring column \<Rightarrow> bool" where
  "in_enum vs x \<longleftrightarrow> x \<in> set (map Value vs)"

definition organizations_ok :: "tables \<Rightarrow> bool" where
  "organizations_ok T \<longleftrightarrow> keys_ok (map org_id (organizations T)) \<and> keys_ok (map org_name (organizations T))"

definition users_ok :: "tables \<Rightarrow> bool" where
  "users_ok T \<longleftrightarrow> keys_ok (map user_id (users T)) \<and> keys_ok (map user_email (users T)) \<and>
     list_all (\<lambda>r. has_value (user_name r) \<and> in_enum user_roles (user_role r) \<and>
       refers (map org_id (organizations T)) (user_organizationId r)) (users T)"

definition sites_ok :: "tables \<Rightarrow> bool" where
  "sites_ok T \<longleftrightarrow> keys_ok (map site_id (sites T)) \<and>
     list_all (\<lambda>r. has_value (site_name r) \<and> has_value (site_organizationId r) \<and>
       refers (map org_id (organizations T)) (site_organizationId r)) (sites T)"

definition sensor_groups_ok :: "tables \<Rightarrow> bool" where
  "sensor_groups_ok T \<longleftrightarrow> keys_ok (map group_id (sensor_groups T)) \<and>
     list_all (\<lambda>r. has_value (group_name r) \<and> has_value (group_siteId r) \<and>
       refers (map site_id (sites T)) (group_siteId r)) (sensor_groups T)"

definition hubs_ok :: "tables \<Rightarrow> bool" where
  "hubs_ok T \<longleftrightarrow> keys_ok (map hub_id (hubs T)) \<and> keys_ok (map hub_deviceId (hubs T)) \<and>
     list_all (\<lambda>r. in_enum hub_statuses (hub_status r) \<and> refers (map site_id (sites T)) (hub_siteId r)) (hubs T)"

definition nodes_ok :: "tables \<Rightarrow> bool" where
  "nodes_ok T \<longleftrightarrow> keys_ok (map node_id (nodes T)) \<and> keys_ok (map node_nodeId (nodes T)) \<and>
     list_all (\<lambda>r. in_enum node_statuses (node_status r) \<and>
       refers (map group_id (sensor_groups T)) (node_sensorGroupId r) \<and>
       refers (map hub_id (hubs T)) (node_hubId r)) (nodes T)"

definition consistent :: "tables \<Rightarrow> bool" where
  "consistent T \<longleftrightarrow> organizations_ok T \<and> users_ok T \<and> sites_ok T \<and> sensor_groups_ok T \<and> hubs_ok T \<and> nodes_ok T"

section \<open>Schemas\<close>

text \<open>
  What the mapping knows of an entity: its table, its key, how a criterion and a patch apply to
  a row, the default values, how relations are loaded, and which columns an entity object
  stands for.
\<close>

record ('row, 'entity) schema =
  rows_of :: "tables \<Rightarrow> 'row list"
  with_rows :: "'row list \<Rightarrow> tables \<Rightarrow> tables"
  row_id :: "'row \<Rightarrow> jstring column"
  by_id :: "jstring \<Rightarrow> 'row"
  row_matches :: "'row \<Rightarrow> 'row \<Rightarrow> bool"
  row_patch :: "'row \<Rightarrow> 'row \<Rightarrow> 'row"
  row_touch :: "date \<Rightarrow> 'row \<Rightarrow> 'row"
  row_default :: "jstring \<Rightarrow> date \<Rightarrow> 'row"
  load :: "string list \<Rightarrow> tables \<Rightarrow> 'row \<Rightarrow> 'entity"
  columns :: "'entity \<Rightarrow> 'row"
  ent_touch :: "date \<Rightarrow> 'entity \<Rightarrow> 'entity"
  no_arrays :: "'entity \<Rightarrow> bool"
  no_relations :: "'entity \<Rightarrow> bool"

text \<open>\<open>@OneToMany\<close> and \<open>@ManyToOne\<close>: the rows that refer to a key, and the row a key refers to.\<close>

definition to_many :: "bool \<Rightarrow> ('r \<Rightarrow> jstring column) \<Rightarrow> jstring column \<Rightarrow> 'r list \<Rightarrow> 'r multiset option" where
  "to_many wanted fk key rs = (if wanted then Some (filter_mset (\<lambda>r. fk r = key) (mset rs)) else None)"

definition to_one :: "bool \<Rightarrow> ('r \<Rightarrow> jstring column) \<Rightarrow> jstring column \<Rightarrow> 'r list \<Rightarrow> 'r column" where
  "to_one wanted key fk rs =
     (if \<not> wanted then Undefined
      else case List.find (\<lambda>r. key r = fk) rs of None \<Rightarrow> Null | Some r \<Rightarrow> Value r)"

text \<open>
  The foreign key an entity object stands for: TypeORM passes over the column if the object of
  the relation is there (not \<open>undefined\<close> and not \<open>null\<close>), whose key then counts.
\<close>

fun joined :: "('r \<Rightarrow> jstring column) \<Rightarrow> 'r column \<Rightarrow> jstring column \<Rightarrow> jstring column" where
  "joined key (Value r) fk = key r"
| "joined key _ fk = fk"

definition organization_matches :: "organization_row \<Rightarrow> organization_row \<Rightarrow> bool" where
  "organization_matches c r \<longleftrightarrow>
     meets (org_id c) (org_id r) \<and> meets (org_name c) (org_name r) \<and>
     meets (org_description c) (org_description r) \<and>
     meets (org_settings c) (org_settings r) \<and> meets (org_active c) (org_active r) \<and>
     meets (org_createdAt c) (org_createdAt r) \<and> meets (org_updatedAt c) (org_updatedAt r)"

definition organization_patch :: "organization_row \<Rightarrow> organization_row \<Rightarrow> organization_row" where
  "organization_patch c r = \<lparr>
     org_id = over (org_id c) (org_id r), org_name = over (org_name c) (org_name r),
     org_description = over (org_description c) (org_description r),
     org_settings = over (org_settings c) (org_settings r),
     org_active = over (org_active c) (org_active r),
     org_createdAt = over (org_createdAt c) (org_createdAt r),
     org_updatedAt = over (org_updatedAt c) (org_updatedAt r) \<rparr>"

definition organization_schema :: "(organization_row, Organization) schema" where
  "organization_schema = \<lparr>
     rows_of = organizations, with_rows = (\<lambda>rs T. T \<lparr> organizations := rs \<rparr>),
     row_id = org_id, by_id = (\<lambda>i. no_organization \<lparr> org_id := Value i \<rparr>),
     row_matches = organization_matches, row_patch = organization_patch,
     row_touch = (\<lambda>u r. r \<lparr> org_updatedAt := Value u \<rparr>),
     row_default = (\<lambda>i t. \<lparr>
       org_id = Value i, org_name = Null, org_description = Null, org_settings = Null,
       org_active = Value True, org_createdAt = Value t, org_updatedAt = Value t \<rparr>),
     load = (\<lambda>rels T r. organization_row.extend r (Organization.fields
       (to_many (''sites'' \<in> set rels) site_organizationId (org_id r) (sites T))
       (to_many (''users'' \<in> set rels) user_organizationId (org_id r) (users T)))),
     columns = (\<lambda>e. organization_row.truncate e),
     ent_touch = (\<lambda>u e. e \<lparr> org_updatedAt := Value u \<rparr>),
     no_arrays = (\<lambda>e. org_sites e = None \<and> org_users e = None),
     no_relations = (\<lambda>e. org_sites e = None \<and> org_users e = None) \<rparr>"

definition site_matches :: "site_row \<Rightarrow> site_row \<Rightarrow> bool" where
  "site_matches c r \<longleftrightarrow>
     meets (site_id c) (site_id r) \<and> meets (site_name c) (site_name r) \<and>
     meets (site_description c) (site_description r) \<and>
     meets (site_address c) (site_address r) \<and>
     meets (site_latitude c) (site_latitude r) \<and>
     meets (site_longitude c) (site_longitude r) \<and>
     meets (site_metadata c) (site_metadata r) \<and>
     meets (site_organizationId c) (site_organizationId r) \<and>
     meets (site_createdAt c) (site_createdAt r) \<and>
     meets (site_updatedAt c) (site_updatedAt r)"

definition site_patch :: "site_row \<Rightarrow> site_row \<Rightarrow> site_row" where
  "site_patch c r = \<lparr>
     site_id = over (site_id c) (site_id r), site_name = over (site_name c) (site_name r),
     site_description = over (site_description c) (site_description r),
     site_address = over (site_address c) (site_address r),
     site_latitude = over (site_latitude c) (site_latitude r),
     site_longitude = over (site_longitude c) (site_longitude r),
     site_metadata = over (site_metadata c) (site_metadata r),
     site_organizationId = over (site_organizationId c) (site_organizationId r),
     site_createdAt = over (site_createdAt c) (site_createdAt r),
     site_updatedAt = over (site_updatedAt c) (site_updatedAt r) \<rparr>"

definition site_schema :: "(site_row, Site) schema" where
  "site_schema = \<lparr>
     rows_of = sites, with_rows = (\<lambda>rs T. T \<lparr> sites := rs \<rparr>),
     row_id = site_id, by_id = (\<lambda>i. no_site \<lparr> site_id := Value i \<rparr>),
     row_matches = site_matches, row_patch = site_patch,
     row_touch = (\<lambda>u r. r \<lparr> site_updatedAt := Value u \<rparr>),
     row_default = (\<lambda>i t. \<lparr>
       site_id = Value i, site_name = Null, site_description = Null, site_address = Null,
       site_latitude = Null, site_longitude = Null, site_metadata = Null,
       site_organizationId = Null, site_createdAt = Value t, site_updatedAt = Value t \<rparr>),
     load = (\<lambda>rels T r. site_row.extend r (Site.fields
       (to_one (''organization'' \<in> set rels) org_id (site_organizationId r) (organizations T))
       (to_many (''sensorGroups'' \<in> set rels) group_siteId (site_id r) (sensor_groups T))
       (to_many (''hubs'' \<in> set rels) hub_siteId (site_id r) (hubs T)))),
     columns = (\<lambda>e. (site_row.truncate e) \<lparr> site_organizationId := joined org_id (site_organization e) (site_organizationId e) \<rparr>),
     ent_touch = (\<lambda>u e. e \<lparr> site_updatedAt := Value u \<rparr>),
     no_arrays = (\<lambda>e. site_sensorGroups e = None \<and> site_hubs e = None),
     no_relations = (\<lambda>e. site_organization e = Undefined \<and> site_sensorGroups e = None \<and> site_hubs e = None) \<rparr>"

definition sensor_group_matches :: "sensor_group_row \<Rightarrow> sensor_group_row \<Rightarrow> bool" where
  "sensor_group_matches c r \<longleftrightarrow>
     meets (group_id c) (group_id r) \<and> meets (group_name c) (group_name r) \<and>
     meets (group_description c) (group_description r) \<and>
     meets (group_assetTag c) (group_assetTag r) \<and>
     meets (group_metadata c) (group_metadata r) \<and>
     meets (group_siteId c) (group_siteId r) \<and>
     meets (group_createdAt c) (group_createdAt r) \<and>
     meets (group_updatedAt c) (group_updatedAt r)"

definition sensor_group_patch :: "sensor_group_row \<Rightarrow> sensor_group_row \<Rightarrow> sensor_group_row" where
  "sensor_group_patch c r = \<lparr>
     group_id = over (group_id c) (group_id r), group_name = over (group_name c) (group_name r),
     group_description = over (group_description c) (group_description r),
     group_assetTag = over (group_assetTag c) (group_assetTag r),
     group_metadata = over (group_metadata c) (group_metadata r),
     group_siteId = over (group_siteId c) (group_siteId r),
     group_createdAt = over (group_createdAt c) (group_createdAt r),
     group_updatedAt = over (group_updatedAt c) (group_updatedAt r) \<rparr>"

definition sensor_group_schema :: "(sensor_group_row, SensorGroup) schema" where
  "sensor_group_schema = \<lparr>
     rows_of = sensor_groups, with_rows = (\<lambda>rs T. T \<lparr> sensor_groups := rs \<rparr>),
     row_id = group_id, by_id = (\<lambda>i. no_sensor_group \<lparr> group_id := Value i \<rparr>),
     row_matches = sensor_group_matches, row_patch = sensor_group_patch,
     row_touch = (\<lambda>u r. r \<lparr> group_updatedAt := Value u \<rparr>),
     row_default = (\<lambda>i t. \<lparr>
       group_id = Value i, group_name = Null, group_description = Null, group_assetTag = Null,
       group_metadata = Null, group_siteId = Null, group_createdAt = Value t,
       group_updatedAt = Value t \<rparr>),
     load = (\<lambda>rels T r. sensor_group_row.extend r (SensorGroup.fields
       (to_one (''site'' \<in> set rels) site_id (group_siteId r) (sites T))
       (to_many (''nodes'' \<in> set rels) node_sensorGroupId (group_id r) (nodes T)))),
     columns = (\<lambda>e. (sensor_group_row.truncate e) \<lparr> group_siteId := joined site_id (group_site e) (group_siteId e) \<rparr>),
     ent_touch = (\<lambda>u e. e \<lparr> group_updatedAt := Value u \<rparr>),
     no_arrays = (\<lambda>e. group_nodes e = None),
     no_relations = (\<lambda>e. group_site e = Undefined \<and> group_nodes e = None) \<rparr>"

definition hub_matches :: "hub_row \<Rightarrow> hub_row \<Rightarrow> bool" where
  "hub_matches c r \<longleftrightarrow>
     meets (hub_id c) (hub_id r) \<and> meets (hub_deviceId c) (hub_deviceId r) \<and>
     meets (hub_macAddress c) (hub_macAddress r) \<and>
     meets (hub_serialNumber c) (hub_serialNumber r) \<and>
     meets (hub_firmwareVersion c) (hub_firmwareVersion r) \<and>
     meets (hub_hardwareRevision c) (hub_hardwareRevision r) \<and>
     meets (hub_status c) (hub_status r) \<and> meets (hub_lastSeen c) (hub_lastSeen r) \<and>
     meets (hub_deviceTwinDesired c) (hub_deviceTwinDesired r) \<and>
     meets (hub_deviceTwinReported c) (hub_deviceTwinReported r) \<and>
     meets (hub_metadata c) (hub_metadata r) \<and> meets (hub_siteId c) (hub_siteId r) \<and>
     meets (hub_createdAt c) (hub_createdAt r) \<and> meets (hub_updatedAt c) (hub_updatedAt r)"

definition hub_patch :: "hub_row \<Rightarrow> hub_row \<Rightarrow> hub_row" where
  "hub_patch c r = \<lparr>
     hub_id = over (hub_id c) (hub_id r), hub_deviceId = over (hub_deviceId c) (hub_deviceId r),
     hub_macAddress = over (hub_macAddress c) (hub_macAddress r),
     hub_serialNumber = over (hub_serialNumber c) (hub_serialNumber r),
     hub_firmwareVersion = over (hub_firmwareVersion c) (hub_firmwareVersion r),
     hub_hardwareRevision = over (hub_hardwareRevision c) (hub_hardwareRevision r),
     hub_status = over (hub_status c) (hub_status r),
     hub_lastSeen = over (hub_lastSeen c) (hub_lastSeen r),
     hub_deviceTwinDesired = over (hub_deviceTwinDesired c) (hub_deviceTwinDesired r),
     hub_deviceTwinReported = over (hub_deviceTwinReported c) (hub_deviceTwinReported r),
     hub_metadata = over (hub_metadata c) (hub_metadata r),
     hub_siteId = over (hub_siteId c) (hub_siteId r),
     hub_createdAt = over (hub_createdAt c) (hub_createdAt r),
     hub_updatedAt = over (hub_updatedAt c) (hub_updatedAt r) \<rparr>"

definition hub_schema :: "(hub_row, Hub) schema" where
  "hub_schema = \<lparr>
     rows_of = hubs, with_rows = (\<lambda>rs T. T \<lparr> hubs := rs \<rparr>),
     row_id = hub_id, by_id = (\<lambda>i. no_hub \<lparr> hub_id := Value i \<rparr>),
     row_matches = hub_matches, row_patch = hub_patch,
     row_touch = (\<lambda>u r. r \<lparr> hub_updatedAt := Value u \<rparr>),
     row_default = (\<lambda>i t. \<lparr>
       hub_id = Value i, hub_deviceId = Null, hub_macAddress = Null, hub_serialNumber = Null,
       hub_firmwareVersion = Null, hub_hardwareRevision = Null,
       hub_status = Value (js ''provisioning''), hub_lastSeen = Null,
       hub_deviceTwinDesired = Null, hub_deviceTwinReported = Null, hub_metadata = Null,
       hub_siteId = Null, hub_createdAt = Value t, hub_updatedAt = Value t \<rparr>),
     load = (\<lambda>rels T r. hub_row.extend r (Hub.fields
       (to_one (''site'' \<in> set rels) site_id (hub_siteId r) (sites T))
       (to_many (''nodes'' \<in> set rels) node_hubId (hub_id r) (nodes T)))),
     columns = (\<lambda>e. (hub_row.truncate e) \<lparr> hub_siteId := joined site_id (hub_site e) (hub_siteId e) \<rparr>),
     ent_touch = (\<lambda>u e. e \<lparr> hub_updatedAt := Value u \<rparr>),
     no_arrays = (\<lambda>e. hub_nodes e = None),
     no_relations = (\<lambda>e. hub_site e = Undefined \<and> hub_nodes e = None) \<rparr>"

definition node_matches :: "node_row \<Rightarrow> node_row \<Rightarrow> bool" where
  "node_matches c r \<longleftrightarrow>
     meets (node_id c) (node_id r) \<and> meets (node_nodeId c) (node_nodeId r) \<and>
     meets (node_serialNumber c) (node_serialNumber r) \<and>
     meets (node_firmwareVersion c) (node_firmwareVersion r) \<and>
     meets (node_hardwareRevision c) (node_hardwareRevision r) \<and>
     meets (node_status c) (node_status r) \<and>
     meets (node_configuration c) (node_configuration r) \<and>
     meets (node_calibration c) (node_calibration r) \<and>
     meets (node_lastReading c) (node_lastReading r) \<and>
     meets (node_batteryPercent c) (node_batteryPercent r) \<and>
     meets (node_batteryMillivolts c) (node_batteryMillivolts r) \<and>
     meets (node_faults c) (node_faults r) \<and> meets (node_rssi c) (node_rssi r) \<and>
     meets (node_lastSeen c) (node_lastSeen r) \<and>
     meets (node_metadata c) (node_metadata r) \<and>
     meets (node_sensorGroupId c) (node_sensorGroupId r) \<and>
     meets (node_hubId c) (node_hubId r) \<and> meets (node_createdAt c) (node_createdAt r) \<and>
     meets (node_updatedAt c) (node_updatedAt r)"

definition node_patch :: "node_row \<Rightarrow> node_row \<Rightarrow> node_row" where
  "node_patch c r = \<lparr>
     node_id = over (node_id c) (node_id r), node_nodeId = over (node_nodeId c) (node_nodeId r),
     node_serialNumber = over (node_serialNumber c) (node_serialNumber r),
     node_firmwareVersion = over (node_firmwareVersion c) (node_firmwareVersion r),
     node_hardwareRevision = over (node_hardwareRevision c) (node_hardwareRevision r),
     node_status = over (node_status c) (node_status r),
     node_configuration = over (node_configuration c) (node_configuration r),
     node_calibration = over (node_calibration c) (node_calibration r),
     node_lastReading = over (node_lastReading c) (node_lastReading r),
     node_batteryPercent = over (node_batteryPercent c) (node_batteryPercent r),
     node_batteryMillivolts = over (node_batteryMillivolts c) (node_batteryMillivolts r),
     node_faults = over (node_faults c) (node_faults r),
     node_rssi = over (node_rssi c) (node_rssi r),
     node_lastSeen = over (node_lastSeen c) (node_lastSeen r),
     node_metadata = over (node_metadata c) (node_metadata r),
     node_sensorGroupId = over (node_sensorGroupId c) (node_sensorGroupId r),
     node_hubId = over (node_hubId c) (node_hubId r),
     node_createdAt = over (node_createdAt c) (node_createdAt r),
     node_updatedAt = over (node_updatedAt c) (node_updatedAt r) \<rparr>"

definition node_schema :: "(node_row, Node) schema" where
  "node_schema = \<lparr>
     rows_of = nodes, with_rows = (\<lambda>rs T. T \<lparr> nodes := rs \<rparr>),
     row_id = node_id, by_id = (\<lambda>i. no_node \<lparr> node_id := Value i \<rparr>),
     row_matches = node_matches, row_patch = node_patch,
     row_touch = (\<lambda>u r. r \<lparr> node_updatedAt := Value u \<rparr>),
     row_default = (\<lambda>i t. \<lparr>
       node_id = Value i, node_nodeId = Null, node_serialNumber = Null,
       node_firmwareVersion = Null, node_hardwareRevision = Null,
       node_status = Value (js ''uncommissioned''), node_configuration = Null,
       node_calibration = Null, node_lastReading = Null, node_batteryPercent = Null,
       node_batteryMillivolts = Null, node_faults = Null, node_rssi = Null, node_lastSeen = Null,
       node_metadata = Null, node_sensorGroupId = Null, node_hubId = Null,
       node_createdAt = Value t, node_updatedAt = Value t \<rparr>),
     load = (\<lambda>rels T r. node_row.extend r (Node.fields
       (to_one (''sensorGroup'' \<in> set rels) group_id (node_sensorGroupId r) (sensor_groups T))
       (to_one (''hub'' \<in> set rels) hub_id (node_hubId r) (hubs T)))),
     columns = (\<lambda>e. (node_row.truncate e) \<lparr> node_sensorGroupId := joined group_id (node_sensorGroup e) (node_sensorGroupId e),
       node_hubId := joined hub_id (node_hub e) (node_hubId e) \<rparr>),
     ent_touch = (\<lambda>u e. e \<lparr> node_updatedAt := Value u \<rparr>),
     no_arrays = (\<lambda>e. True),
     no_relations = (\<lambda>e. node_sensorGroup e = Undefined \<and> node_hub e = Undefined) \<rparr>"

section \<open>The laws\<close>

text \<open>
  For one repository: \<open>fits\<close> holds of the rows, patches and criteria whose values the columns
  can hold unchanged (texts without NUL, identifiers in canonical form, integers of the width of
  the column, no null in a column that must have a value). The constraints always hold: a write
  that would violate one is rejected and writes nothing. \<open>save\<close> of an entity whose key is in the
  table patches that row, of any other entity inserts a row; of \<open>updatedAt\<close> nothing is said but
  that it is set.
\<close>

definition overlay :: "('row, 'entity) schema \<Rightarrow> jstring column \<Rightarrow> date \<Rightarrow> 'row \<Rightarrow> 'row list \<Rightarrow> 'row list" where
  "overlay S key u c rs = map (\<lambda>r. if row_id S r = key then row_touch S u (row_patch S c r) else r) rs"

definition known_key :: "('row, 'entity) schema \<Rightarrow> tables \<Rightarrow> jstring column \<Rightarrow> bool" where
  "known_key S T key \<longleftrightarrow> key \<in> set (map (row_id S) (rows_of S T))"

definition written :: "js_error + 'a \<Rightarrow> tables \<Rightarrow> tables \<Rightarrow> tables \<Rightarrow> ('a \<Rightarrow> bool) \<Rightarrow> bool" where
  "written res old new T P \<longleftrightarrow>
     (if consistent new then T = new \<and> (case res of Inl e \<Rightarrow> False | Inr a \<Rightarrow> P a)
      else T = old \<and> (case res of Inl e \<Rightarrow> True | Inr a \<Rightarrow> False))"

definition reads_ok ::
  "('w, 'row, 'entity) repository \<Rightarrow> ('row, 'entity) schema \<Rightarrow> ('row \<Rightarrow> bool) \<Rightarrow> ('w \<Rightarrow> tables) \<Rightarrow> bool" where
  "reads_ok R S fits db \<longleftrightarrow>
     (\<forall>c rels w. fits c \<longrightarrow> (\<exists>es. ent_find R c rels w = (Inr es, w) \<and>
        mset es = image_mset (load S rels (db w)) (filter_mset (row_matches S c) (mset (rows_of S (db w)))))) \<and>
     (\<forall>c rels w. fits c \<longrightarrow> (\<exists>found. ent_findOne R c rels w = (Inr found, w) \<and>
        (case found of None \<Rightarrow> \<forall>r\<in>set (rows_of S (db w)). \<not> row_matches S c r
         | Some e \<Rightarrow> \<exists>r\<in>set (rows_of S (db w)). row_matches S c r \<and> e = load S rels (db w) r)))"

definition save_known_ok ::
  "('w, 'row, 'entity) repository \<Rightarrow> ('row, 'entity) schema \<Rightarrow> ('row \<Rightarrow> bool) \<Rightarrow> ('w \<Rightarrow> tables) \<Rightarrow> bool" where
  "save_known_ok R S fits db \<longleftrightarrow>
     (\<forall>e w. fits (columns S e) \<longrightarrow> no_arrays S e \<longrightarrow> known_key S (db w) (row_id S (columns S e)) \<longrightarrow>
        (\<exists>res w' u. ent_save R e w = (res, w') \<and>
           written res (db w) (with_rows S (overlay S (row_id S (columns S e)) u (columns S e) (rows_of S (db w))) (db w))
             (db w') (\<lambda>e'. ent_touch S u e' = ent_touch S u e)))"

definition inserted :: "('row, 'entity) schema \<Rightarrow> jstring \<Rightarrow> date \<Rightarrow> 'entity \<Rightarrow> 'row" where
  "inserted S i t e = row_patch S (columns S e) (row_default S i t)"

definition save_new_ok ::
  "('w, 'row, 'entity) repository \<Rightarrow> ('row, 'entity) schema \<Rightarrow> ('row \<Rightarrow> bool) \<Rightarrow> ('w \<Rightarrow> tables) \<Rightarrow> bool" where
  "save_new_ok R S fits db \<longleftrightarrow>
     (\<forall>e w. fits (columns S e) \<longrightarrow> no_relations S e \<longrightarrow> row_id S (columns S e) \<noteq> Null \<longrightarrow>
        \<not> known_key S (db w) (row_id S (columns S e)) \<longrightarrow>
        (\<exists>res w' i t. ent_save R e w = (res, w') \<and> \<not> known_key S (db w) (Value i) \<and>
           written res (db w) (with_rows S (rows_of S (db w) @ [inserted S i t e]) (db w)) (db w')
             (\<lambda>e'. row_patch S (columns S e') (inserted S i t e) = inserted S i t e)))"

definition update_ok ::
  "('w, 'row, 'entity) repository \<Rightarrow> ('row, 'entity) schema \<Rightarrow> ('row \<Rightarrow> bool) \<Rightarrow> ('w \<Rightarrow> tables) \<Rightarrow> bool" where
  "update_ok R S fits db \<longleftrightarrow>
     (\<forall>i d w. fits (by_id S i) \<longrightarrow> fits (columns S d) \<longrightarrow> no_relations S d \<longrightarrow> (\<exists>c. row_patch S (columns S d) c \<noteq> c) \<longrightarrow>
        (\<exists>res w' u. ent_update R i d w = (res, w') \<and>
           written res (db w) (with_rows S (overlay S (Value i) u (columns S d) (rows_of S (db w))) (db w))
             (db w') (\<lambda>_. True)))"

definition repository_laws ::
  "('w, 'row, 'entity) repository \<Rightarrow> ('row, 'entity) schema \<Rightarrow> ('row \<Rightarrow> bool) \<Rightarrow> ('w \<Rightarrow> tables) \<Rightarrow> bool" where
  "repository_laws R S fits db \<longleftrightarrow>
     (\<forall>e. ent_create R e = e) \<and>
     (\<forall>w. consistent (db w) \<and> list_all fits (rows_of S (db w))) \<and>
     (\<forall>c r. fits c \<longrightarrow> fits r \<longrightarrow> fits (row_patch S c r)) \<and>
     reads_ok R S fits db \<and> save_known_ok R S fits db \<and> save_new_ok R S fits db \<and> update_ok R S fits db"

locale table_store =
  fixes R :: "('w, 'row, 'entity) repository"
    and S :: "('row, 'entity) schema"
    and fits :: "'row \<Rightarrow> bool"
    and db :: "'w \<Rightarrow> tables"
  assumes laws: "repository_laws R S fits db"
begin

lemma create_id [simp]: "ent_create R e = e"
  using laws by (simp add: repository_laws_def)

lemma db_consistent: "consistent (db w)"
  using laws by (simp add: repository_laws_def)

lemma row_fits: "r \<in> set (rows_of S (db w)) \<Longrightarrow> fits r"
  using laws by (simp add: repository_laws_def list_all_iff)

lemma patch_fits: "fits c \<Longrightarrow> fits r \<Longrightarrow> fits (row_patch S c r)"
  using laws by (simp add: repository_laws_def)

lemma find_law:
  "fits c \<Longrightarrow> \<exists>es. ent_find R c rels w = (Inr es, w) \<and>
     mset es = image_mset (load S rels (db w)) (filter_mset (row_matches S c) (mset (rows_of S (db w))))"
  using laws by (simp add: repository_laws_def reads_ok_def)

lemma findOne_law:
  "fits c \<Longrightarrow> \<exists>found. ent_findOne R c rels w = (Inr found, w) \<and>
     (case found of None \<Rightarrow> \<forall>r\<in>set (rows_of S (db w)). \<not> row_matches S c r
      | Some e \<Rightarrow> \<exists>r\<in>set (rows_of S (db w)). row_matches S c r \<and> e = load S rels (db w) r)"
  using laws by (simp add: repository_laws_def reads_ok_def)

lemma findOne_none:
  assumes "fits c" and "\<forall>r\<in>set (rows_of S (db w)). \<not> row_matches S c r"
  shows "ent_findOne R c rels w = (Inr None, w)"
proof -
  obtain found where f: "ent_findOne R c rels w = (Inr found, w)"
    "case found of None \<Rightarrow> \<forall>r\<in>set (rows_of S (db w)). \<not> row_matches S c r
     | Some e \<Rightarrow> \<exists>r\<in>set (rows_of S (db w)). row_matches S c r \<and> e = load S rels (db w) r"
    using findOne_law [OF assms(1)] by blast
  with assms(2) show ?thesis by (cases found) auto
qed

lemma findOne_unique:
  assumes "fits c" and "r \<in> set (rows_of S (db w))" and "row_matches S c r"
    and "\<And>r'. r' \<in> set (rows_of S (db w)) \<Longrightarrow> row_matches S c r' \<Longrightarrow> r' = r"
  shows "ent_findOne R c rels w = (Inr (Some (load S rels (db w) r)), w)"
proof -
  obtain found where f: "ent_findOne R c rels w = (Inr found, w)"
    "case found of None \<Rightarrow> \<forall>r\<in>set (rows_of S (db w)). \<not> row_matches S c r
     | Some e \<Rightarrow> \<exists>r\<in>set (rows_of S (db w)). row_matches S c r \<and> e = load S rels (db w) r"
    using findOne_law [OF assms(1)] by blast
  show ?thesis
  proof (cases found)
    case None
    with f(2) assms(2,3) show ?thesis by simp
  next
    case (Some e)
    with f(2) obtain r' where "r' \<in> set (rows_of S (db w))" "row_matches S c r'" "e = load S rels (db w) r'" by auto
    with assms(4) f(1) Some show ?thesis by metis
  qed
qed

lemma save_known:
  assumes "fits (columns S e)" and "no_arrays S e" and "known_key S (db w) (row_id S (columns S e))"
  shows "\<exists>res w' u. ent_save R e w = (res, w') \<and>
    written res (db w) (with_rows S (overlay S (row_id S (columns S e)) u (columns S e) (rows_of S (db w))) (db w))
      (db w') (\<lambda>e'. ent_touch S u e' = ent_touch S u e)"
  using laws assms unfolding repository_laws_def save_known_ok_def by blast

lemma save_new:
  assumes "fits (columns S e)" and "no_relations S e" and "row_id S (columns S e) \<noteq> Null"
    and "\<not> known_key S (db w) (row_id S (columns S e))"
  shows "\<exists>res w' i t. ent_save R e w = (res, w') \<and> \<not> known_key S (db w) (Value i) \<and>
    written res (db w) (with_rows S (rows_of S (db w) @ [inserted S i t e]) (db w)) (db w')
      (\<lambda>e'. row_patch S (columns S e') (inserted S i t e) = inserted S i t e)"
  using laws assms unfolding repository_laws_def save_new_ok_def by blast

lemma update_law:
  assumes "fits (by_id S i)" and "fits (columns S d)" and "no_relations S d" and "row_patch S (columns S d) c \<noteq> c"
  shows "\<exists>res w' u. ent_update R i d w = (res, w') \<and>
    written res (db w) (with_rows S (overlay S (Value i) u (columns S d) (rows_of S (db w))) (db w)) (db w') (\<lambda>_. True)"
  using laws assms unfolding repository_laws_def update_ok_def by blast

end

text \<open>The five repositories on one database.\<close>

record column_checks =
  fit_organization :: "organization_row \<Rightarrow> bool"
  fit_site :: "site_row \<Rightarrow> bool"
  fit_sensor_group :: "sensor_group_row \<Rightarrow> bool"
  fit_hub :: "hub_row \<Rightarrow> bool"
  fit_node :: "node_row \<Rightarrow> bool"

definition topology_laws :: "'w TopologyService \<Rightarrow> column_checks \<Rightarrow> ('w \<Rightarrow> tables) \<Rightarrow> bool" where
  "topology_laws svc F db \<longleftrightarrow>
     repository_laws (organizationRepository svc) organization_schema (fit_organization F) db \<and>
     repository_laws (siteRepository svc) site_schema (fit_site F) db \<and>
     repository_laws (sensorGroupRepository svc) sensor_group_schema (fit_sensor_group F) db \<and>
     repository_laws (hubRepository svc) hub_schema (fit_hub F) db \<and>
     repository_laws (nodeRepository svc) node_schema (fit_node F) db"

locale topology =
  fixes svc :: "'w TopologyService"
    and F :: column_checks
    and db :: "'w \<Rightarrow> tables"
  assumes topo: "topology_laws svc F db"

sublocale topology \<subseteq> organization: table_store "organizationRepository svc" organization_schema "fit_organization F" db
  using topo by unfold_locales (simp add: topology_laws_def)

sublocale topology \<subseteq> site: table_store "siteRepository svc" site_schema "fit_site F" db
  using topo by unfold_locales (simp add: topology_laws_def)

sublocale topology \<subseteq> sensor_group: table_store "sensorGroupRepository svc" sensor_group_schema "fit_sensor_group F" db
  using topo by unfold_locales (simp add: topology_laws_def)

sublocale topology \<subseteq> hub: table_store "hubRepository svc" hub_schema "fit_hub F" db
  using topo by unfold_locales (simp add: topology_laws_def)

sublocale topology \<subseteq> node: table_store "nodeRepository svc" node_schema "fit_node F" db
  using topo by unfold_locales (simp add: topology_laws_def)

section \<open>A database in memory\<close>

definition no_tables :: tables where
  "no_tables = \<lparr> organizations = [], users = [], sites = [], sensor_groups = [], hubs = [], nodes = [] \<rparr>"

lemma no_tables_consistent: "consistent no_tables"
  by (simp add: no_tables_def consistent_def organizations_ok_def users_ok_def sites_ok_def sensor_groups_ok_def
      hubs_ok_def nodes_ok_def keys_ok_def)

text \<open>Every state stands for consistent tables.\<close>

definition stored :: "tables \<Rightarrow> tables" where
  "stored w = (if consistent w then w else no_tables)"

lemma stored_consistent [simp]: "consistent (stored w)"
  by (simp add: stored_def no_tables_consistent)

lemma stored_id [simp]: "consistent w \<Longrightarrow> stored w = w"
  by (simp add: stored_def)

definition commit :: "tables \<Rightarrow> tables \<Rightarrow> 'a \<Rightarrow> (js_error + 'a) \<times> tables" where
  "commit w new a = (if consistent new then (Inr a, new) else (Inl (Error (js ''constraint violated'')), w))"

fun key_length :: "jstring column \<Rightarrow> nat" where
  "key_length (Value i) = length i"
| "key_length _ = 0"

definition fresh_key :: "jstring column list \<Rightarrow> jstring" where
  "fresh_key keys = replicate (Suc (sum_list (map key_length keys))) 48"

lemma fresh_key_new: "Value (fresh_key keys) \<notin> set keys"
proof
  assume "Value (fresh_key keys) \<in> set keys"
  then have "key_length (Value (fresh_key keys)) \<le> sum_list (map key_length keys)"
    by (intro member_le_sum_list) (auto intro: image_eqI [of _ _ "Value (fresh_key keys)"])
  then show False by (simp add: fresh_key_def)
qed

definition memory_repository :: "('row, 'entity) schema \<Rightarrow> (tables, 'row, 'entity) repository" where
  "memory_repository S = \<lparr>
     ent_create = id,
     ent_save = (\<lambda>e w.
       let c = columns S e; rs = rows_of S (stored w); T = stored w in
       if known_key S T (row_id S c) then commit w (with_rows S (overlay S (row_id S c) 0 c rs) T) e
       else let r = row_patch S c (row_default S (fresh_key (map (row_id S) rs)) 0);
                new = with_rows S (rs @ [r]) T
            in commit w new (load S [] new r)),
     ent_update = (\<lambda>i d w. let T = stored w in
       commit w (with_rows S (overlay S (Value i) 0 (columns S d) (rows_of S T)) T) ()),
     ent_find = (\<lambda>c rels w. (Inr (map (load S rels (stored w)) (filter (row_matches S c) (rows_of S (stored w)))), w)),
     ent_findOne = (\<lambda>c rels w.
       (Inr (map_option (load S rels (stored w)) (List.find (row_matches S c) (rows_of S (stored w)))), w)) \<rparr>"

definition schema_ok :: "('row, 'entity) schema \<Rightarrow> bool" where
  "schema_ok S \<longleftrightarrow> (\<forall>T r. row_patch S (columns S (load S [] T r)) r = r)"

lemma commit_written:
  "commit w new a = (res, w') \<Longrightarrow> P a \<Longrightarrow> written res (stored w) new (stored w') P"
  by (auto simp: commit_def written_def split: if_splits)

lemma memory_save_known: "save_known_ok (memory_repository S) S (\<lambda>_. True) stored"
  unfolding save_known_ok_def
proof (intro allI impI)
  fix e w
  let ?c = "columns S e"
  let ?T = "stored w"
  assume known: "known_key S ?T (row_id S ?c)"
  let ?new = "with_rows S (overlay S (row_id S ?c) 0 ?c (rows_of S ?T)) ?T"
  obtain res w' where s: "commit w ?new e = (res, w')" by fastforce
  then have "ent_save (memory_repository S) e w = (res, w')"
    using known by (simp add: memory_repository_def Let_def)
  with commit_written [OF s, of "\<lambda>e'. ent_touch S 0 e' = ent_touch S 0 e"]
  show "\<exists>res w' u. ent_save (memory_repository S) e w = (res, w') \<and>
      written res ?T (with_rows S (overlay S (row_id S ?c) u ?c (rows_of S ?T)) ?T) (stored w')
        (\<lambda>e'. ent_touch S u e' = ent_touch S u e)"
    by blast
qed

lemma memory_save_new:
  assumes "schema_ok S"
  shows "save_new_ok (memory_repository S) S (\<lambda>_. True) stored"
  unfolding save_new_ok_def
proof (intro allI impI)
  fix e w
  let ?c = "columns S e"
  let ?T = "stored w"
  assume new: "\<not> known_key S ?T (row_id S ?c)"
  let ?i = "fresh_key (map (row_id S) (rows_of S ?T))"
  let ?r = "inserted S ?i 0 e"
  let ?new = "with_rows S (rows_of S ?T @ [?r]) ?T"
  obtain res w' where s: "commit w ?new (load S [] ?new ?r) = (res, w')" by fastforce
  then have "ent_save (memory_repository S) e w = (res, w')"
    using new by (simp add: memory_repository_def Let_def inserted_def)
  moreover have "\<not> known_key S ?T (Value ?i)" by (simp add: known_key_def fresh_key_new del: set_map)
  moreover have "written res ?T ?new (stored w') (\<lambda>e'. row_patch S (columns S e') ?r = ?r)"
    using assms by (intro commit_written [OF s]) (simp add: schema_ok_def)
  ultimately show "\<exists>res w' i t. ent_save (memory_repository S) e w = (res, w') \<and> \<not> known_key S ?T (Value i) \<and>
      written res ?T (with_rows S (rows_of S ?T @ [inserted S i t e]) ?T) (stored w')
        (\<lambda>e'. row_patch S (columns S e') (inserted S i t e) = inserted S i t e)"
    by blast
qed

lemma memory_update: "update_ok (memory_repository S) S (\<lambda>_. True) stored"
  unfolding update_ok_def
proof (intro allI impI)
  fix i d w
  let ?T = "stored w"
  let ?new = "with_rows S (overlay S (Value i) 0 (columns S d) (rows_of S ?T)) ?T"
  obtain res w' where s: "commit w ?new () = (res, w')" by fastforce
  then have "ent_update (memory_repository S) i d w = (res, w')"
    by (simp add: memory_repository_def Let_def)
  with commit_written [OF s, of "\<lambda>_. True"]
  show "\<exists>res w' u. ent_update (memory_repository S) i d w = (res, w') \<and>
      written res ?T (with_rows S (overlay S (Value i) u (columns S d) (rows_of S ?T)) ?T) (stored w') (\<lambda>_. True)"
    by blast
qed

lemma memory_reads: "reads_ok (memory_repository S) S (\<lambda>_. True) stored"
  by (auto simp: reads_ok_def memory_repository_def mset_filter find_None_iff find_Some_iff split: option.split)

lemma memory_repository_laws:
  assumes "schema_ok S"
  shows "repository_laws (memory_repository S) S (\<lambda>_. True) stored"
  by (simp add: repository_laws_def memory_reads memory_save_known memory_save_new [OF assms] memory_update list_all_iff)
     (simp add: memory_repository_def)

lemma patch_self [simp]:
  "organization_patch r0 r0 = r0"
  "site_patch r1 r1 = r1"
  "sensor_group_patch r2 r2 = r2"
  "hub_patch r3 r3 = r3"
  "node_patch r4 r4 = r4"
  by (simp_all add: organization_patch_def site_patch_def sensor_group_patch_def hub_patch_def node_patch_def)

lemma columns_load [simp]:
  "columns organization_schema (load organization_schema [] T r0) = r0"
  "columns site_schema (load site_schema [] T r1) = r1"
  "columns sensor_group_schema (load sensor_group_schema [] T r2) = r2"
  "columns hub_schema (load hub_schema [] T r3) = r3"
  "columns node_schema (load node_schema [] T r4) = r4"
  by (simp_all add: organization_schema_def organization_row.defs Organization.defs site_schema_def site_row.defs Site.defs sensor_group_schema_def sensor_group_row.defs SensorGroup.defs hub_schema_def hub_row.defs Hub.defs node_schema_def node_row.defs Node.defs to_one_def)

lemma schema_patch [simp]:
  "row_patch organization_schema = organization_patch"
  "row_patch site_schema = site_patch"
  "row_patch sensor_group_schema = sensor_group_patch"
  "row_patch hub_schema = hub_patch"
  "row_patch node_schema = node_patch"
  by (simp_all add: organization_schema_def site_schema_def sensor_group_schema_def hub_schema_def node_schema_def)

lemma schemas_ok:
  "schema_ok organization_schema" "schema_ok site_schema" "schema_ok sensor_group_schema"
  "schema_ok hub_schema" "schema_ok node_schema"
  by (simp_all add: schema_ok_def)

definition memory_topology :: "tables TopologyService" where
  "memory_topology = \<lparr>
     organizationRepository = memory_repository organization_schema,
     siteRepository = memory_repository site_schema,
     sensorGroupRepository = memory_repository sensor_group_schema,
     hubRepository = memory_repository hub_schema,
     nodeRepository = memory_repository node_schema \<rparr>"

definition all_fit :: column_checks where
  "all_fit = \<lparr> fit_organization = \<lambda>_. True, fit_site = \<lambda>_. True, fit_sensor_group = \<lambda>_. True,
     fit_hub = \<lambda>_. True, fit_node = \<lambda>_. True \<rparr>"

lemma memory_topology_laws: "topology_laws memory_topology all_fit stored"
  by (simp add: topology_laws_def memory_topology_def all_fit_def memory_repository_laws schemas_ok)

interpretation memory_db: topology memory_topology all_fit stored
  by unfold_locales (rule memory_topology_laws)

section \<open>Sample tables\<close>

definition sample_tables :: tables where
  "sample_tables = \<lparr>
     organizations = [(row_default organization_schema (js ''org-1'') 0) \<lparr> org_name := Value (js ''Plant'') \<rparr>],
     users = [],
     sites = [(row_default site_schema (js ''site-1'') 0) \<lparr> site_name := Value (js ''Hall''), site_organizationId := Value (js ''org-1'') \<rparr>],
     sensor_groups = [(row_default sensor_group_schema (js ''group-1'') 0) \<lparr> group_name := Value (js ''Press''), group_siteId := Value (js ''site-1'') \<rparr>],
     hubs = [(row_default hub_schema (js ''hub-1'') 0) \<lparr> hub_deviceId := Value (js ''device-1''), hub_siteId := Value (js ''site-1'') \<rparr>,
             (row_default hub_schema (js ''hub-2'') 0) \<lparr> hub_deviceId := Value (js ''device-2''), hub_siteId := Value (js ''site-1'') \<rparr>],
     nodes = [(row_default node_schema (js ''key-1'') 0) \<lparr> node_nodeId := Value (js ''node-1'') \<rparr>,
              (row_default node_schema (js ''key-2'') 0) \<lparr> node_nodeId := Value (js ''node-2''), node_hubId := Value (js ''hub-1'') \<rparr>] \<rparr>"

lemma sample_tables_consistent [simp]: "consistent sample_tables"
  by (simp add: sample_tables_def consistent_def organizations_ok_def users_ok_def sites_ok_def sensor_groups_ok_def
      hubs_ok_def nodes_ok_def keys_ok_def in_enum_def hub_statuses_def node_statuses_def organization_schema_def
      site_schema_def sensor_group_schema_def hub_schema_def node_schema_def)

lemma sample_keys [simp]:
  "map group_id (sensor_groups sample_tables) = [Value (js ''group-1'')]"
  "map hub_id (hubs sample_tables) = [Value (js ''hub-1''), Value (js ''hub-2'')]"
  "map site_id (sites sample_tables) = [Value (js ''site-1'')]"
  by (simp_all add: sample_tables_def site_schema_def sensor_group_schema_def hub_schema_def)

lemma all_fit_simps [simp]:
  "fit_organization all_fit r0" "fit_site all_fit r1" "fit_sensor_group all_fit r2" "fit_hub all_fit r3" "fit_node all_fit r4"
  by (simp_all add: all_fit_def)

end
