(* ===== verification/TopologyBinding.thy ===== *)
theory TopologyBinding
  imports TopologyStore
begin

text \<open>
  Assigning nodes to sensor groups and binding them to hubs, over all sequences of such
  commands: what the tables say afterwards, as a refinement of a map from node identifiers to
  group and hub.
\<close>

section \<open>Commands\<close>

datatype command = Assign (command_node: jstring) jstring | Bind (command_node: jstring) jstring

fun run_command :: "'w TopologyService \<Rightarrow> command \<Rightarrow> ('w, Node) call" where
  "run_command svc (Assign n g) = assignNodeToSensorGroup svc n g"
| "run_command svc (Bind n h) = bindNodeToHub svc n h"

text \<open>The target of a command is a row, and the texts of the command fit their columns.\<close>

fun target_known :: "tables \<Rightarrow> command \<Rightarrow> bool" where
  "target_known T (Assign n g) = (Value g \<in> set (map group_id (sensor_groups T)))"
| "target_known T (Bind n h) = (Value h \<in> set (map hub_id (hubs T)))"

fun command_patch :: "command \<Rightarrow> node_row" where
  "command_patch (Assign n g) = no_node \<lparr> node_sensorGroupId := Value g \<rparr>"
| "command_patch (Bind n h) = no_node \<lparr> node_hubId := Value h \<rparr>"

definition command_fits :: "column_checks \<Rightarrow> command \<Rightarrow> bool" where
  "command_fits F c \<longleftrightarrow>
     fit_node F (no_node \<lparr> node_nodeId := Value (command_node c) \<rparr>) \<and> fit_node F (command_patch c)"

text \<open>What a command does to the row of its node: a column that has a value keeps it.\<close>

definition keep :: "jstring column \<Rightarrow> jstring \<Rightarrow> jstring column" where
  "keep x i = (if has_value x then x else Value i)"

fun rebind :: "command \<Rightarrow> node_row \<Rightarrow> node_row" where
  "rebind (Assign n g) r = r \<lparr> node_sensorGroupId := keep (node_sensorGroupId r) g \<rparr>"
| "rebind (Bind n h) r = r \<lparr> node_hubId := keep (node_hubId r) h \<rparr>"

text \<open>What the command answers: the entity with the column set.\<close>

fun answer :: "command \<Rightarrow> Node \<Rightarrow> Node" where
  "answer (Assign n g) e = e \<lparr> node_sensorGroupId := Value g \<rparr>"
| "answer (Bind n h) e = e \<lparr> node_hubId := Value h \<rparr>"

text \<open>The abstract state: for each node identifier the group and the hub, if they are set.\<close>

type_synonym binding_map = "jstring \<Rightarrow> (jstring column \<times> jstring column) option"

definition bindings :: "tables \<Rightarrow> binding_map" where
  "bindings T n = map_option (\<lambda>r. (node_sensorGroupId r, node_hubId r))
     (List.find (\<lambda>r. node_nodeId r = Value n) (nodes T))"

fun first_wins :: "command \<Rightarrow> binding_map \<Rightarrow> binding_map" where
  "first_wins (Assign n g) b = (case b n of None \<Rightarrow> b | Some (x, y) \<Rightarrow> b(n \<mapsto> (keep x g, y)))"
| "first_wins (Bind n h) b = (case b n of None \<Rightarrow> b | Some (x, y) \<Rightarrow> b(n \<mapsto> (x, keep y h)))"

section \<open>Rows and relations\<close>

lemma refers_cases: "refers keys x \<Longrightarrow> has_value x \<Longrightarrow> x \<in> set keys"
  by (cases x) auto

text \<open>A loaded relation and the foreign key it was loaded by.\<close>

lemma joined_to_one:
  assumes "keys_ok (map key rs)" and "refers (map key rs) fk"
  shows "joined key (to_one True key fk rs) own = (if has_value fk then fk else own)"
proof (cases "has_value fk")
  case True
  with assms(2) have "fk \<in> set (map key rs)" by (rule refers_cases)
  then obtain r where r: "List.find (\<lambda>r. key r = fk) rs = Some r"
    by (cases "List.find (\<lambda>r. key r = fk) rs") (auto simp: find_None_iff)
  then have "key r = fk" by (auto simp: find_Some_iff)
  with True r show ?thesis by (simp add: to_one_def)
next
  case False
  then have "List.find (\<lambda>r. key r = fk) rs = None"
    using assms(1) by (auto simp: find_None_iff keys_ok_def list_all_iff)
  with False show ?thesis by (simp add: to_one_def)
qed

abbreviation both_relations :: "string list" where
  "both_relations \<equiv> [''sensorGroup'', ''hub'']"

lemma columns_answer:
  assumes "consistent T" and "r \<in> set (nodes T)"
  shows "columns node_schema (answer c (load node_schema both_relations T r)) = rebind c r"
proof -
  have "keys_ok (map group_id (sensor_groups T))" "keys_ok (map hub_id (hubs T))"
    "refers (map group_id (sensor_groups T)) (node_sensorGroupId r)" "refers (map hub_id (hubs T)) (node_hubId r)"
    using assms by (auto simp: consistent_def sensor_groups_ok_def hubs_ok_def nodes_ok_def list_all_iff)
  then show ?thesis
    by (cases c) (simp_all add: node_schema_def node_row.defs Node.defs joined_to_one keep_def)
qed

lemma rebind_fields [simp]:
  "node_id (rebind c r) = node_id r" "node_nodeId (rebind c r) = node_nodeId r" "node_status (rebind c r) = node_status r"
  by (cases c; simp)+

lemma keep_not_undefined: "keep x i \<noteq> Undefined"
  by (cases x) (simp_all add: keep_def)

lemma over_keep [simp]: "over (keep x i) y = keep x i"
  by (cases x) (simp_all add: keep_def)

lemma patch_rebind [simp]: "node_patch (rebind c r) r = rebind c r"
  by (cases c) (simp_all add: node_patch_def)

lemma rebind_patch: "rebind c r = r \<or> rebind c r = node_patch (command_patch c) r"
  by (cases c) (simp_all add: node_patch_def no_node_def keep_def)

text \<open>The table after a command, and its constraints.\<close>

definition rewrite_node :: "node_row \<Rightarrow> node_row \<Rightarrow> tables \<Rightarrow> tables" where
  "rewrite_node r r' T = T \<lparr> nodes := map (\<lambda>x. if node_id x = node_id r then r' else x) (nodes T) \<rparr>"

lemma rewrite_node_rest [simp]:
  "sensor_groups (rewrite_node r r' T) = sensor_groups T" "hubs (rewrite_node r r' T) = hubs T"
  by (simp_all add: rewrite_node_def)

lemma node_refers:
  assumes "consistent T" "r \<in> set (nodes T)"
  shows "refers (map group_id (sensor_groups T)) (node_sensorGroupId r)" "refers (map hub_id (hubs T)) (node_hubId r)"
  using assms by (auto simp: consistent_def nodes_ok_def list_all_iff)

lemma node_unique:
  assumes "consistent T" "r \<in> set (nodes T)" "r' \<in> set (nodes T)"
  shows "node_id r' = node_id r \<Longrightarrow> r' = r" "node_nodeId r' = node_nodeId r \<Longrightarrow> r' = r"
  using assms by (auto simp: consistent_def nodes_ok_def keys_ok_def distinct_map inj_on_def)

lemma consistent_rewrite:
  assumes T: "consistent T" and r: "r \<in> set (nodes T)"
    and same: "node_id r' = node_id r" "node_nodeId r' = node_nodeId r" "in_enum node_statuses (node_status r')"
    and refs: "refers (map group_id (sensor_groups T)) (node_sensorGroupId r')" "refers (map hub_id (hubs T)) (node_hubId r')"
  shows "consistent (rewrite_node r r' T)"
proof -
  have "node_nodeId x = node_nodeId r'" if "x \<in> set (nodes T)" "node_id x = node_id r" for x
    using node_unique(1) [OF T r that] same(2) by simp
  then have ids: "map node_id (nodes (rewrite_node r r' T)) = map node_id (nodes T)"
    "map node_nodeId (nodes (rewrite_node r r' T)) = map node_nodeId (nodes T)"
    unfolding rewrite_node_def using same(1) by auto
  then have "nodes_ok (rewrite_node r r' T)"
    using T same(3) refs by (auto simp: consistent_def nodes_ok_def list_all_iff rewrite_node_def simp del: map_map)
  with T show ?thesis
    by (simp add: consistent_def rewrite_node_def organizations_ok_def users_ok_def sites_ok_def sensor_groups_ok_def hubs_ok_def)
qed

section \<open>The abstraction\<close>

lemma bindings_row:
  assumes "consistent T" "r \<in> set (nodes T)" "node_nodeId r = Value n"
  shows "bindings T n = Some (node_sensorGroupId r, node_hubId r)"
proof -
  obtain r' where f: "List.find (\<lambda>r. node_nodeId r = Value n) (nodes T) = Some r'"
    using assms(2,3) by (cases "List.find (\<lambda>r. node_nodeId r = Value n) (nodes T)") (auto simp: find_None_iff)
  then have "r' \<in> set (nodes T)" "node_nodeId r' = Value n" by (auto simp: find_Some_iff)
  then have "r' = r" using node_unique(2) [OF assms(1,2)] assms(3) by simp
  with f show ?thesis by (simp add: bindings_def)
qed

lemma bindings_none: "bindings T n = None \<longleftrightarrow> (\<forall>r\<in>set (nodes T). node_nodeId r \<noteq> Value n)"
  by (auto simp: bindings_def find_None_iff)

lemma bindings_rewrite:
  assumes T: "consistent T" "r \<in> set (nodes T)" "node_nodeId r = Value n"
    and T': "consistent (rewrite_node r r' T)" and same: "node_nodeId r' = node_nodeId r"
  shows "bindings (rewrite_node r r' T) = (bindings T)(n \<mapsto> (node_sensorGroupId r', node_hubId r'))"
proof
  fix m
  show "bindings (rewrite_node r r' T) m = ((bindings T)(n \<mapsto> (node_sensorGroupId r', node_hubId r'))) m"
  proof (cases "m = n")
    case True
    have "r' \<in> set (nodes (rewrite_node r r' T))" using T(2) by (auto simp: rewrite_node_def)
    from bindings_row [OF T' this] same T(3) True show ?thesis by simp
  next
    case other: False
    show ?thesis
    proof (cases "\<exists>r2\<in>set (nodes T). node_nodeId r2 = Value m")
      case True
      then obtain r2 where r2: "r2 \<in> set (nodes T)" "node_nodeId r2 = Value m" by auto
      then have "node_id r2 \<noteq> node_id r" using node_unique(1) [OF T(1,2) r2(1)] T(3) other by auto
      then have "r2 \<in> set (nodes (rewrite_node r r' T))" using r2(1) by (force simp: rewrite_node_def)
      from bindings_row [OF T' this r2(2)] bindings_row [OF T(1) r2] other show ?thesis by simp
    next
      case False
      then have "bindings T m = None" by (simp add: bindings_none)
      moreover have "bindings (rewrite_node r r' T) m = None"
        using False same T(3) other by (auto simp: bindings_none rewrite_node_def)
      ultimately show ?thesis using other by simp
    qed
  qed
qed

lemma first_wins_row:
  "b n = Some (node_sensorGroupId r, node_hubId r) \<Longrightarrow> command_node c = n \<Longrightarrow>
     first_wins c b = b(n \<mapsto> (node_sensorGroupId (rebind c r), node_hubId (rebind c r)))"
  by (cases c) auto

lemma first_wins_none: "b (command_node c) = None \<Longrightarrow> first_wins c b = b"
  by (cases c) auto

section \<open>Running commands\<close>

context topology begin

lemma find_node:
  assumes "fit_node F (no_node \<lparr> node_nodeId := Value n \<rparr>)" and "r \<in> set (nodes (db w))" and "node_nodeId r = Value n"
  shows "findNodeByNodeId svc n w = (Inr (Some (load node_schema both_relations (db w) r)), w)"
  unfolding findNodeByNodeId_def
  using node_unique(2) [OF node.db_consistent assms(2)] assms(3)
  by (intro node.findOne_unique [OF assms(1)])
     (auto simp: assms(2) node_schema_def node_matches_def no_node_def)

lemma find_node_none:
  assumes "fit_node F (no_node \<lparr> node_nodeId := Value n \<rparr>)" and "\<forall>r\<in>set (nodes (db w)). node_nodeId r \<noteq> Value n"
  shows "findNodeByNodeId svc n w = (Inr None, w)"
  unfolding findNodeByNodeId_def
  using assms(2) by (intro node.findOne_none [OF assms(1)]) (auto simp: node_schema_def node_matches_def no_node_def)

lemma run_command_steps:
  "run_command svc c = await (findNodeByNodeId svc (command_node c)) (\<lambda>found.
     case found of None \<Rightarrow> throw node_not_found | Some e \<Rightarrow> ent_save (nodeRepository svc) (answer c e))"
  by (cases c) (simp_all add: assignNodeToSensorGroup_def bindNodeToHub_def cong: option.case_cong)

lemma run_missing:
  assumes "command_fits F c" and "\<forall>r\<in>set (nodes (db w)). node_nodeId r \<noteq> Value (command_node c)"
  shows "run_command svc c w = (Inl node_not_found, w)"
  using find_node_none [of "command_node c" w] assms
  by (simp add: run_command_steps await_def command_fits_def throw_def)

abbreviation touched :: "command \<Rightarrow> node_row \<Rightarrow> date \<Rightarrow> node_row" where
  "touched c r u \<equiv> (rebind c r) \<lparr> node_updatedAt := Value u \<rparr>"

lemma run_found:
  assumes c: "command_fits F c" and r: "r \<in> set (nodes (db w))" "node_nodeId r = Value (command_node c)"
  shows "\<exists>res w' u. run_command svc c w = (res, w') \<and>
    written res (db w) (rewrite_node r (touched c r u) (db w)) (db w')
      (\<lambda>e. e \<lparr> node_updatedAt := Value u \<rparr> =
        (answer c (load node_schema both_relations (db w) r)) \<lparr> node_updatedAt := Value u \<rparr>)"
proof -
  let ?e = "answer c (load node_schema both_relations (db w) r)"
  have cols: "columns node_schema ?e = rebind c r" by (rule columns_answer [OF node.db_consistent r(1)])
  have "fit_node F r" by (rule node.row_fits [of _ w]) (simp add: node_schema_def r(1))
  then have fits: "fit_node F (columns node_schema ?e)"
    using rebind_patch [of c r] node.patch_fits [of "command_patch c" r] c
    unfolding cols by (auto simp: command_fits_def)
  have known: "known_key node_schema (db w) (row_id node_schema (columns node_schema ?e))"
    using r(1) unfolding cols by (simp add: known_key_def node_schema_def)
  have patch: "node_patch (rebind c r) x = rebind c r" if "x \<in> set (nodes (db w))" "node_id x = node_id r" for x
    using node_unique(1) [OF node.db_consistent r(1) that] by simp
  have over: "with_rows node_schema (overlay node_schema (row_id node_schema (columns node_schema ?e)) u
      (columns node_schema ?e) (rows_of node_schema (db w))) (db w) = rewrite_node r (touched c r u) (db w)" for u
    unfolding cols using patch
    by (auto simp: rewrite_node_def overlay_def node_schema_def intro!: tables.equality)
  have "no_arrays node_schema ?e" by (simp add: node_schema_def)
  from node.save_known [OF fits this known] obtain res w' u where
    s: "ent_save (nodeRepository svc) ?e w = (res, w')"
    "written res (db w) (rewrite_node r (touched c r u) (db w)) (db w') (\<lambda>e'. ent_touch node_schema u e' = ent_touch node_schema u ?e)"
    unfolding over by blast
  have "run_command svc c w = (res, w')"
    using find_node [of "command_node c", OF _ r] c s(1)
    by (simp add: run_command_steps await_def command_fits_def)
  with s(2) show ?thesis by (auto simp: node_schema_def)
qed

text \<open>A command whose target is a row succeeds.\<close>

lemma consistent_touched:
  assumes "r \<in> set (nodes (db w))" and "target_known (db w) c"
  shows "consistent (rewrite_node r (touched c r u) (db w))"
proof (rule consistent_rewrite [OF node.db_consistent assms(1)])
  have "in_enum node_statuses (node_status r)" "refers (map group_id (sensor_groups (db w))) (node_sensorGroupId r)"
    "refers (map hub_id (hubs (db w))) (node_hubId r)"
    using node.db_consistent [of w] assms(1) by (auto simp: consistent_def nodes_ok_def list_all_iff)
  then show "in_enum node_statuses (node_status (touched c r u))"
    "refers (map group_id (sensor_groups (db w))) (node_sensorGroupId (touched c r u))"
    "refers (map hub_id (hubs (db w))) (node_hubId (touched c r u))"
    using assms(2) by (cases c; auto simp: keep_def)+
qed simp_all

lemma run_known:
  assumes "command_fits F c" and "r \<in> set (nodes (db w))" "node_nodeId r = Value (command_node c)" "target_known (db w) c"
  shows "\<exists>e w' u. run_command svc c w = (Inr e, w') \<and> db w' = rewrite_node r (touched c r u) (db w) \<and>
    e \<lparr> node_updatedAt := Value u \<rparr> =
      (answer c (load node_schema both_relations (db w) r)) \<lparr> node_updatedAt := Value u \<rparr>"
proof -
  obtain res w' u where run: "run_command svc c w = (res, w')"
    "written res (db w) (rewrite_node r (touched c r u) (db w)) (db w')
      (\<lambda>e. e \<lparr> node_updatedAt := Value u \<rparr> =
        (answer c (load node_schema both_relations (db w) r)) \<lparr> node_updatedAt := Value u \<rparr>)"
    using run_found [OF assms(1-3)] by blast
  then show ?thesis
    using consistent_touched [OF assms(2,4)] by (cases res) (auto simp: written_def)
qed

lemma run_bindings:
  assumes "command_fits F c" and "target_known (db w) c"
  shows "bindings (db (snd (run_command svc c w))) = first_wins c (bindings (db w)) \<and>
    sensor_groups (db (snd (run_command svc c w))) = sensor_groups (db w) \<and>
    hubs (db (snd (run_command svc c w))) = hubs (db w)"
proof (cases "\<exists>r\<in>set (nodes (db w)). node_nodeId r = Value (command_node c)")
  case False
  then show ?thesis
    using run_missing [OF assms(1), of w] by (simp add: first_wins_none bindings_none)
next
  case True
  then obtain r where r: "r \<in> set (nodes (db w))" "node_nodeId r = Value (command_node c)" by auto
  from run_known [OF assms(1) r assms(2)] obtain e w' u where
    run: "run_command svc c w = (Inr e, w')" "db w' = rewrite_node r (touched c r u) (db w)" by blast
  have "bindings (db w') = (bindings (db w))(command_node c \<mapsto> (node_sensorGroupId (rebind c r), node_hubId (rebind c r)))"
    unfolding run(2) by (subst bindings_rewrite [OF node.db_consistent r consistent_touched [OF r(1) assms(2)]]) simp_all
  also have "\<dots> = first_wins c (bindings (db w))"
    by (rule first_wins_row [symmetric]) (simp_all add: bindings_row [OF node.db_consistent r])
  finally show ?thesis by (simp add: run(1)) (simp add: run(2) rewrite_node_def)
qed

lemma run_all_bindings:
  "list_all (\<lambda>c. command_fits F c \<and> target_known (db w) c) cs \<Longrightarrow>
     bindings (db (fold (\<lambda>c w. snd (run_command svc c w)) cs w)) = fold first_wins cs (bindings (db w))"
proof (induction cs arbitrary: w)
  case (Cons c cs)
  let ?w = "snd (run_command svc c w)"
  have "target_known (db ?w) c' \<longleftrightarrow> target_known (db w) c'" for c'
    using run_bindings [of c w] Cons.prems by (cases c') auto
  with Cons run_bindings [of c w] show ?case by simp
qed simp

end

section \<open>Properties\<close>

text \<open>
  C3: Over any sequence of assignments and bindings (to rows that exist) the tables refine a map
  from node identifiers to group and hub in which the first value wins: the first assignment of
  a node to a group is stored, and the first binding to a hub; later ones for the same node change
  neither, and commands for unknown nodes change nothing. (The service loads the node with its
  relations, and TypeORM passes over a foreign key whose relation is loaded.)
\<close>

theorem bindings_refine_first_wins:
  assumes "topology_laws svc F db" and "list_all (\<lambda>c. command_fits F c \<and> target_known (db w) c) cs"
  shows "bindings (db (fold (\<lambda>c w. snd (run_command svc c w)) cs w)) = fold first_wins cs (bindings (db w))"
  by (rule topology.run_all_bindings [OF topology.intro [OF assms(1)] assms(2)])

lemma all_fit_command [simp]: "command_fits all_fit c"
  by (simp add: command_fits_def)

theorem bindings_refine_first_wins_witness:
  "let cs = [Bind (js ''node-1'') (js ''hub-1''), Bind (js ''node-1'') (js ''hub-2''), Assign (js ''node-1'') (js ''group-1'')] in
   bindings (stored (fold (\<lambda>c w. snd (run_command memory_topology c w)) cs sample_tables)) (js ''node-1'')
     = Some (Value (js ''group-1''), Value (js ''hub-1''))"
proof -
  let ?cs = "[Bind (js ''node-1'') (js ''hub-1''), Bind (js ''node-1'') (js ''hub-2''), Assign (js ''node-1'') (js ''group-1'')]"
  have "list_all (\<lambda>c. command_fits all_fit c \<and> target_known (stored sample_tables) c) ?cs"
    by (simp del: set_map)
  note eq = bindings_refine_first_wins [OF memory_topology_laws this]
  have "bindings sample_tables (js ''node-1'') = Some (Null, Null)"
    by (simp add: bindings_def sample_tables_def node_schema_def)
  then have "fold first_wins ?cs (bindings (stored sample_tables)) (js ''node-1'')
      = Some (Value (js ''group-1''), Value (js ''hub-1''))"
    by (simp add: keep_def)
  then show ?thesis unfolding Let_def eq .
qed

text \<open>
  C21: What a binding answers and what is stored: binding a node to a hub that exists succeeds and
  answers with that hub's key, but afterwards the hub's list of nodes has the node only if the
  node was unbound or bound to that hub before; a node that was bound to another hub stays in that
  hub's list.
\<close>

theorem bind_then_list:
  assumes "topology_laws svc F db" and "command_fits F (Bind n h)" and "fit_node F (no_node \<lparr> node_hubId := Value h' \<rparr>)"
    and "r \<in> set (nodes (db w))" and "node_nodeId r = Value n" and "Value h \<in> set (map hub_id (hubs (db w)))"
  shows "\<exists>e w' es. bindNodeToHub svc n h w = (Inr e, w') \<and> node_hubId e = Value h \<and>
    findNodesByHub svc h' w' = (Inr es, w') \<and>
    ((\<exists>x\<in>set es. node_nodeId x = Value n) \<longleftrightarrow> keep (node_hubId r) h = Value h')"
proof -
  note topo = topology.intro [OF assms(1)]
  note store = table_store.intro [OF assms(1) [unfolded topology_laws_def, THEN conjunct2, THEN conjunct2, THEN conjunct2, THEN conjunct2]]
  have known: "target_known (db w) (Bind n h)" using assms(6) by simp
  obtain e w' u where run: "bindNodeToHub svc n h w = (Inr e, w')"
    "db w' = rewrite_node r ((rebind (Bind n h) r) \<lparr> node_updatedAt := Value u \<rparr>) (db w)"
    "e \<lparr> node_updatedAt := Value u \<rparr> =
      (answer (Bind n h) (load node_schema both_relations (db w) r)) \<lparr> node_updatedAt := Value u \<rparr>"
    using topology.run_known [OF topo assms(2,4) _ known] assms(5) by auto
  have e: "node_hubId e = Value h" using arg_cong [OF run(3), of node_hubId] by simp
  obtain es where es: "findNodesByHub svc h' w' = (Inr es, w')"
    "mset es = image_mset (load node_schema [''sensorGroup''] (db w'))
       (filter_mset (node_matches (no_node \<lparr> node_hubId := Value h' \<rparr>)) (mset (nodes (db w'))))"
    using table_store.find_law [OF store assms(3), of "[''sensorGroup'']" w']
    unfolding findNodesByHub_def by (auto simp: node_schema_def)
  have "(\<exists>x\<in>set es. node_nodeId x = Value n) \<longleftrightarrow> (\<exists>x\<in>set (nodes (db w')). node_hubId x = Value h' \<and> node_nodeId x = Value n)"
    using arg_cong [OF es(2), of set_mset]
    by (auto simp: node_matches_def no_node_def node_schema_def node_row.defs Node.defs)
  also have "\<dots> \<longleftrightarrow> (\<exists>g. bindings (db w') n = Some (g, Value h'))"
    using bindings_row [OF table_store.db_consistent [OF store], of _ w' n] bindings_none [of "db w'" n]
    by (metis option.distinct(1) option.inject prod.inject)
  also have "bindings (db w') n = Some (node_sensorGroupId r, keep (node_hubId r) h)"
    using bindings_row [OF table_store.db_consistent [OF store] assms(4,5)]
      topology.run_bindings [OF topo assms(2) known] run(1) by simp
  finally show ?thesis using run(1) e es(1) by simp
qed

theorem bind_then_list_witness:
  "\<exists>e w' es. bindNodeToHub memory_topology (js ''node-2'') (js ''hub-2'') sample_tables = (Inr e, w') \<and>
    node_hubId e = Value (js ''hub-2'') \<and> findNodesByHub memory_topology (js ''hub-2'') w' = (Inr es, w') \<and>
    \<not> (\<exists>x\<in>set es. node_nodeId x = Value (js ''node-2''))"
proof -
  let ?r = "(row_default node_schema (js ''key-2'') 0) \<lparr> node_nodeId := Value (js ''node-2''), node_hubId := Value (js ''hub-1'') \<rparr>"
  have r: "?r \<in> set (nodes (stored sample_tables))" "node_nodeId ?r = Value (js ''node-2'')" "node_hubId ?r = Value (js ''hub-1'')"
    by simp (simp_all add: sample_tables_def)
  show ?thesis
    using bind_then_list [OF memory_topology_laws all_fit_command _ r(1,2), of "js ''hub-2''" "js ''hub-2''"]
    by (simp add: r(3) keep_def del: set_map)
qed

text \<open>
  The errors of the commands: for an identifier that no node has, the call is rejected with
  \<open>Node not found\<close>; for a group or hub that does not exist, a call on a node whose column is not set
  is rejected by the database; in both cases the tables stay as they were.
\<close>

theorem command_errors:
  assumes "topology_laws svc F db" and "command_fits F c"
  shows "((\<forall>r\<in>set (nodes (db w)). node_nodeId r \<noteq> Value (command_node c)) \<longrightarrow>
      run_command svc c w = (Inl node_not_found, w)) \<and>
    (r \<in> set (nodes (db w)) \<longrightarrow> node_nodeId r = Value (command_node c) \<longrightarrow> rebind c r \<noteq> r \<longrightarrow> \<not> target_known (db w) c \<longrightarrow>
      (\<exists>e w'. run_command svc c w = (Inl e, w') \<and> db w' = db w))"
proof (intro conjI impI)
  note topo = topology.intro [OF assms(1)]
  show "run_command svc c w = (Inl node_not_found, w)"
    if "\<forall>r\<in>set (nodes (db w)). node_nodeId r \<noteq> Value (command_node c)"
    by (rule topology.run_missing [OF topo assms(2) that])
  assume r: "r \<in> set (nodes (db w))" "node_nodeId r = Value (command_node c)"
    and new: "rebind c r \<noteq> r" "\<not> target_known (db w) c"
  obtain res w' u where run: "run_command svc c w = (res, w')"
    "written res (db w) (rewrite_node r ((rebind c r) \<lparr> node_updatedAt := Value u \<rparr>) (db w)) (db w')
      (\<lambda>e. e \<lparr> node_updatedAt := Value u \<rparr> =
        (answer c (load node_schema both_relations (db w) r)) \<lparr> node_updatedAt := Value u \<rparr>)"
    using topology.run_found [OF topo assms(2) r] by blast
  have "(rebind c r) \<lparr> node_updatedAt := Value u \<rparr> \<in> set (nodes (rewrite_node r ((rebind c r) \<lparr> node_updatedAt := Value u \<rparr>) (db w)))"
    using r(1) by (auto simp: rewrite_node_def)
  then have "\<not> consistent (rewrite_node r ((rebind c r) \<lparr> node_updatedAt := Value u \<rparr>) (db w))"
    using new node_refers by (cases c) (fastforce simp: keep_def split: if_splits)+
  with run show "\<exists>e w'. run_command svc c w = (Inl e, w') \<and> db w' = db w"
    by (cases res) (auto simp: written_def)
qed

theorem command_errors_witness:
  "run_command memory_topology (Bind (js ''node-9'') (js ''hub-1'')) sample_tables = (Inl node_not_found, sample_tables)"
proof -
  have "\<forall>r\<in>set (nodes (stored sample_tables)). node_nodeId r \<noteq> Value (js ''node-9'')"
    by simp (simp add: sample_tables_def node_schema_def)
  then show ?thesis
    using command_errors [OF memory_topology_laws all_fit_command, of sample_tables "Bind (js ''node-9'') (js ''hub-1'')"]
    by simp
qed

end
