(* ===== verification/WebUI.thy ===== *)
theory WebUI
  imports JSValue
begin

text \<open>
  What the pages of the web application (\<open>src/apps/web/src\<close>) are made of: trees of controls, as
  their JSX denotes them without layout and style, the events that the controls of a tree offer a
  user (those of buttons that are not disabled, and of fields), and the number parsers that the
  change handlers use.
\<close>

declare js_simps [simp del]

section \<open>Trees of controls\<close>

text \<open>\<open>'b\<close> names the buttons of a page by their handler, \<open>'f\<close> its fields.\<close>

datatype ('b, 'f) ui =
    Txt jstring
  | AlertBox string jstring
  | Spinner
  | Icon string string
  | Chip jstring string
  | Button 'b bool "('b, 'f) ui list"
  | Item 'b bool "('b, 'f) ui list"
  | Link jstring string
  | TextField 'f jstring jstring
  | Select 'f jstring "(string \<times> string) list"
  | Stepper int "jstring list"
  | Box "('b, 'f) ui list"

text \<open>
  \<open>Button b disabled label\<close>, \<open>Item b selected content\<close> (an entry of a list that can be clicked),
  \<open>Link label href\<close>, \<open>TextField f label value\<close>, \<open>Select f value options\<close>.
\<close>

datatype ('b, 'f) user_event = Click 'b | Type 'f jstring | Choose 'f jstring

fun offers :: "('b, 'f) ui \<Rightarrow> ('b, 'f) user_event \<Rightarrow> bool" where
  "offers (Button b disabled us) e = (\<not> disabled \<and> e = Click b)"
| "offers (Item b selected us) e = (e = Click b)"
| "offers (TextField f label v) e = (case e of Type g s \<Rightarrow> g = f | _ \<Rightarrow> False)"
| "offers (Select f v opts) e = (case e of Choose g s \<Rightarrow> g = f \<and> s \<in> set (map (\<lambda>opt. js (fst opt)) opts) | _ \<Rightarrow> False)"
| "offers (Box us) e = (\<exists>u\<in>set us. offers u e)"
| "offers _ e = False"

fun alerts :: "('b, 'f) ui \<Rightarrow> (string \<times> jstring) list" where
  "alerts (AlertBox severity t) = [(severity, t)]"
| "alerts (Button b disabled us) = concat (map alerts us)"
| "alerts (Item b selected us) = concat (map alerts us)"
| "alerts (Box us) = concat (map alerts us)"
| "alerts _ = []"

fun links :: "('b, 'f) ui \<Rightarrow> string list" where
  "links (Link label href) = [href]"
| "links (Box us) = concat (map links us)"
| "links _ = []"

text \<open>\<open>{c && u}\<close> and \<open>{text && <Alert ...>}\<close>: an empty text renders nothing.\<close>

definition shown_if :: "bool \<Rightarrow> ('b, 'f) ui list \<Rightarrow> ('b, 'f) ui" where
  "shown_if c us = Box (if c then us else [])"

definition alert_if :: "string \<Rightarrow> jstring option \<Rightarrow> ('b, 'f) ui" where
  "alert_if severity t = (case t of None \<Rightarrow> Box [] | Some s \<Rightarrow> if s = [] then Box [] else AlertBox severity s)"

lemma offers_shown_if [simp]: "offers (shown_if c us) e \<longleftrightarrow> c \<and> (\<exists>u\<in>set us. offers u e)"
  by (auto simp: shown_if_def)

lemma offers_alert_if [simp]: "\<not> offers (alert_if severity t) e"
  by (simp add: alert_if_def split: option.split)

lemma alerts_if [simp]:
  "alerts (shown_if c us) = (if c then concat (map alerts us) else [])"
  "alerts (alert_if severity t) = (case t of None \<Rightarrow> [] | Some s \<Rightarrow> if s = [] then [] else [(severity, s)])"
  by (simp_all add: shown_if_def alert_if_def split: option.split)

section \<open>Number fields\<close>

text \<open>\<open>parseInt\<close> without radix and \<open>parseFloat\<close>: the longest prefix that is a number, or NaN.\<close>

definition parse_int :: "jstring \<Rightarrow> js_number" where
  "parse_int s =
     (let (neg, t) = drop_sign (dropWhile is_js_space s);
          (ds, r) = take_digits t
      in if drop_0x t \<noteq> t then parse_int16 s
         else if ds = [] then NaN else round64 neg (digits_value 10 ds) 1)"

definition parse_float :: "jstring \<Rightarrow> js_number" where
  "parse_float s =
     (let (neg, t) = drop_sign (dropWhile is_js_space s);
          (ids, r) = take_digits t;
          (fs, r') = (if r \<noteq> [] \<and> hd r = 46 then take_digits (tl r) else ([], r))
      in if take 8 t = js ''Infinity'' then Infinity neg
         else if ids @ fs = [] then NaN
         else round_dec neg (digits_value 10 (ids @ fs))
           ((case exp_part r' of None \<Rightarrow> 0 | Some (x, r'') \<Rightarrow> x) - int (length fs)))"

section \<open>Values with a default\<close>

text \<open>\<open>text || 'default'\<close>: an empty or missing text gives the default.\<close>

definition text_or :: "jstring option \<Rightarrow> string \<Rightarrow> jstring" where
  "text_or t d = (if truthy_text t then the t else js d)"

lemma text_or_simps [simp]:
  "text_or None d = js d" "text_or (Some []) d = js d" "t \<noteq> [] \<Longrightarrow> text_or (Some t) d = t"
  by (simp_all add: text_or_def truthy_text_def)

lemma text_or_nonempty [simp]: "d \<noteq> [] \<Longrightarrow> text_or t d \<noteq> []"
  by (auto simp: text_or_def truthy_text_def)

text \<open>The arrow and the copyright sign of the texts.\<close>

definition arrow :: jstring where
  "arrow = [0x2192]"

definition copyright_sign :: jstring where
  "copyright_sign = [0xA9]"

section \<open>The environment\<close>

text \<open>What the pages read of the build and of the browser.\<close>

record web_env =
  VITE_API_URL :: "jstring option"
  web_bluetooth :: bool

definition apiUrl :: "web_env \<Rightarrow> jstring" where
  "apiUrl env = text_or (VITE_API_URL env) ''http://localhost:3000''"

section \<open>Calls in flight\<close>

text \<open>The calls that a page awaits, in the order they were made; any of them may settle next.\<close>

definition settled :: "nat \<Rightarrow> 'c list \<Rightarrow> 'c list" where
  "settled i cs = take i cs @ drop (Suc i) cs"

lemma settled_simps [simp]: "settled 0 (c # cs) = cs" "settled (Suc i) (c # cs) = c # settled i cs"
  by (simp_all add: settled_def)

lemma set_settled: "set (settled i cs) \<subseteq> set cs"
  by (auto simp: settled_def dest: in_set_takeD in_set_dropD)

lemma settled_singleton [simp]: "i < Suc 0 \<Longrightarrow> settled i [c] = []"
  by simp

end
