(* ===== verification/Wizard.thy ===== *)
theory Wizard
  imports WebUI
begin

text \<open>
  \<open>src/apps/web/src/pages/CommissioningWizard.tsx\<close>: the state of the wizard, its handlers, the
  continuations of the asynchronous calls they await (Web Bluetooth, the post to the backend), what
  it renders in each step, and the states that clicks, inputs and settling calls can reach.
\<close>

section \<open>State\<close>

datatype wizard_mode = NodeMode | HubMode

text \<open>A device the browser lets the user pick; \<open>gatt\<close> may be missing.\<close>

record bt_device =
  bt_name :: "jstring option"
  bt_id :: jstring
  bt_gatt :: bool

record device_info =
  info_name :: "jstring option"
  info_id :: jstring
  firmwareVersion :: jstring

record wizard_config =
  organizationId :: jstring
  siteId :: jstring
  sensorGroupId :: jstring
  nodeName :: jstring
  samplingInterval :: js_number
  warmupMs :: js_number
  burstCount :: js_number
  calibrationOffset :: js_number
  calibrationSlope :: js_number

definition initial_config :: wizard_config where
  "initial_config = \<lparr> organizationId = [], siteId = [], sensorGroupId = [], nodeName = [],
     samplingInterval = num_of_int 60, warmupMs = num_of_int 100, burstCount = num_of_int 10,
     calibrationOffset = num_of_int 0, calibrationSlope = num_of_int 20 \<rparr>"

text \<open>A post: the URL and the body.\<close>

type_synonym request = "jstring \<times> jval"

text \<open>What the handlers await.\<close>

datatype wizard_call =
    RequestDevice jval
  | ConnectGatt bt_device
  | GetPrimaryService bt_device jstring
  | GetCharacteristic bt_device jstring
  | ReadValue bt_device
  | Post request

text \<open>How a call settles.\<close>

datatype outcome =
    Rejected js_error
  | Picked bt_device
  | Resolved
  | Bytes "byte list"

text \<open>
  The state variables of the component, and what happens outside it: the calls in flight, the
  posts made and the posts that succeeded (newest first), and the route it navigated to.
\<close>

record wizard =
  activeStep :: int
  error :: "jstring option"
  loading :: bool
  device :: "bt_device option"
  deviceInfo :: "device_info option"
  config :: wizard_config
  in_flight :: "wizard_call list"
  posted :: "request list"
  accepted :: "request list"
  route :: "string option"

definition new_wizard :: wizard where
  "new_wizard = \<lparr> activeStep = 0, error = None, loading = False, device = None, deviceInfo = None,
     config = initial_config, in_flight = [], posted = [], accepted = [], route = None \<rparr>"

definition steps :: "wizard_mode \<Rightarrow> string list" where
  "steps m = (if m = NodeMode
     then [''Connect Device'', ''Device Info'', ''Select Location'', ''Configure Sampling'', ''Complete'']
     else [''Connect Hub'', ''Hub Info'', ''Select Site'', ''Configure Policies'', ''Complete''])"

section \<open>Handlers\<close>

definition handleNext :: "wizard \<Rightarrow> wizard" where
  "handleNext s = s \<lparr> activeStep := activeStep s + 1 \<rparr>"

definition handleBack :: "wizard \<Rightarrow> wizard" where
  "handleBack s = s \<lparr> activeStep := activeStep s - 1 \<rparr>"

definition start_call :: "wizard_call \<Rightarrow> wizard \<Rightarrow> wizard" where
  "start_call c s = s \<lparr> in_flight := in_flight s @ [c] \<rparr>"

text \<open>The \<open>catch\<close> and \<open>finally\<close> clauses of both handlers.\<close>

definition call_failed :: "js_error \<Rightarrow> string \<Rightarrow> wizard \<Rightarrow> wizard" where
  "call_failed e d s = s \<lparr> error := Some (text_or (Some (message e)) d), loading := False \<rparr>"

definition request_options :: "wizard_mode \<Rightarrow> jval" where
  "request_options m =
     (let serviceUuid = (if m = NodeMode then js ''00001000-0000-1000-8000-00805f9b34fb''
                         else js ''00002000-0000-1000-8000-00805f9b34fb'')
      in object_literal [
           (''filters'', Some (JArr [
              object_literal [(''services'', Some (JArr [JStr serviceUuid]))],
              object_literal [(''namePrefix'', Some (JStr (js (if m = NodeMode then ''ISN-'' else ''HUB-''))))]])),
           (''optionalServices'', Some (JArr [
              JStr (js ''0000180a-0000-1000-8000-00805f9b34fb''),
              JStr (js ''0000180f-0000-1000-8000-00805f9b34fb'')]))])"

definition scanForDevice :: "web_env \<Rightarrow> wizard_mode \<Rightarrow> wizard \<Rightarrow> wizard" where
  "scanForDevice env m s =
     (let s = s \<lparr> loading := True, error := None \<rparr> in
      if \<not> web_bluetooth env
      then s \<lparr> error := Some (js ''Web Bluetooth is not supported in this browser''), loading := False \<rparr>
      else start_call (RequestDevice (request_options m)) s)"

text \<open>
  What follows each \<open>await\<close> of \<open>scanForDevice\<close>. Without \<open>gatt\<close> there is no server to ask, and the
  handler ends without an error.
\<close>

fun scan_continue :: "wizard_call \<Rightarrow> outcome \<Rightarrow> wizard \<Rightarrow> wizard option" where
  "scan_continue (RequestDevice opts) (Picked d) s =
     (let s = s \<lparr> device := Some d \<rparr> in
      Some (if bt_gatt d then start_call (ConnectGatt d) s else s \<lparr> loading := False \<rparr>))"
| "scan_continue (ConnectGatt d) Resolved s =
     Some (start_call (GetPrimaryService d (js ''0000180a-0000-1000-8000-00805f9b34fb'')) s)"
| "scan_continue (GetPrimaryService d u) Resolved s =
     Some (start_call (GetCharacteristic d (js ''00002a26-0000-1000-8000-00805f9b34fb'')) s)"
| "scan_continue (GetCharacteristic d u) Resolved s = Some (start_call (ReadValue d) s)"
| "scan_continue (ReadValue d) (Bytes bs) s =
     Some ((handleNext (s \<lparr> deviceInfo := Some \<lparr> info_name = bt_name d, info_id = bt_id d,
              firmwareVersion = text_decode bs \<rparr> \<rparr>)) \<lparr> loading := False \<rparr>)"
| "scan_continue c (Rejected e) s = Some (call_failed e ''Failed to connect to device'' s)"
| "scan_continue c r s = None"

definition node_body :: "device_info \<Rightarrow> wizard_config \<Rightarrow> jval" where
  "node_body info cfg = object_literal [
     (''nodeId'', Some (JStr (info_id info))),
     (''name'', Some (JStr (nodeName cfg))),
     (''sensorGroupId'', Some (JStr (sensorGroupId cfg))),
     (''configuration'', Some (object_literal [
        (''sampling'', Some (object_literal [
           (''intervalSeconds'', Some (JNum (samplingInterval cfg))),
           (''warmupMs'', Some (JNum (warmupMs cfg))),
           (''burstCount'', Some (JNum (burstCount cfg))),
           (''aggregation'', Some (JNum (num_of_int 0)))])),
        (''calibration'', Some (object_literal [
           (''offset'', Some (JNum (calibrationOffset cfg))),
           (''slope'', Some (JNum (calibrationSlope cfg))),
           (''polyA'', Some (JNum (num_of_int 0))),
           (''polyB'', Some (JNum (num_of_int 0)))]))]))]"

definition hub_body :: "device_info \<Rightarrow> wizard_config \<Rightarrow> jval" where
  "hub_body info cfg = object_literal [
     (''deviceId'', Some (JStr (info_id info))),
     (''siteId'', Some (JStr (siteId cfg))),
     (''status'', Some (JStr (js ''commissioned'')))]"

definition save_request :: "web_env \<Rightarrow> wizard_mode \<Rightarrow> device_info \<Rightarrow> wizard_config \<Rightarrow> request" where
  "save_request env m info cfg =
     (if m = NodeMode then (apiUrl env @ js ''/api/topology/nodes'', node_body info cfg)
      else (apiUrl env @ js ''/api/topology/hubs'', hub_body info cfg))"

text \<open>Reading \<open>deviceInfo.id\<close> throws when no device is connected.\<close>

definition saveConfiguration :: "web_env \<Rightarrow> wizard_mode \<Rightarrow> wizard \<Rightarrow> wizard" where
  "saveConfiguration env m s =
     (let s = s \<lparr> loading := True, error := None \<rparr> in
      case deviceInfo s of
        None \<Rightarrow> call_failed (TypeError (js ''Cannot read properties of null (reading 'id')''))
                  ''Failed to save configuration'' s
      | Some info \<Rightarrow> let r = save_request env m info (config s) in
          start_call (Post r) (s \<lparr> posted := r # posted s \<rparr>))"

fun save_continue :: "request \<Rightarrow> outcome \<Rightarrow> wizard \<Rightarrow> wizard option" where
  "save_continue r Resolved s = Some ((handleNext (s \<lparr> accepted := r # accepted s \<rparr>)) \<lparr> loading := False \<rparr>)"
| "save_continue r (Rejected e) s = Some (call_failed e ''Failed to save configuration'' s)"
| "save_continue r _ s = None"

fun resume :: "wizard_call \<Rightarrow> outcome \<Rightarrow> wizard \<Rightarrow> wizard option" where
  "resume (Post r) res s = save_continue r res s"
| "resume c res s = scan_continue c res s"

section \<open>What the wizard shows\<close>

datatype wizard_button = Scan | Back | Forward | ViewFleet

datatype wizard_field =
    OrganizationField | SiteField | SensorGroupField | NodeNameField | SamplingIntervalField
  | WarmupMsField | BurstCountField | CalibrationOffsetField | CalibrationSlopeField

type_synonym wizard_ui = "(wizard_button, wizard_field) ui"

definition step_connect :: "wizard_mode \<Rightarrow> wizard \<Rightarrow> wizard_ui" where
  "step_connect m s = Box [
     Txt (js ''Click the button below to scan for nearby '' @ js (if m = NodeMode then ''sensor nodes'' else ''hubs'') @
          js ''. Make sure the device is powered on and in range.''),
     alert_if ''error'' (error s),
     Button Scan (loading s)
       [if loading s then Spinner else Txt (js ''Scan for '' @ js (if m = NodeMode then ''Node'' else ''Hub''))]]"

definition step_info :: "wizard \<Rightarrow> wizard_ui" where
  "step_info s = Box [
     Txt (js ''Device Information''),
     (case deviceInfo s of
        None \<Rightarrow> Box []
      | Some info \<Rightarrow> Box [
          Txt (js ''Name: '' @ (case info_name info of None \<Rightarrow> [] | Some n \<Rightarrow> n)),
          Txt (js ''ID: '' @ info_id info),
          Txt (js ''Firmware: '' @ firmwareVersion info),
          AlertBox ''success'' (js ''Device connected successfully!'')])]"

definition step_location :: "wizard_mode \<Rightarrow> wizard \<Rightarrow> wizard_ui" where
  "step_location m s = Box [
     Txt (js (if m = NodeMode then ''Select SensorGroup'' else ''Select Site'')),
     Select OrganizationField (organizationId (config s))
       [(''org-1'', ''Acme Corporation''), (''org-2'', ''Test Organization'')],
     Select SiteField (siteId (config s)) [(''site-1'', ''Factory Floor 1''), (''site-2'', ''Warehouse A'')],
     shown_if (m = NodeMode) [
       Select SensorGroupField (sensorGroupId (config s))
         [(''sensorGroup-1'', ''Compressor A''), (''sensorGroup-2'', ''Pump B'')]],
     shown_if (m = NodeMode) [TextField NodeNameField (js ''Node Name'') (nodeName (config s))]]"

definition step_configure :: "wizard_mode \<Rightarrow> wizard \<Rightarrow> wizard_ui" where
  "step_configure m s = Box [
     Txt (js (if m = NodeMode then ''Sampling Configuration'' else ''Hub Policies'')),
     (if m = NodeMode then Box [
        TextField SamplingIntervalField (js ''Sampling Interval (seconds)'') (number_to_string (samplingInterval (config s))),
        TextField WarmupMsField (js ''Warmup Time (ms)'') (number_to_string (warmupMs (config s))),
        TextField BurstCountField (js ''Burst Count'') (number_to_string (burstCount (config s))),
        TextField CalibrationOffsetField (js ''Calibration Offset'') (number_to_string (calibrationOffset (config s))),
        TextField CalibrationSlopeField (js ''Calibration Slope'') (number_to_string (calibrationSlope (config s)))]
      else AlertBox ''info''
        (js ''Hub policies will be configured via the remote management interface after commissioning.''))]"

definition step_complete :: "wizard_mode \<Rightarrow> wizard_ui" where
  "step_complete m = Box [
     AlertBox ''success'' (js (if m = NodeMode then ''Node'' else ''Hub'') @ js '' commissioned successfully!''),
     Txt (js ''The '' @ js (if m = NodeMode then ''node'' else ''hub'') @
          js '' is now operational and will begin reporting data.''),
     Button ViewFleet False [Txt (js ''View Fleet Dashboard'')]]"

definition renderStepContent :: "wizard_mode \<Rightarrow> wizard \<Rightarrow> wizard_ui" where
  "renderStepContent m s =
     (if activeStep s = 0 then step_connect m s
      else if activeStep s = 1 then step_info s
      else if activeStep s = 2 then step_location m s
      else if activeStep s = 3 then step_configure m s
      else if activeStep s = 4 then step_complete m
      else Box [])"

definition wizard_controls :: "wizard_mode \<Rightarrow> wizard \<Rightarrow> wizard_ui" where
  "wizard_controls m s = Box [
     Button Back (activeStep s = 0) [Txt (js ''Back'')],
     shown_if (activeStep s < int (length (steps m)) - 1 \<and> activeStep s \<noteq> 0) [
       Button Forward (loading s)
         [if loading s then Spinner else Txt (js (if activeStep s = 3 then ''Commission'' else ''Next''))]]]"

definition CommissioningWizard :: "wizard_mode \<Rightarrow> wizard \<Rightarrow> wizard_ui" where
  "CommissioningWizard m s = Box [
     Txt (js ''Commission '' @ js (if m = NodeMode then ''Node'' else ''Hub'')),
     Stepper (activeStep s) (map js (steps m)),
     renderStepContent m s,
     wizard_controls m s]"

section \<open>Events\<close>

definition set_config_field :: "wizard_field \<Rightarrow> jstring \<Rightarrow> wizard_config \<Rightarrow> wizard_config" where
  "set_config_field f v c =
     (case f of
        OrganizationField \<Rightarrow> c \<lparr> organizationId := v \<rparr>
      | SiteField \<Rightarrow> c \<lparr> siteId := v \<rparr>
      | SensorGroupField \<Rightarrow> c \<lparr> sensorGroupId := v \<rparr>
      | NodeNameField \<Rightarrow> c \<lparr> nodeName := v \<rparr>
      | SamplingIntervalField \<Rightarrow> c \<lparr> samplingInterval := parse_int v \<rparr>
      | WarmupMsField \<Rightarrow> c \<lparr> warmupMs := parse_int v \<rparr>
      | BurstCountField \<Rightarrow> c \<lparr> burstCount := parse_int v \<rparr>
      | CalibrationOffsetField \<Rightarrow> c \<lparr> calibrationOffset := parse_float v \<rparr>
      | CalibrationSlopeField \<Rightarrow> c \<lparr> calibrationSlope := parse_float v \<rparr>)"

fun press :: "web_env \<Rightarrow> wizard_mode \<Rightarrow> wizard_button \<Rightarrow> wizard \<Rightarrow> wizard" where
  "press env m Scan s = scanForDevice env m s"
| "press env m Back s = handleBack s"
| "press env m Forward s = (if activeStep s = 3 then saveConfiguration env m s else handleNext s)"
| "press env m ViewFleet s = s \<lparr> route := Some ''/fleet'' \<rparr>"

fun user_acts :: "web_env \<Rightarrow> wizard_mode \<Rightarrow> (wizard_button, wizard_field) user_event \<Rightarrow> wizard \<Rightarrow> wizard" where
  "user_acts env m (Click b) s = press env m b s"
| "user_acts env m (Type f v) s = s \<lparr> config := set_config_field f v (config s) \<rparr>"
| "user_acts env m (Choose f v) s = s \<lparr> config := set_config_field f v (config s) \<rparr>"

text \<open>
  An event: the user acts on a control that is offered, or one of the calls in flight settles.
  After navigating away the component is gone.
\<close>

datatype wizard_event = User "(wizard_button, wizard_field) user_event" | Settle nat outcome

fun wizard_step :: "web_env \<Rightarrow> wizard_mode \<Rightarrow> wizard \<Rightarrow> wizard_event \<Rightarrow> wizard option" where
  "wizard_step env m s (User e) =
     (if route s = None \<and> offers (CommissioningWizard m s) e then Some (user_acts env m e s) else None)"
| "wizard_step env m s (Settle i r) =
     (if route s = None \<and> i < length (in_flight s)
      then resume (in_flight s ! i) r (s \<lparr> in_flight := settled i (in_flight s) \<rparr>) else None)"

fun wizard_run :: "web_env \<Rightarrow> wizard_mode \<Rightarrow> wizard \<Rightarrow> wizard_event list \<Rightarrow> wizard option" where
  "wizard_run env m s [] = Some s"
| "wizard_run env m s (e # es) = Option.bind (wizard_step env m s e) (\<lambda>s'. wizard_run env m s' es)"

inductive wizard_reachable :: "web_env \<Rightarrow> wizard_mode \<Rightarrow> wizard \<Rightarrow> bool"
  for env :: web_env and m :: wizard_mode
where
  start: "wizard_reachable env m new_wizard"
| step: "wizard_reachable env m s \<Longrightarrow> wizard_step env m s e = Some s' \<Longrightarrow> wizard_reachable env m s'"

lemmas wizard_handlers =
  handleNext_def handleBack_def start_call_def call_failed_def scanForDevice_def saveConfiguration_def

lemmas wizard_views =
  CommissioningWizard_def renderStepContent_def wizard_controls_def step_connect_def step_info_def
  step_location_def step_configure_def step_complete_def steps_def

lemma run_append:
  "wizard_run env m s (es @ es') = Option.bind (wizard_run env m s es) (\<lambda>s'. wizard_run env m s' es')"
  by (induction es arbitrary: s) (auto split: bind_splits)

lemma run_reachable:
  "wizard_run env m s es = Some s' \<Longrightarrow> wizard_reachable env m s \<Longrightarrow> wizard_reachable env m s'"
  by (induction es arbitrary: s) (auto simp: bind_eq_Some_conv intro: wizard_reachable.step)

end
