(* ===== verification/WizardRuns.thy ===== *)
theory WizardRuns
  imports Wizard
begin

text \<open>
  The runs of the commissioning wizard: what holds in every reachable state, that the wizard can
  always be completed, what becomes of a failed save, and of inputs made while a save is pending.
\<close>

section \<open>The invariant\<close>

text \<open>What the page tells of the device is what the connected device told.\<close>

definition device_known :: "wizard \<Rightarrow> bool" where
  "device_known s \<longleftrightarrow> (\<exists>d info. device s = Some d \<and> deviceInfo s = Some info \<and>
     info_id info = bt_id d \<and> info_name info = bt_name d)"

text \<open>The request posts the device whose data is shown.\<close>

definition posts_device :: "web_env \<Rightarrow> wizard_mode \<Rightarrow> wizard \<Rightarrow> request \<Rightarrow> bool" where
  "posts_device env m s r \<longleftrightarrow> (\<exists>info cfg. deviceInfo s = Some info \<and> r = save_request env m info cfg)"

fun call_fits :: "web_env \<Rightarrow> wizard_mode \<Rightarrow> wizard \<Rightarrow> wizard_call \<Rightarrow> bool" where
  "call_fits env m s (RequestDevice opts) \<longleftrightarrow> activeStep s = 0 \<and> opts = request_options m"
| "call_fits env m s (ConnectGatt d) \<longleftrightarrow> activeStep s = 0 \<and> device s = Some d"
| "call_fits env m s (GetPrimaryService d u) \<longleftrightarrow> activeStep s = 0 \<and> device s = Some d"
| "call_fits env m s (GetCharacteristic d u) \<longleftrightarrow> activeStep s = 0 \<and> device s = Some d"
| "call_fits env m s (ReadValue d) \<longleftrightarrow> activeStep s = 0 \<and> device s = Some d"
| "call_fits env m s (Post r) \<longleftrightarrow>
     activeStep s \<le> 3 \<and> device_known s \<and> posts_device env m s r \<and> posted s \<noteq> [] \<and> hd (posted s) = r"

definition wizard_ok :: "web_env \<Rightarrow> wizard_mode \<Rightarrow> wizard \<Rightarrow> bool" where
  "wizard_ok env m s \<longleftrightarrow>
     0 \<le> activeStep s \<and> activeStep s \<le> 4 \<and>
     (if loading s then \<exists>c. in_flight s = [c] \<and> call_fits env m s c else in_flight s = []) \<and>
     (0 < activeStep s \<longrightarrow> device_known s) \<and>
     set (accepted s) \<subseteq> set (posted s) \<and>
     (activeStep s = 4 \<longrightarrow> \<not> loading s \<and> accepted s \<noteq> [] \<and> posted s \<noteq> [] \<and>
        hd (accepted s) = hd (posted s) \<and> posts_device env m s (hd (accepted s)))"

lemmas ok_defs = wizard_ok_def device_known_def posts_device_def

lemma offered_buttons:
  "offers (CommissioningWizard m s) (Click b) \<longleftrightarrow>
     (case b of
        Scan \<Rightarrow> activeStep s = 0 \<and> \<not> loading s
      | Back \<Rightarrow> activeStep s \<noteq> 0
      | Forward \<Rightarrow> activeStep s < 4 \<and> activeStep s \<noteq> 0 \<and> \<not> loading s
      | ViewFleet \<Rightarrow> activeStep s = 4)"
  by (cases b) (auto simp: wizard_views split: option.splits)

lemma ok_start: "wizard_ok env m new_wizard"
  by (simp add: wizard_ok_def new_wizard_def)

lemma ok_frame:
  "wizard_ok env m (s \<lparr> config := c \<rparr>) = wizard_ok env m s"
  "wizard_ok env m (s \<lparr> route := t \<rparr>) = wizard_ok env m s"
proof -
  have "call_fits env m (s \<lparr> config := c \<rparr>) x = call_fits env m s x"
    "call_fits env m (s \<lparr> route := t \<rparr>) x = call_fits env m s x" for x
    by (cases x; simp add: device_known_def posts_device_def)+
  then show "wizard_ok env m (s \<lparr> config := c \<rparr>) = wizard_ok env m s"
    "wizard_ok env m (s \<lparr> route := t \<rparr>) = wizard_ok env m s"
    by (simp_all add: ok_defs)
qed

lemma ok_press:
  assumes "wizard_ok env m s" and "offers (CommissioningWizard m s) (Click b)"
  shows "wizard_ok env m (press env m b s)"
proof (cases b)
  case Scan
  with assms show ?thesis by (auto simp: offered_buttons wizard_handlers ok_defs Let_def)
next
  case Back
  have "call_fits env m (handleBack s) c" if "call_fits env m s c" "activeStep s \<noteq> 0" for c
    using that by (cases c) (auto simp: handleBack_def ok_defs)
  with assms Back show ?thesis by (auto simp: offered_buttons handleBack_def ok_defs)
next
  case Forward
  then show ?thesis using assms
    by (auto simp: offered_buttons wizard_handlers ok_defs Let_def)
next
  case ViewFleet
  with assms show ?thesis by (simp add: ok_frame)
qed

lemma ok_user:
  assumes "wizard_ok env m s" and "offers (CommissioningWizard m s) e"
  shows "wizard_ok env m (user_acts env m e s)"
  using assms by (cases e) (auto simp: ok_frame ok_press)

lemma ok_call_failed:
  assumes "wizard_ok env m s" and "loading s"
  shows "wizard_ok env m (call_failed e d (s \<lparr> in_flight := [] \<rparr>))"
  using assms by (simp add: wizard_ok_def device_known_def call_failed_def)

lemma resume_rejected:
  "resume c (Rejected e) s =
     Some (call_failed e (case c of Post r \<Rightarrow> ''Failed to save configuration'' | _ \<Rightarrow> ''Failed to connect to device'') s)"
  by (cases c) simp_all

lemma ok_resume:
  assumes "wizard_ok env m s" and "in_flight s = [c]" and "resume c r (s \<lparr> in_flight := [] \<rparr>) = Some s'"
  shows "wizard_ok env m s'"
proof -
  have l: "loading s" and f: "call_fits env m s c" and a: "set (accepted s) \<subseteq> set (posted s)"
    and n: "0 \<le> activeStep s"
    using assms(1,2) by (auto simp: wizard_ok_def split: if_splits)
  show ?thesis
  proof (cases r)
    case (Rejected e)
    with assms(3) ok_call_failed [OF assms(1) l] show ?thesis by (auto simp: resume_rejected)
  next
    case (Picked d)
    with assms(3) f a l show ?thesis
      by (cases c; cases "bt_gatt d") (auto simp: wizard_ok_def start_call_def Let_def)
  next
    case Resolved
    show ?thesis
    proof (cases c)
      case (Post q)
      then have "q \<in> set (posted s)" using f by (metis call_fits.simps(6) hd_in_set)
      with Post Resolved assms(3) f a n show ?thesis
        by (auto simp: wizard_ok_def handleNext_def device_known_def posts_device_def)
    qed (use Resolved assms(3) f a l in \<open>auto simp: wizard_ok_def start_call_def\<close>)
  next
    case (Bytes bs)
    with assms(3) f a show ?thesis
      by (cases c) (auto simp: wizard_ok_def handleNext_def device_known_def)
  qed
qed

lemma wizard_reachable_ok: "wizard_reachable env m s \<Longrightarrow> wizard_ok env m s"
proof (induction rule: wizard_reachable.induct)
  case start
  show ?case by (rule ok_start)
next
  case (step s e s')
  show ?case
  proof (cases e)
    case (User u)
    with step ok_user show ?thesis by (auto split: if_splits)
  next
    case (Settle i r)
    with step.IH step.hyps have "in_flight s \<noteq> []" by (auto split: if_splits)
    with step.IH obtain c where "in_flight s = [c]" by (auto simp: wizard_ok_def split: if_splits)
    with step Settle ok_resume show ?thesis by (auto split: if_splits)
  qed
qed


lemma reachable_step: "wizard_reachable env m s \<Longrightarrow> 0 \<le> activeStep s \<and> activeStep s \<le> 4"
  by (drule wizard_reachable_ok) (simp add: wizard_ok_def)

lemma reachable_idle: "wizard_reachable env m s \<Longrightarrow> in_flight s = [] \<longleftrightarrow> \<not> loading s"
  by (drule wizard_reachable_ok) (auto simp: wizard_ok_def split: if_splits)

lemma press_route: "route (press env m b s) \<in> {route s, Some ''/fleet''}"
  by (cases b) (auto simp: wizard_handlers Let_def split: option.splits)

lemma wizard_route: "wizard_reachable env m s \<Longrightarrow> route s = None \<or> route s = Some ''/fleet''"
proof (induction rule: wizard_reachable.induct)
  case start
  show ?case by (simp add: new_wizard_def)
next
  case (step s e s')
  have "route s' = route s \<or> route s' = Some ''/fleet''"
  proof (cases e)
    case (User u)
    then have "s' = user_acts env m u s" using step.hyps by (auto split: if_splits)
    then show ?thesis
      using press_route [of env m _ s] by (cases u) auto
  next
    case (Settle i r)
    then have "resume (in_flight s ! i) r (s \<lparr> in_flight := settled i (in_flight s) \<rparr>) = Some s'"
      using step.hyps by (auto split: if_splits)
    then show ?thesis
      by (cases "in_flight s ! i"; cases r) (auto simp: wizard_handlers Let_def split: if_splits)
  qed
  with step.IH show ?case by auto
qed

section \<open>Completing the wizard\<close>

definition finishing :: "wizard_event list" where
  "finishing = [User (Click Forward), Settle 0 Resolved]"

definition connecting :: "bt_device \<Rightarrow> byte list \<Rightarrow> wizard_event list" where
  "connecting d bs = [User (Click Scan), Settle 0 (Picked d), Settle 0 Resolved, Settle 0 Resolved,
     Settle 0 Resolved, Settle 0 (Bytes bs)]"

definition completes :: "web_env \<Rightarrow> wizard_mode \<Rightarrow> wizard \<Rightarrow> bool" where
  "completes env m s \<longleftrightarrow> (\<exists>es s'. wizard_run env m s es = Some s' \<and> activeStep s' = 4)"

lemma completes_run: "wizard_run env m s es = Some s' \<Longrightarrow> completes env m s' \<Longrightarrow> completes env m s"
  unfolding completes_def by (metis run_append bind.bind_lunit)

text \<open>From a step with a known device and no call in flight.\<close>

lemma completes_known:
  assumes "wizard_ok env m s" and "route s = None" and "\<not> loading s" and "0 < activeStep s"
  shows "completes env m s"
  using assms
proof (induction "nat (3 - activeStep s)" arbitrary: s)
  case 0
  then have "activeStep s = 3 \<or> activeStep s = 4" by (auto simp: wizard_ok_def)
  moreover have "completes env m s" if "activeStep s = 4"
    unfolding completes_def using that by (intro exI [of _ "[]"]) simp
  moreover have "completes env m s" if "activeStep s = 3"
  proof -
    obtain info where "deviceInfo s = Some info" using 0 by (auto simp: wizard_ok_def device_known_def)
    with 0 that show ?thesis unfolding completes_def
      by (intro exI [of _ finishing]) (auto simp: finishing_def offered_buttons wizard_handlers Let_def wizard_ok_def)
  qed
  ultimately show ?case by blast
next
  case (Suc k)
  let ?s = "handleNext s"
  have lt: "activeStep s < 3" using Suc.hyps(2) by simp
  then have "wizard_run env m s [User (Click Forward)] = Some ?s"
    using Suc by (simp add: offered_buttons)
  moreover have "completes env m ?s"
  proof (rule Suc.hyps(1))
    show "wizard_ok env m ?s"
      using ok_press [OF Suc.prems(1), of Forward] Suc lt by (simp add: offered_buttons)
  qed (use Suc in \<open>simp_all add: handleNext_def\<close>)
  ultimately show ?case by (rule completes_run)
qed

lemma connect_runs:
  assumes "web_bluetooth env" and "bt_gatt d" and "activeStep s = 0" and "\<not> loading s" and "route s = None"
    and "in_flight s = []"
  shows "wizard_run env m s (connecting d bs) = Some (s \<lparr> activeStep := 1, error := None, device := Some d,
    deviceInfo := Some \<lparr> info_name = bt_name d, info_id = bt_id d, firmwareVersion = text_decode bs \<rparr> \<rparr>)"
  using assms by (simp add: connecting_def offered_buttons wizard_handlers Let_def)

lemma completes_idle:
  assumes "wizard_ok env m s" and "route s = None" and "web_bluetooth env" and "\<not> loading s"
  shows "completes env m s"
proof (cases "activeStep s = 0")
  case True
  let ?d = "\<lparr> bt_name = None, bt_id = [], bt_gatt = True \<rparr>"
  obtain s1 where run: "wizard_run env m s (connecting ?d []) = Some s1" "activeStep s1 = 1" "\<not> loading s1"
    "route s1 = None" "in_flight s1 = []" "device_known s1" "accepted s1 = accepted s" "posted s1 = posted s"
    using assms True connect_runs [of env ?d s m "[]"]
    by (auto simp: wizard_ok_def device_known_def)
  then have "wizard_ok env m s1" using assms(1) by (simp add: wizard_ok_def)
  with run show ?thesis by (intro completes_run [OF run(1)] completes_known) auto
next
  case False
  with assms show ?thesis by (intro completes_known) (auto simp: wizard_ok_def)
qed

text \<open>The last step is entered by an accepted post only.\<close>

lemma resume_accepts:
  assumes "wizard_ok env m s" and "in_flight s = [c]" and "resume c r (s \<lparr> in_flight := [] \<rparr>) = Some s'"
  shows "length (accepted s) \<le> length (accepted s') \<and>
    (activeStep s' = 4 \<longrightarrow> activeStep s = 4 \<or> length (accepted s) < length (accepted s'))"
proof -
  have f: "call_fits env m s c" using assms(1,2) by (auto simp: wizard_ok_def split: if_splits)
  show ?thesis
  proof (cases r)
    case (Rejected e)
    with assms(3) show ?thesis by (auto simp: resume_rejected call_failed_def)
  qed (use assms(3) f in \<open>cases c; auto simp: wizard_handlers Let_def split: if_splits\<close>)+
qed

lemma step_accepts:
  assumes ok: "wizard_ok env m s" and step: "wizard_step env m s e = Some s'"
  shows "length (accepted s) \<le> length (accepted s') \<and>
    (activeStep s' = 4 \<longrightarrow> activeStep s = 4 \<or> length (accepted s) < length (accepted s'))"
proof (cases e)
  case (Settle i r)
  with step have i: "i < length (in_flight s)" by (auto split: if_splits)
  with ok obtain c where "in_flight s = [c]" by (fastforce simp: wizard_ok_def split: if_splits)
  with step Settle i show ?thesis by (intro resume_accepts [OF ok, of c r]) (auto split: if_splits)
next
  case (User u)
  then have u: "s' = user_acts env m u s" "offers (CommissioningWizard m s) u" using step by (auto split: if_splits)
  have "activeStep (press env m b s) = 4 \<longrightarrow> activeStep s = 4" "accepted (press env m b s) = accepted s"
    if "offers (CommissioningWizard m s) (Click b)" for b
    using that ok by (cases b; auto simp: offered_buttons wizard_handlers wizard_ok_def Let_def split: option.splits)+
  with u show ?thesis by (cases u) auto
qed

lemma run_accepts:
  assumes "wizard_reachable env m s" and "wizard_run env m s es = Some s'"
  shows "length (accepted s) \<le> length (accepted s') \<and>
    (activeStep s' = 4 \<longrightarrow> activeStep s = 4 \<or> length (accepted s) < length (accepted s'))"
  using assms
proof (induction es arbitrary: s)
  case (Cons e es)
  then obtain s1 where s1: "wizard_step env m s e = Some s1" "wizard_run env m s1 es = Some s'"
    by (auto simp: bind_eq_Some_conv)
  from Cons.IH [OF wizard_reachable.step [OF Cons.prems(1) s1(1)] s1(2)]
    step_accepts [OF wizard_reachable_ok [OF Cons.prems(1)] s1(1)]
  show ?case by auto
qed simp

text \<open>
  C15: As long as the user has not left the page, every reachable state of the commissioning wizard,
  in the middle of a scan or of a save or after any failure, can still be brought to its last step,
  given a browser with Web Bluetooth and a backend that accepts the post of the settings: no
  sequence of clicks, inputs and failures gets the page itself stuck. The acceptance is needed: every run
  from an earlier step to the last one contains an accepted post, so with a backend that accepts
  none, as this repository's (C2), there is no such run.
\<close>

theorem wizard_can_complete:
  assumes "wizard_reachable env m s" and "route s = None" and "web_bluetooth env"
  shows "(\<exists>es s'. wizard_run env m s es = Some s' \<and> activeStep s' = 4) \<and>
    (\<forall>es s'. wizard_run env m s es = Some s' \<and> activeStep s' = 4 \<longrightarrow>
       activeStep s = 4 \<or> length (accepted s) < length (accepted s'))"
proof -
  have ok: "wizard_ok env m s" using assms(1) by (rule wizard_reachable_ok)
  have "completes env m s"
  proof (cases "loading s")
    case False
    with completes_idle [OF ok assms(2,3)] show ?thesis by simp
  next
    case True
    with ok obtain c where c: "in_flight s = [c]" by (auto simp: wizard_ok_def)
    then obtain s1 where s1: "wizard_run env m s [Settle 0 (Rejected (Error []))] = Some s1"
      "route s1 = None" "\<not> loading s1"
      using assms(2) by (simp add: resume_rejected call_failed_def)
    moreover have "wizard_ok env m s1"
      using s1(1) assms(1) run_reachable wizard_reachable_ok by blast
    ultimately show ?thesis using assms(3) by (intro completes_run [OF s1(1)] completes_idle) auto
  qed
  then show ?thesis unfolding completes_def using run_accepts [OF assms(1)] by blast
qed

section \<open>Properties\<close>

text \<open>
  C7: In every reachable state of the commissioning wizard the step is one of its five; exactly one
  call is in flight while it is loading and none otherwise; from the second step on the shown device
  data is that of the connected device; and the last step is only shown when the last post made was
  accepted and names the device that is shown.
\<close>

theorem wizard_invariant:
  assumes "wizard_reachable env m s"
  shows "0 \<le> activeStep s \<and> activeStep s < int (length (steps m))
    \<and> length (in_flight s) = (if loading s then 1 else 0)
    \<and> (0 < activeStep s \<longrightarrow> (\<exists>d info. device s = Some d \<and> deviceInfo s = Some info \<and>
          info_id info = bt_id d \<and> info_name info = bt_name d))
    \<and> (activeStep s = 4 \<longrightarrow> (\<exists>info cfg r rs as. deviceInfo s = Some info \<and> r = save_request env m info cfg \<and>
          posted s = r # rs \<and> accepted s = r # as \<and> set as \<subseteq> set (posted s)))"
proof -
  have ok: "wizard_ok env m s" using assms by (rule wizard_reachable_ok)
  then have "length (in_flight s) = (if loading s then 1 else 0)" by (auto simp: wizard_ok_def)
  moreover have "\<exists>info cfg r rs as. deviceInfo s = Some info \<and> r = save_request env m info cfg \<and>
      posted s = r # rs \<and> accepted s = r # as \<and> set as \<subseteq> set (posted s)" if "activeStep s = 4"
    using ok that by (cases "posted s"; cases "accepted s") (auto simp: wizard_ok_def posts_device_def)
  ultimately show ?thesis using ok by (auto simp: wizard_ok_def device_known_def steps_def)
qed

text \<open>
  C33: When a save fails, the wizard keeps its step, its inputs and its device, stops loading and
  records the error message (or the default text), so that the user can try again; but the message
  is shown only if the user has gone back to the first step meanwhile: on the step with the
  Commission button nothing tells that the save failed.
\<close>

theorem failed_save_shown_on_first_step_only:
  assumes "wizard_reachable env m s" and "in_flight s = [Post r]" and "route s = None"
  shows "\<exists>s'. wizard_step env m s (Settle 0 (Rejected e)) = Some s' \<and>
    error s' = Some (text_or (Some (message e)) ''Failed to save configuration'') \<and>
    s' = s \<lparr> in_flight := [], loading := False, error := error s' \<rparr> \<and>
    ((\<exists>t. (''error'', t) \<in> set (alerts (CommissioningWizard m s'))) \<longleftrightarrow> activeStep s = 0)"
proof -
  have "0 \<le> activeStep s" "activeStep s \<le> 4" using reachable_step [OF assms(1)] by auto
  with assms(2,3) show ?thesis
    by (auto simp: call_failed_def wizard_views split: option.splits)
qed

text \<open>
  Inputs made while a save is pending are lost silently: the fields stay enabled, and if a
  field of the sampling step is changed between the click on Commission and the answer of the
  backend, the wizard ends on its last step showing success, with the changed value in its state
  and the old one in the request that was accepted.
\<close>

theorem edits_during_save_lost:
  assumes "wizard_reachable env NodeMode s" and "activeStep s = 3" and "\<not> loading s" and "route s = None"
  shows "\<exists>info s'. deviceInfo s = Some info \<and>
    wizard_run env NodeMode s
      [User (Click Forward), User (Type SamplingIntervalField v), Settle 0 Resolved] = Some s' \<and>
    activeStep s' = 4 \<and> samplingInterval (config s') = parse_int v \<and>
    accepted s' = save_request env NodeMode info (config s) # accepted s"
proof -
  have ok: "wizard_ok env NodeMode s" using assms(1) by (rule wizard_reachable_ok)
  with assms(2,3) obtain info where "deviceInfo s = Some info" "in_flight s = []"
    by (auto simp: wizard_ok_def device_known_def)
  moreover have "offers (CommissioningWizard NodeMode t) (Type SamplingIntervalField v)" if "activeStep t = 3" for t
    using that by (simp add: wizard_views)
  ultimately show ?thesis using assms(2-4)
    by (simp add: offered_buttons wizard_handlers set_config_field_def Let_def)
qed

section \<open>A sample run\<close>

definition sample_env :: web_env where
  "sample_env = \<lparr> VITE_API_URL = None, web_bluetooth = True \<rparr>"

definition sample_device :: bt_device where
  "sample_device = \<lparr> bt_name = Some (js ''ISN-7''), bt_id = js ''device-7'', bt_gatt = True \<rparr>"

definition at_step :: "int \<Rightarrow> wizard" where
  "at_step k = new_wizard \<lparr> activeStep := k, device := Some sample_device,
     deviceInfo := Some \<lparr> info_name = bt_name sample_device, info_id = bt_id sample_device,
       firmwareVersion = text_decode [] \<rparr> \<rparr>"

lemma at_step_simps [simp]:
  "activeStep (at_step k) = k" "loading (at_step k) = False" "route (at_step k) = None" "in_flight (at_step k) = []"
  "handleNext (at_step k) = at_step (k + 1)"
  by (simp_all add: at_step_def new_wizard_def handleNext_def)

lemma at_step_1: "wizard_reachable sample_env m (at_step 1)"
proof (rule run_reachable [OF _ wizard_reachable.start])
  show "wizard_run sample_env m new_wizard (connecting sample_device []) = Some (at_step 1)"
    by (subst connect_runs) (simp_all add: sample_env_def sample_device_def new_wizard_def at_step_def)
qed

lemma at_step_3: "wizard_reachable sample_env m (at_step 3)"
proof (rule run_reachable [OF _ at_step_1])
  show "wizard_run sample_env m (at_step 1) [User (Click Forward), User (Click Forward)] = Some (at_step 3)"
    by (simp add: offered_buttons)
qed

definition sample_saving :: "wizard_mode \<Rightarrow> wizard" where
  "sample_saving m = saveConfiguration sample_env m (at_step 3)"

lemma sample_saving: "wizard_reachable sample_env m (sample_saving m)"
proof (rule run_reachable [OF _ at_step_3])
  show "wizard_run sample_env m (at_step 3) [User (Click Forward)] = Some (sample_saving m)"
    by (simp add: offered_buttons sample_saving_def)
qed

lemma sample_saving_simps:
  "route (sample_saving m) = None" "activeStep (sample_saving m) = 3"
  "\<exists>r. in_flight (sample_saving m) = [Post r]"
  by (simp_all add: sample_saving_def at_step_def new_wizard_def saveConfiguration_def start_call_def Let_def)

theorem wizard_can_complete_witness:
  "\<exists>es s'. wizard_run sample_env HubMode (sample_saving HubMode) es = Some s' \<and> activeStep s' = 4 \<and> accepted s' \<noteq> []"
  using wizard_can_complete [OF sample_saving, of HubMode] by (fastforce simp: sample_saving_simps sample_env_def)

theorem wizard_invariant_witness:
  "\<exists>s. wizard_reachable sample_env NodeMode s \<and> activeStep s = 4 \<and>
     (\<exists>info cfg r rs as. deviceInfo s = Some info \<and> r = save_request sample_env NodeMode info cfg \<and>
       posted s = r # rs \<and> accepted s = r # as)"
proof -
  obtain r where "in_flight (sample_saving NodeMode) = [Post r]" using sample_saving_simps(3) by blast
  then obtain s where "wizard_run sample_env NodeMode (sample_saving NodeMode) [Settle 0 Resolved] = Some s" "activeStep s = 4"
    by (simp add: sample_saving_simps handleNext_def)
  moreover from this have "wizard_reachable sample_env NodeMode s" using run_reachable sample_saving by blast
  ultimately show ?thesis using wizard_invariant [of sample_env NodeMode s] by blast
qed

theorem failed_save_shown_on_first_step_only_witness:
  "\<exists>s'. wizard_step sample_env NodeMode (sample_saving NodeMode) (Settle 0 (Rejected (Error (js ''timeout'')))) = Some s' \<and>
     error s' = Some (js ''timeout'') \<and> \<not> (\<exists>t. (''error'', t) \<in> set (alerts (CommissioningWizard NodeMode s')))"
proof -
  obtain r where "in_flight (sample_saving NodeMode) = [Post r]" using sample_saving_simps(3) by blast
  from failed_save_shown_on_first_step_only [OF sample_saving this, of "Error (js ''timeout'')"]
  show ?thesis by (auto simp: sample_saving_simps)
qed

theorem edits_during_save_lost_witness:
  "\<exists>info s'. wizard_run sample_env NodeMode (at_step 3)
      [User (Click Forward), User (Type SamplingIntervalField (js ''5'')), Settle 0 Resolved] = Some s' \<and>
     accepted s' = [save_request sample_env NodeMode info initial_config]"
proof -
  have "config (at_step 3) = initial_config" "accepted (at_step 3) = []"
    by (simp_all add: at_step_def new_wizard_def)
  with edits_during_save_lost [OF at_step_3, of "js ''5''"] show ?thesis
    unfolding at_step_simps by metis
qed

end
