(* ===== verification/TopologyViews.thy ===== *)
theory TopologyViews
  imports TopologyStore
begin

text \<open>
  Reading and writing the topology through the service: the relations nested in a site or a hub
  are what the separate queries list, an update patches one row and answers with what is then
  stored under its key, and a created hub can be found.
\<close>

section \<open>Updates followed by a read of the same key\<close>

text \<open>A store whose criterion \<open>by_id\<close> selects by the key, which is unique in consistent tables.\<close>

locale keyed_store = table_store +
  assumes by_key: "row_matches S (by_id S i) r \<longleftrightarrow> row_id S r = Value i"
    and rows_set: "rows_of S (with_rows S rs T) = rs"
    and unique_keys: "consistent T \<Longrightarrow> distinct (map (row_id S) (rows_of S T))"
begin

lemma find_by_key:
  assumes "fits (by_id S i)"
  shows "ent_findOne R (by_id S i) rels w =
    (Inr (map_option (load S rels (db w)) (List.find (\<lambda>r. row_id S r = Value i) (rows_of S (db w)))), w)"
proof (cases "List.find (\<lambda>r. row_id S r = Value i) (rows_of S (db w))")
  case None
  then have "\<forall>r\<in>set (rows_of S (db w)). \<not> row_matches S (by_id S i) r" by (simp add: find_None_iff by_key)
  with None show ?thesis by (simp add: findOne_none [OF assms])
next
  case (Some r)
  then have r: "r \<in> set (rows_of S (db w))" "row_id S r = Value i" by (auto simp: find_Some_iff)
  have "ent_findOne R (by_id S i) rels w = (Inr (Some (load S rels (db w) r)), w)"
  proof (rule findOne_unique [OF assms r(1)])
    show "row_matches S (by_id S i) r" by (simp add: by_key r(2))
    show "r' = r" if "r' \<in> set (rows_of S (db w))" "row_matches S (by_id S i) r'" for r'
      using unique_keys [OF db_consistent, of w] r that by (auto simp: by_key distinct_map inj_on_def)
  qed
  with Some show ?thesis by simp
qed

lemma update_then_find:
  assumes "fits (by_id S i)" and "fits (columns S d)" and "no_relations S d" and "row_patch S (columns S d) c \<noteq> c"
  shows "\<exists>res w' u. await (ent_update R i d) (\<lambda>_. ent_findOne R (by_id S i) rels) w = (res, w') \<and>
    (let rs = overlay S (Value i) u (columns S d) (rows_of S (db w)); T' = with_rows S rs (db w) in
     if consistent T'
     then db w' = T' \<and> res = Inr (map_option (load S rels T') (List.find (\<lambda>r. row_id S r = Value i) rs))
     else db w' = db w \<and> (\<exists>e. res = Inl e))"
proof -
  obtain res w' u where up: "ent_update R i d w = (res, w')"
    "written res (db w) (with_rows S (overlay S (Value i) u (columns S d) (rows_of S (db w))) (db w)) (db w') (\<lambda>_. True)"
    using update_law [OF assms] by blast
  show ?thesis
  proof (cases res)
    case (Inl e)
    have "await (ent_update R i d) (\<lambda>_. ent_findOne R (by_id S i) rels) w = (Inl e, w')"
      using up(1) Inl by (simp add: await_def)
    with up(2) Inl show ?thesis by (auto simp: written_def Let_def split: if_splits)
  next
    case (Inr x)
    have "await (ent_update R i d) (\<lambda>_. ent_findOne R (by_id S i) rels) w = ent_findOne R (by_id S i) rels w'"
      using up(1) Inr by (simp add: await_def)
    with up(2) Inr show ?thesis
      using find_by_key [OF assms(1), of rels w'] by (auto simp: written_def Let_def rows_set split: if_splits)
  qed
qed

end

sublocale topology \<subseteq> hub: keyed_store "hubRepository svc" hub_schema "fit_hub F" db
  by unfold_locales
    (auto simp: hub_schema_def hub_matches_def no_hub_def consistent_def hubs_ok_def keys_ok_def)

sublocale topology \<subseteq> node: keyed_store "nodeRepository svc" node_schema "fit_node F" db
  by unfold_locales
    (auto simp: node_schema_def node_matches_def no_node_def consistent_def nodes_ok_def keys_ok_def)

sublocale topology \<subseteq> site: keyed_store "siteRepository svc" site_schema "fit_site F" db
  by unfold_locales
    (auto simp: site_schema_def site_matches_def no_site_def consistent_def sites_ok_def keys_ok_def)

section \<open>Loaded relations\<close>

lemma truncate_load [simp]:
  "hub_row.truncate (load hub_schema rels T r) = r"
  "sensor_group_row.truncate (load sensor_group_schema rels T g) = g"
  "node_row.truncate (load node_schema rels T n) = n"
  by (simp_all add: hub_schema_def sensor_group_schema_def node_schema_def hub_row.defs Hub.defs
      sensor_group_row.defs SensorGroup.defs node_row.defs Node.defs)

lemma load_relations [simp]:
  "site_hubs (load site_schema rels T s) = to_many (''hubs'' \<in> set rels) hub_siteId (site_id s) (hubs T)"
  "site_sensorGroups (load site_schema rels T s) = to_many (''sensorGroups'' \<in> set rels) group_siteId (site_id s) (sensor_groups T)"
  "hub_nodes (load hub_schema rels T r) = to_many (''nodes'' \<in> set rels) node_hubId (hub_id r) (nodes T)"
  by (simp_all add: site_schema_def hub_schema_def site_row.defs Site.defs hub_row.defs Hub.defs)

context table_store begin

lemma listed:
  assumes "fits c" and "\<And>r. row_matches S c r \<longleftrightarrow> P r" and "\<And>T r. trunc (load S rels T r) = r"
  shows "\<exists>es. ent_find R c rels w = (Inr es, w) \<and> image_mset trunc (mset es) = filter_mset P (mset (rows_of S (db w)))"
proof -
  obtain es where "ent_find R c rels w = (Inr es, w)"
    "mset es = image_mset (load S rels (db w)) (filter_mset (row_matches S c) (mset (rows_of S (db w))))"
    using find_law [OF assms(1)] by blast
  moreover have "row_matches S c = P" using assms(2) by (simp add: fun_eq_iff)
  ultimately show ?thesis by (simp add: multiset.map_comp comp_def assms(3))
qed

end

context topology begin

lemma hubs_of_site:
  assumes "fit_hub F (no_hub \<lparr> hub_siteId := Value i \<rparr>)"
  shows "\<exists>hs. findHubsBySite svc i w = (Inr hs, w) \<and>
    image_mset hub_row.truncate (mset hs) = filter_mset (\<lambda>r. hub_siteId r = Value i) (mset (hubs (db w)))"
  using hub.listed [OF assms, of "\<lambda>r. hub_siteId r = Value i" hub_row.truncate "[''nodes'']" w]
  unfolding findHubsBySite_def by (simp add: hub_matches_def no_hub_def hub_schema_def hub_row.defs Hub.defs)

lemma groups_of_site:
  assumes "fit_sensor_group F (no_sensor_group \<lparr> group_siteId := Value i \<rparr>)"
  shows "\<exists>gs. findSensorGroupsBySite svc i w = (Inr gs, w) \<and>
    image_mset sensor_group_row.truncate (mset gs) = filter_mset (\<lambda>r. group_siteId r = Value i) (mset (sensor_groups (db w)))"
  using sensor_group.listed [OF assms, of "\<lambda>r. group_siteId r = Value i" sensor_group_row.truncate "[''nodes'']" w]
  unfolding findSensorGroupsBySite_def
  by (simp add: sensor_group_matches_def no_sensor_group_def sensor_group_schema_def sensor_group_row.defs SensorGroup.defs)

lemma nodes_of_hub:
  assumes "fit_node F (no_node \<lparr> node_hubId := Value h \<rparr>)"
  shows "\<exists>ns. findNodesByHub svc h w = (Inr ns, w) \<and>
    image_mset node_row.truncate (mset ns) = filter_mset (\<lambda>r. node_hubId r = Value h) (mset (nodes (db w)))"
  using node.listed [OF assms, of "\<lambda>r. node_hubId r = Value h" node_row.truncate "[''sensorGroup'']" w]
  unfolding findNodesByHub_def by (simp add: node_matches_def no_node_def node_schema_def node_row.defs Node.defs)

lemma site_by_id:
  assumes "fit_site F (no_site \<lparr> site_id := Value i \<rparr>)"
  shows "findSiteById svc i w = (Inr (map_option (load site_schema [''organization'', ''sensorGroups'', ''hubs''] (db w))
      (List.find (\<lambda>r. site_id r = Value i) (sites (db w)))), w)"
  using site.find_by_key [of i] assms by (simp add: findSiteById_def site_schema_def)

lemma hub_by_id:
  assumes "fit_hub F (no_hub \<lparr> hub_id := Value h \<rparr>)"
  shows "findHubById svc h w = (Inr (map_option (load hub_schema [''site'', ''nodes''] (db w))
      (List.find (\<lambda>r. hub_id r = Value h) (hubs (db w)))), w)"
  using hub.find_by_key [of h] assms by (simp add: findHubById_def hub_schema_def)

lemma update_hub:
  assumes "fit_hub F (no_hub \<lparr> hub_id := Value i \<rparr>)" and "fit_hub F (columns hub_schema d)"
    and "no_relations hub_schema d" and "hub_patch (columns hub_schema d) c \<noteq> c"
  shows "\<exists>res w' u. updateHub svc i d w = (res, w') \<and>
    (let rs = map (\<lambda>r. if hub_id r = Value i then (hub_patch (columns hub_schema d) r) \<lparr> hub_updatedAt := Value u \<rparr> else r) (hubs (db w));
         T' = (db w) \<lparr> hubs := rs \<rparr> in
     if consistent T'
     then db w' = T' \<and> res = Inr (map_option (load hub_schema [''site'', ''nodes''] T') (List.find (\<lambda>r. hub_id r = Value i) rs))
     else db w' = db w \<and> (\<exists>e. res = Inl e))"
  using hub.update_then_find [of i d c "[''site'', ''nodes'']" w] assms
  unfolding updateHub_def findHubById_def by (simp add: hub_schema_def overlay_def cong: if_cong)

lemma update_node:
  assumes "fit_node F (no_node \<lparr> node_id := Value i \<rparr>)" and "fit_node F (columns node_schema d)"
    and "no_relations node_schema d" and "node_patch (columns node_schema d) c \<noteq> c"
  shows "\<exists>res w' u. updateNode svc i d w = (res, w') \<and>
    (let rs = map (\<lambda>r. if node_id r = Value i then (node_patch (columns node_schema d) r) \<lparr> node_updatedAt := Value u \<rparr> else r) (nodes (db w));
         T' = (db w) \<lparr> nodes := rs \<rparr> in
     if consistent T'
     then db w' = T' \<and> res = Inr (map_option (load node_schema [''sensorGroup'', ''hub''] T') (List.find (\<lambda>r. node_id r = Value i) rs))
     else db w' = db w \<and> (\<exists>e. res = Inl e))"
  using node.update_then_find [of i d c "[''sensorGroup'', ''hub'']" w] assms
  unfolding updateNode_def findNodeById_def by (simp add: node_schema_def overlay_def cong: if_cong)

lemma inserted_hub:
  assumes "no_relations hub_schema d" and "hub_id d = Undefined" and "hub_deviceId d = Value x"
  shows "hub_id (inserted hub_schema i t d) = Value i" "hub_deviceId (inserted hub_schema i t d) = Value x"
    "hub_siteId (inserted hub_schema i t d) = over (hub_siteId d) Null"
    "hub_status (inserted hub_schema i t d) = over (hub_status d) (Value (js ''provisioning''))"
  using assms by (simp_all add: inserted_def hub_patch_def) (simp_all add: hub_schema_def hub_row.defs)

lemma consistent_insert_hub:
  assumes "hub_id r = Value i" "hub_deviceId r = Value x" "Value i \<notin> set (map hub_id (hubs (db w)))"
  shows "consistent ((db w) \<lparr> hubs := hubs (db w) @ [r] \<rparr>) \<longleftrightarrow>
    Value x \<notin> set (map hub_deviceId (hubs (db w))) \<and> refers (map site_id (sites (db w))) (hub_siteId r) \<and>
    in_enum hub_statuses (hub_status r)"
proof -
  have mono: "refers ks k \<Longrightarrow> refers (ks @ [k']) k" for ks k k'
    by (cases k) simp_all
  have "consistent (db w)" by (rule hub.db_consistent)
  then show ?thesis
    using assms
    by (auto simp: consistent_def organizations_ok_def users_ok_def sites_ok_def sensor_groups_ok_def hubs_ok_def
        nodes_ok_def keys_ok_def list_all_iff intro: mono)
qed

text \<open>Rows that refer to a key which is not there do not exist.\<close>

lemma no_children:
  "Value i \<notin> set (map site_id (sites (db w))) \<Longrightarrow> filter_mset (\<lambda>r. hub_siteId r = Value i) (mset (hubs (db w))) = {#}"
  "Value i \<notin> set (map site_id (sites (db w))) \<Longrightarrow> filter_mset (\<lambda>r. group_siteId r = Value i) (mset (sensor_groups (db w))) = {#}"
  "Value i \<notin> set (map hub_id (hubs (db w))) \<Longrightarrow> filter_mset (\<lambda>r. node_hubId r = Value i) (mset (nodes (db w))) = {#}"
  using hub.db_consistent [of w]
  by (fastforce simp: consistent_def hubs_ok_def sensor_groups_ok_def nodes_ok_def list_all_iff)+

lemma create_hub:
  assumes "fit_hub F (columns hub_schema d)" and "no_relations hub_schema d"
    and "hub_id d = Undefined" and "hub_deviceId d = Value x" and "fit_hub F (no_hub \<lparr> hub_deviceId := Value x \<rparr>)"
  shows "\<exists>res w' i t. createHub svc d w = (res, w') \<and>
    (if Value x \<in> set (map hub_deviceId (hubs (db w))) \<or> \<not> refers (map site_id (sites (db w))) (over (hub_siteId d) Null)
        \<or> \<not> in_enum hub_statuses (over (hub_status d) (Value (js ''provisioning'')))
     then db w' = db w \<and> (\<exists>e. res = Inl e)
     else db w' = (db w) \<lparr> hubs := hubs (db w) @ [inserted hub_schema i t d] \<rparr> \<and> (\<exists>h. res = Inr h) \<and>
       findHubByDeviceId svc x w' = (Inr (Some (load hub_schema [''site'', ''nodes''] (db w') (inserted hub_schema i t d))), w') \<and>
       hub_nodes (load hub_schema [''site'', ''nodes''] (db w') (inserted hub_schema i t d)) = Some {#})"
proof -
  note row = inserted_hub [OF assms(2-4)]
  have new_key: "row_id hub_schema (columns hub_schema d) = Undefined"
    using assms(2,3) by (simp add: hub_schema_def hub_row.defs)
  have "\<not> known_key hub_schema (db w) Undefined"
    using hub.db_consistent [of w] by (auto simp: known_key_def hub_schema_def consistent_def hubs_ok_def keys_ok_def list_all_iff)
  then obtain res w' i t where c: "createHub svc d w = (res, w')" "\<not> known_key hub_schema (db w) (Value i)"
    "written res (db w) ((db w) \<lparr> hubs := hubs (db w) @ [inserted hub_schema i t d] \<rparr>) (db w')
      (\<lambda>e'. row_patch hub_schema (columns hub_schema e') (inserted hub_schema i t d) = inserted hub_schema i t d)"
    using hub.save_new [OF assms(1,2), of w] new_key unfolding createHub_def by (auto simp: hub_schema_def)
  let ?r = "inserted hub_schema i t d"
  have fresh: "Value i \<notin> set (map hub_id (hubs (db w)))" using c(2) by (simp add: known_key_def hub_schema_def)
  have ok: "consistent ((db w) \<lparr> hubs := hubs (db w) @ [?r] \<rparr>) \<longleftrightarrow>
      Value x \<notin> set (map hub_deviceId (hubs (db w))) \<and> refers (map site_id (sites (db w))) (over (hub_siteId d) Null) \<and>
      in_enum hub_statuses (over (hub_status d) (Value (js ''provisioning'')))"
    using consistent_insert_hub [OF row(1,2) fresh] by (simp only: row(3,4))
  show ?thesis
  proof (cases "consistent ((db w) \<lparr> hubs := hubs (db w) @ [?r] \<rparr>)")
    case False
    then have "db w' = db w \<and> (\<exists>e. res = Inl e)" using c(3) by (cases res) (simp_all add: written_def)
    with False ok c(1) show ?thesis by auto
  next
    case True
    then have db': "db w' = (db w) \<lparr> hubs := hubs (db w) @ [?r] \<rparr>" "\<exists>h. res = Inr h"
      using c(3) by (cases res; simp add: written_def)+
    have "findHubByDeviceId svc x w' = (Inr (Some (load hub_schema [''site'', ''nodes''] (db w') ?r)), w')"
      unfolding findHubByDeviceId_def
    proof (rule hub.findOne_unique [OF assms(5)])
      show "?r \<in> set (rows_of hub_schema (db w'))" by (simp add: db'(1)) (simp add: hub_schema_def)
      show "row_matches hub_schema (no_hub \<lparr> hub_deviceId := Value x \<rparr>) ?r"
        using row(2) by (simp add: hub_schema_def hub_matches_def no_hub_def)
      show "r' = ?r" if r': "r' \<in> set (rows_of hub_schema (db w'))"
        "row_matches hub_schema (no_hub \<lparr> hub_deviceId := Value x \<rparr>) r'" for r'
      proof -
        have rows: "rows_of hub_schema T = hubs T" for T by (simp add: hub_schema_def)
        have "hub_deviceId r' = Value x" using r'(2) by (simp add: hub_schema_def hub_matches_def no_hub_def)
        moreover have "r' \<in> set (hubs (db w)) \<or> r' = ?r" using r'(1) unfolding rows db'(1) by auto
        moreover have "Value x \<notin> set (map hub_deviceId (hubs (db w)))" using True ok by blast
        ultimately show ?thesis by (metis image_eqI list.set_map)
      qed
    qed
    moreover have "filter_mset (\<lambda>n. node_hubId n = Value i) (mset (nodes (db w))) = {#}"
      by (rule no_children(3) [OF fresh])
    then have "hub_nodes (load hub_schema [''site'', ''nodes''] (db w') ?r) = Some {#}"
      by (simp add: to_many_def db'(1) row(1))
    ultimately show ?thesis using True ok c(1) db' by auto
  qed
qed

end

section \<open>Properties\<close>

text \<open>
  The relations nested in an answer are what the separate queries list: a site comes with
  exactly the hubs and sensor groups that the queries by site return, and a hub with exactly the
  nodes that the query by hub returns, each up to order; for a key that does not exist the
  answer is null and the lists are empty. Nothing is written.
\<close>

theorem nested_views_agree:
  assumes "topology_laws svc F db"
    and "fit_site F (no_site \<lparr> site_id := Value i \<rparr>)" and "fit_hub F (no_hub \<lparr> hub_siteId := Value i \<rparr>)"
    and "fit_sensor_group F (no_sensor_group \<lparr> group_siteId := Value i \<rparr>)"
    and "fit_hub F (no_hub \<lparr> hub_id := Value h \<rparr>)" and "fit_node F (no_node \<lparr> node_hubId := Value h \<rparr>)"
  shows "\<exists>s hs gs e ns. findSiteById svc i w = (Inr s, w) \<and> findHubsBySite svc i w = (Inr hs, w) \<and>
    findSensorGroupsBySite svc i w = (Inr gs, w) \<and> findHubById svc h w = (Inr e, w) \<and> findNodesByHub svc h w = (Inr ns, w) \<and>
    (case s of None \<Rightarrow> hs = [] \<and> gs = []
     | Some x \<Rightarrow> site_hubs x = Some (image_mset hub_row.truncate (mset hs)) \<and>
         site_sensorGroups x = Some (image_mset sensor_group_row.truncate (mset gs))) \<and>
    (case e of None \<Rightarrow> ns = []
     | Some x \<Rightarrow> hub_nodes x = Some (image_mset node_row.truncate (mset ns)))"
proof -
  note topo = topology.intro [OF assms(1)]
  obtain hs gs ns where lists: "findHubsBySite svc i w = (Inr hs, w)"
    "image_mset hub_row.truncate (mset hs) = filter_mset (\<lambda>r. hub_siteId r = Value i) (mset (hubs (db w)))"
    "findSensorGroupsBySite svc i w = (Inr gs, w)"
    "image_mset sensor_group_row.truncate (mset gs) = filter_mset (\<lambda>r. group_siteId r = Value i) (mset (sensor_groups (db w)))"
    "findNodesByHub svc h w = (Inr ns, w)"
    "image_mset node_row.truncate (mset ns) = filter_mset (\<lambda>r. node_hubId r = Value h) (mset (nodes (db w)))"
    using topology.hubs_of_site [OF topo assms(3)] topology.groups_of_site [OF topo assms(4)]
      topology.nodes_of_hub [OF topo assms(6)] by blast
  have site: "case map_option (load site_schema [''organization'', ''sensorGroups'', ''hubs''] (db w))
        (List.find (\<lambda>r. site_id r = Value i) (sites (db w))) of
      None \<Rightarrow> hs = [] \<and> gs = []
    | Some x \<Rightarrow> site_hubs x = Some (image_mset hub_row.truncate (mset hs)) \<and>
        site_sensorGroups x = Some (image_mset sensor_group_row.truncate (mset gs))"
  proof (cases "List.find (\<lambda>r. site_id r = Value i) (sites (db w))")
    case None
    then have "Value i \<notin> set (map site_id (sites (db w)))" by (auto simp: find_None_iff)
    then have "image_mset hub_row.truncate (mset hs) = {#}" "image_mset sensor_group_row.truncate (mset gs) = {#}"
      unfolding lists(2,4) by (rule topology.no_children [OF topo])+
    with None show ?thesis by simp
  next
    case (Some r)
    then have "site_id r = Value i" by (auto simp: find_Some_iff)
    with Some show ?thesis by (simp add: to_many_def lists(2,4))
  qed
  have hub: "case map_option (load hub_schema [''site'', ''nodes''] (db w)) (List.find (\<lambda>r. hub_id r = Value h) (hubs (db w))) of
      None \<Rightarrow> ns = [] | Some x \<Rightarrow> hub_nodes x = Some (image_mset node_row.truncate (mset ns))"
  proof (cases "List.find (\<lambda>r. hub_id r = Value h) (hubs (db w))")
    case None
    then have "Value h \<notin> set (map hub_id (hubs (db w)))" by (auto simp: find_None_iff)
    then have "image_mset node_row.truncate (mset ns) = {#}"
      unfolding lists(6) by (rule topology.no_children [OF topo])
    with None show ?thesis by simp
  next
    case (Some r)
    then have "hub_id r = Value h" by (auto simp: find_Some_iff)
    with Some show ?thesis by (simp add: to_many_def lists(6))
  qed
  show ?thesis
    using lists(1,3,5) site hub topology.site_by_id [OF topo assms(2)] topology.hub_by_id [OF topo assms(5)] by blast
qed

theorem nested_views_agree_witness:
  "\<exists>s hs. findSiteById memory_topology (js ''site-1'') sample_tables = (Inr (Some s), sample_tables) \<and>
    findHubsBySite memory_topology (js ''site-1'') sample_tables = (Inr hs, sample_tables) \<and>
    site_hubs s = Some (image_mset hub_row.truncate (mset hs))"
proof -
  obtain s hs where sh: "findSiteById memory_topology (js ''site-1'') sample_tables = (Inr s, sample_tables)"
    "findHubsBySite memory_topology (js ''site-1'') sample_tables = (Inr hs, sample_tables)"
    "case s of None \<Rightarrow> hs = [] | Some x \<Rightarrow> site_hubs x = Some (image_mset hub_row.truncate (mset hs))"
    using nested_views_agree [OF memory_topology_laws, of "js ''site-1''" "js ''hub-1''" sample_tables]
    by (auto split: option.splits)
  have "List.find (\<lambda>r. site_id r = Value (js ''site-1'')) (sites sample_tables) \<noteq> None"
    by (simp add: sample_tables_def site_schema_def)
  then have "s \<noteq> None"
    using memory_db.site_by_id [of "js ''site-1''" sample_tables] sh(1) by auto
  with sh show ?thesis by auto
qed

text \<open>
  C16: An update of a hub or a node patches exactly the row of the key it names: the columns the
  request defines replace the row's, the others are kept, and no other row changes; the answer is
  the row that is then stored under the key, with its relations, or null. So an update of an unknown
  key changes nothing and answers null without an error, and so does the answer to an update that
  changes the key itself. If the patch would violate a constraint (a duplicate or missing key,
  an unknown site, group, hub or status) it is rejected and nothing changes.
\<close>

theorem update_patches_row:
  assumes "topology_laws svc F db"
    and "fit_hub F (no_hub \<lparr> hub_id := Value i \<rparr>)" and "fit_hub F (columns hub_schema d)"
    and "no_relations hub_schema d" and "hub_patch (columns hub_schema d) c \<noteq> c"
    and "fit_node F (no_node \<lparr> node_id := Value j \<rparr>)" and "fit_node F (columns node_schema n)"
    and "no_relations node_schema n" and "node_patch (columns node_schema n) c' \<noteq> c'"
  shows "(\<exists>res w' u. updateHub svc i d w = (res, w') \<and>
     (let rs = map (\<lambda>r. if hub_id r = Value i then (hub_patch (columns hub_schema d) r) \<lparr> hub_updatedAt := Value u \<rparr> else r) (hubs (db w));
          T' = (db w) \<lparr> hubs := rs \<rparr> in
      if consistent T'
      then db w' = T' \<and> res = Inr (map_option (load hub_schema [''site'', ''nodes''] T') (List.find (\<lambda>r. hub_id r = Value i) rs))
      else db w' = db w \<and> (\<exists>e. res = Inl e))) \<and>
    (\<exists>res w' u. updateNode svc j n w = (res, w') \<and>
     (let rs = map (\<lambda>r. if node_id r = Value j then (node_patch (columns node_schema n) r) \<lparr> node_updatedAt := Value u \<rparr> else r) (nodes (db w));
          T' = (db w) \<lparr> nodes := rs \<rparr> in
      if consistent T'
      then db w' = T' \<and> res = Inr (map_option (load node_schema [''sensorGroup'', ''hub''] T') (List.find (\<lambda>r. node_id r = Value j) rs))
      else db w' = db w \<and> (\<exists>e. res = Inl e)))"
  using topology.update_hub [OF topology.intro [OF assms(1)] assms(2-5)]
    topology.update_node [OF topology.intro [OF assms(1)] assms(6-9)]
  by blast

theorem update_patches_row_witness:
  "\<exists>w'. updateHub memory_topology (js ''hub-9'') (load hub_schema [] no_tables (no_hub \<lparr> hub_status := Value (js ''connected'') \<rparr>))
     sample_tables = (Inr None, w') \<and> stored w' = sample_tables"
proof -
  let ?d = "load hub_schema [] no_tables (no_hub \<lparr> hub_status := Value (js ''connected'') \<rparr>)"
  let ?n = "load node_schema [] no_tables (no_node \<lparr> node_rssi := Null \<rparr>)"
  have d: "no_relations hub_schema ?d" "hub_patch (columns hub_schema ?d) no_hub \<noteq> no_hub"
    by (simp_all add: hub_patch_def no_hub_def) (simp add: hub_schema_def hub_row.defs Hub.defs to_one_def to_many_def)
  have n: "no_relations node_schema ?n" "node_patch (columns node_schema ?n) no_node \<noteq> no_node"
    by (simp_all add: node_patch_def no_node_def) (simp add: node_schema_def node_row.defs Node.defs to_one_def)
  have none: "hub_id r \<noteq> Value (js ''hub-9'')" if "r \<in> set (hubs sample_tables)" for r
    using that by (auto simp: sample_tables_def hub_schema_def)
  then have same: "map (\<lambda>r. if hub_id r = Value (js ''hub-9'') then f r else r) (hubs sample_tables) = hubs sample_tables"
    "List.find (\<lambda>r. hub_id r = Value (js ''hub-9'')) (hubs sample_tables) = None" for f
    by (auto intro: map_idI simp: find_None_iff)
  show ?thesis
    using update_patches_row [OF memory_topology_laws _ _ d _ _ n, of "js ''hub-9''" "js ''key-9''" sample_tables]
    by (auto simp: Let_def same)
qed

text \<open>
  Creating a hub under a fresh key: if its device identifier is taken, or it names a site or
  a status that does not exist, the call is rejected and the tables stay as they were; otherwise one
  row is added, with the given columns and the defaults for the others (status provisioning), and
  looking the hub up by its device identifier returns that row with its site and no nodes.
\<close>

theorem create_hub_then_find:
  assumes "topology_laws svc F db" and "fit_hub F (columns hub_schema d)" and "no_relations hub_schema d"
    and "hub_id d = Undefined" and "hub_deviceId d = Value x" and "fit_hub F (no_hub \<lparr> hub_deviceId := Value x \<rparr>)"
  shows "\<exists>res w' i t. createHub svc d w = (res, w') \<and>
    (if Value x \<in> set (map hub_deviceId (hubs (db w))) \<or> \<not> refers (map site_id (sites (db w))) (over (hub_siteId d) Null)
        \<or> \<not> in_enum hub_statuses (over (hub_status d) (Value (js ''provisioning'')))
     then db w' = db w \<and> (\<exists>e. res = Inl e)
     else db w' = (db w) \<lparr> hubs := hubs (db w) @ [inserted hub_schema i t d] \<rparr> \<and> (\<exists>h. res = Inr h) \<and>
       findHubByDeviceId svc x w' = (Inr (Some (load hub_schema [''site'', ''nodes''] (db w') (inserted hub_schema i t d))), w') \<and>
       hub_nodes (load hub_schema [''site'', ''nodes''] (db w') (inserted hub_schema i t d)) = Some {#})"
  by (rule topology.create_hub [OF topology.intro [OF assms(1)] assms(2-6)])

theorem create_hub_then_find_witness:
  "\<exists>e w'. createHub memory_topology
      (load hub_schema [] no_tables (no_hub \<lparr> hub_deviceId := Value (js ''device-1'') \<rparr>)) sample_tables = (Inl e, w') \<and>
    stored w' = sample_tables"
proof -
  let ?d = "load hub_schema [] no_tables (no_hub \<lparr> hub_deviceId := Value (js ''device-1'') \<rparr>)"
  have d: "no_relations hub_schema ?d" "hub_id ?d = Undefined" "hub_deviceId ?d = Value (js ''device-1'')"
    by (simp_all add: hub_schema_def hub_row.defs Hub.defs no_hub_def to_one_def to_many_def)
  have "Value (js ''device-1'') \<in> set (map hub_deviceId (hubs sample_tables))"
    by (simp add: sample_tables_def)
  then show ?thesis
    using create_hub_then_find [OF memory_topology_laws _ d, of sample_tables] by auto
qed

end
