(* ===== verification/WizardBackend.thy ===== *)
theory WizardBackend
  imports WizardRuns TopologyViews
begin

text \<open>
  The commissioning wizard against the topology service of the backend: what the requests of the
  wizard are when the backend has parsed them, and how the service answers them.
\<close>

section \<open>What the wizard can post\<close>

definition config_ok :: "wizard_config \<Rightarrow> bool" where
  "config_ok c \<longleftrightarrow>
     sensorGroupId c \<in> {[], js ''sensorGroup-1'', js ''sensorGroup-2''} \<and>
     siteId c \<in> {[], js ''site-1'', js ''site-2''} \<and>
     list_all is_binary64 [samplingInterval c, warmupMs c, burstCount c, calibrationOffset c, calibrationSlope c]"

lemma parse_int_binary64 [simp]: "is_binary64 (parse_int s)"
  by (simp add: parse_int_def parse_int16_def Let_def split: prod.split)

lemma parse_float_binary64 [simp]: "is_binary64 (parse_float s)"
  by (simp add: parse_float_def round_dec_def Let_def split: prod.split)

lemma num_of_int_binary64: "\<bar>i\<bar> < 2 ^ 53 \<Longrightarrow> is_binary64 (num_of_int i)"
proof (cases "i = 0")
  case True
  then show ?thesis by (simp add: num_of_int_def representable_def)
next
  case False
  assume small: "\<bar>i\<bar> < 2 ^ 53"
  let ?n = "nat \<bar>i\<bar>"
  obtain m e where me: "odd_form ?n 0 = (m, e)" by fastforce
  then obtain k where k: "odd m" "?n = m * 2 ^ k" "e = int k"
    using odd_form_spec [of ?n 0 m e] False by auto
  have "0 < m" using k(1) by (rule odd_pos)
  then have "bit_len m + k = bit_len ?n" using k(2) by (simp add: bit_len_shift)
  also have "\<dots> \<le> 53" using small by (intro bit_len_le) simp
  finally have "bit_len m + k \<le> 53" .
  with k me show ?thesis by (simp add: num_of_int_def representable_def)
qed

lemma config_ok_start: "config_ok initial_config"
  by (simp add: config_ok_def initial_config_def num_of_int_binary64)

lemma config_ok_field:
  assumes "config_ok c" and "offers (CommissioningWizard m s) (Type f v) \<or> offers (CommissioningWizard m s) (Choose f v)"
  shows "config_ok (set_config_field f v c)"
  using assms by (cases f) (auto simp: config_ok_def set_config_field_def wizard_views split: if_splits option.splits)

lemma resume_config [simp]:
  assumes "resume c r s = Some s'"
  shows "config s' = config s \<and> posted s' = posted s"
  using assms by (cases c; cases r) (auto simp: wizard_handlers Let_def split: if_splits)

lemma press_posted:
  "config (press env m b s) = config s \<and>
   (posted (press env m b s) = posted s \<or>
    (\<exists>info. posted (press env m b s) = save_request env m info (config s) # posted s))"
  by (cases b) (auto simp: wizard_handlers Let_def split: option.splits)

lemma posted_requests:
  assumes "wizard_reachable env m s"
  shows "config_ok (config s) \<and> (\<forall>r\<in>set (posted s). \<exists>info cfg. r = save_request env m info cfg \<and> config_ok cfg)"
  using assms
proof (induction rule: wizard_reachable.induct)
  case start
  show ?case by (simp add: new_wizard_def config_ok_start)
next
  case (step s e s')
  show ?case
  proof (cases e)
    case (User u)
    with step.hyps have s': "s' = user_acts env m u s" and o: "offers (CommissioningWizard m s) u"
      by (auto split: if_splits)
    show ?thesis
    proof (cases u)
      case (Click b)
      have "config s' = config s" and "posted s' = posted s \<or> (\<exists>info. posted s' = save_request env m info (config s) # posted s)"
        using s' Click press_posted [of env m b s] by simp_all
      with step.IH show ?thesis by (metis set_ConsD)
    next
      case (Type f v)
      with s' o step.IH config_ok_field [of "config s" m s f v] show ?thesis by simp
    next
      case (Choose f v)
      with s' o step.IH config_ok_field [of "config s" m s f v] show ?thesis by simp
    qed
  next
    case (Settle i r)
    with step.hyps have "resume (in_flight s ! i) r (s \<lparr> in_flight := settled i (in_flight s) \<rparr>) = Some s'"
      by (auto split: if_splits)
    from resume_config [OF this] step.IH show ?thesis by simp
  qed
qed

section \<open>The body as the backend reads it\<close>

lemma node_body_ok:
  assumes "config_ok cfg"
  shows "json_ok (node_body info cfg)"
  using assms
  by (simp add: node_body_def config_ok_def literal_ok name_key_def is_digit_def num_of_int_binary64)

lemma hub_body_ok: "json_ok (hub_body info cfg)"
  unfolding hub_body_def by (rule literal_ok) (simp_all add: name_key_def is_digit_def)

text \<open>
  The entities that the backend makes of the bodies: of the posted properties the columns among
  them (a node has no column \<open>name\<close>).
\<close>

definition text_column :: "jval option \<Rightarrow> jstring column" where
  "text_column v = (case v of None \<Rightarrow> Undefined | Some (JStr s) \<Rightarrow> Value s | Some _ \<Rightarrow> Null)"

definition json_column :: "jval option \<Rightarrow> jval column" where
  "json_column v = (case v of None \<Rightarrow> Undefined | Some JNull \<Rightarrow> Null | Some j \<Rightarrow> Value j)"

definition hub_entity :: "jval \<Rightarrow> Hub" where
  "hub_entity j = hub_row.extend (no_hub \<lparr> hub_deviceId := text_column (property j ''deviceId''),
     hub_siteId := text_column (property j ''siteId''), hub_status := text_column (property j ''status'') \<rparr>)
     (Hub.fields Undefined None)"

definition node_entity :: "jval \<Rightarrow> Node" where
  "node_entity j = node_row.extend (no_node \<lparr> node_nodeId := text_column (property j ''nodeId''),
     node_sensorGroupId := text_column (property j ''sensorGroupId''),
     node_configuration := json_column (property j ''configuration'') \<rparr>)
     (Node.fields Undefined Undefined)"

lemma property_bodies [simp]:
  "property (hub_body info cfg) ''deviceId'' = Some (JStr (info_id info))"
  "property (hub_body info cfg) ''siteId'' = Some (JStr (siteId cfg))"
  "property (hub_body info cfg) ''status'' = Some (JStr (js ''commissioned''))"
  "property (node_body info cfg) ''nodeId'' = Some (JStr (info_id info))"
  "property (node_body info cfg) ''sensorGroupId'' = Some (JStr (sensorGroupId cfg))"
  by (simp_all add: hub_body_def node_body_def)

section \<open>The answer of the service\<close>

text \<open>What the handlers of \<open>POST nodes\<close> and \<open>POST hubs\<close> answer; only success or failure matters.\<close>

definition serve :: "'w TopologyService \<Rightarrow> wizard_mode \<Rightarrow> jval \<Rightarrow> 'w \<Rightarrow> bool \<times> 'w" where
  "serve svc m j w =
     (case m of
        NodeMode \<Rightarrow> (case TopologyController_createNode svc (node_entity j) w of (res, w') \<Rightarrow> (isl res, w'))
      | HubMode \<Rightarrow> (case TopologyController_createHub svc (hub_entity j) w of (res, w') \<Rightarrow> (isl res, w')))"

text \<open>
  What is relied on beyond the laws of the repositories: a row that the columns cannot hold (a text
  in a uuid column, say) is rejected; and the keys of the sensor groups are generated UUIDs.
\<close>

definition misfits_rejected ::
  "('w, 'row, 'entity) repository \<Rightarrow> ('row, 'entity) schema \<Rightarrow> ('row \<Rightarrow> bool) \<Rightarrow> ('w \<Rightarrow> tables) \<Rightarrow> bool" where
  "misfits_rejected R S fits db \<longleftrightarrow>
     (\<forall>e w. \<not> fits (columns S e) \<longrightarrow> (\<exists>err w'. ent_save R e w = (Inl err, w') \<and> db w' = db w))"

definition generated_keys :: "tables \<Rightarrow> bool" where
  "generated_keys T \<longleftrightarrow> list_all (\<lambda>g. key_length (group_id g) = 36) (sensor_groups T)"

context table_store begin

lemma save_refused:
  assumes "misfits_rejected R S fits db" and "no_relations S e" and "row_id S (columns S e) = Undefined"
    and "list_all has_value (map (row_id S) (rows_of S (db w)))"
    and "\<And>i t. \<not> consistent (with_rows S (rows_of S (db w) @ [inserted S i t e]) (db w))"
  shows "\<exists>err w'. ent_save R e w = (Inl err, w') \<and> db w' = db w"
proof (cases "fits (columns S e)")
  case False
  with assms(1) show ?thesis by (simp add: misfits_rejected_def)
next
  case True
  have "\<not> known_key S (db w) (row_id S (columns S e))"
    using assms(3,4) by (auto simp: known_key_def list_all_iff)
  moreover have "row_id S (columns S e) \<noteq> Null" using assms(3) by simp
  ultimately obtain res w' i t where "ent_save R e w = (res, w')"
    "written res (db w) (with_rows S (rows_of S (db w) @ [inserted S i t e]) (db w)) (db w')
      (\<lambda>e'. row_patch S (columns S e') (inserted S i t e) = inserted S i t e)"
    using save_new [OF True assms(2)] by blast
  with assms(5) show ?thesis by (cases res) (auto simp: written_def)
qed

end

context topology begin

lemma commissioned_hub_refused:
  assumes "misfits_rejected (hubRepository svc) hub_schema (fit_hub F) db"
    and "no_relations hub_schema e" and "hub_id (columns hub_schema e) = Undefined"
    and "hub_status (columns hub_schema e) = Value st" and "st \<notin> set hub_statuses"
  shows "\<exists>err w'. ent_save (hubRepository svc) e w = (Inl err, w') \<and> db w' = db w"
proof (rule hub.save_refused [OF assms(1,2)])
  show "row_id hub_schema (columns hub_schema e) = Undefined" using assms(3) by (simp add: hub_schema_def)
  show "list_all has_value (map (row_id hub_schema) (rows_of hub_schema (db w)))"
    using hub.db_consistent [of w] by (simp add: consistent_def hubs_ok_def keys_ok_def hub_schema_def)
  have "hub_status (inserted hub_schema i t e) = Value st" for i t
    using assms(4) by (simp add: inserted_def hub_patch_def)
  then show "\<not> consistent (with_rows hub_schema (rows_of hub_schema (db w) @ [inserted hub_schema i t e]) (db w))" for i t
    using assms(5) by (auto simp: consistent_def hubs_ok_def in_enum_def hub_schema_def [THEN arg_cong, of with_rows]
        hub_schema_def [THEN arg_cong, of rows_of])
qed

lemma ungrouped_node_refused:
  assumes "misfits_rejected (nodeRepository svc) node_schema (fit_node F) db"
    and "no_relations node_schema e" and "node_id (columns node_schema e) = Undefined"
    and "node_sensorGroupId (columns node_schema e) = Value g" and "Value g \<notin> group_id ` set (sensor_groups (db w))"
  shows "\<exists>err w'. ent_save (nodeRepository svc) e w = (Inl err, w') \<and> db w' = db w"
proof (rule node.save_refused [OF assms(1,2)])
  show "row_id node_schema (columns node_schema e) = Undefined" using assms(3) by (simp add: node_schema_def)
  show "list_all has_value (map (row_id node_schema) (rows_of node_schema (db w)))"
    using node.db_consistent [of w] by (simp add: consistent_def nodes_ok_def keys_ok_def node_schema_def)
  have "node_sensorGroupId (inserted node_schema i t e) = Value g" for i t
    using assms(4) by (simp add: inserted_def node_patch_def)
  then show "\<not> consistent (with_rows node_schema (rows_of node_schema (db w) @ [inserted node_schema i t e]) (db w))" for i t
    using assms(5) by (auto simp: consistent_def nodes_ok_def node_schema_def [THEN arg_cong, of with_rows]
        node_schema_def [THEN arg_cong, of rows_of])
qed

end

definition backend_laws :: "'w TopologyService \<Rightarrow> column_checks \<Rightarrow> ('w \<Rightarrow> tables) \<Rightarrow> bool" where
  "backend_laws svc F db \<longleftrightarrow> topology_laws svc F db \<and>
     misfits_rejected (hubRepository svc) hub_schema (fit_hub F) db \<and>
     misfits_rejected (nodeRepository svc) node_schema (fit_node F) db"

lemma entity_shape:
  "no_relations hub_schema (hub_entity j)" "hub_id (columns hub_schema (hub_entity j)) = Undefined"
  "hub_status (columns hub_schema (hub_entity j)) = text_column (property j ''status'')"
  "no_relations node_schema (node_entity j)" "node_id (columns node_schema (node_entity j)) = Undefined"
  "node_sensorGroupId (columns node_schema (node_entity j)) = text_column (property j ''sensorGroupId'')"
  by (simp_all add: hub_schema_def node_schema_def hub_entity_def node_entity_def hub_row.defs Hub.defs
      node_row.defs Node.defs no_hub_def no_node_def)

lemma serve_refuses:
  assumes "backend_laws svc F db" and "generated_keys (db w)" and "config_ok cfg"
  shows "\<exists>w'. serve svc m (json_norm (snd (save_request env m info cfg))) w = (True, w') \<and> db w' = db w"
proof -
  have topo: "topology svc F db" and mis: "misfits_rejected (hubRepository svc) hub_schema (fit_hub F) db"
    "misfits_rejected (nodeRepository svc) node_schema (fit_node F) db"
    using assms(1) by (simp_all add: backend_laws_def topology.intro)
  have id: "ent_create (hubRepository svc) e = e" "ent_create (nodeRepository svc) n = n" for e n
    using assms(1) by (simp_all add: backend_laws_def topology_laws_def repository_laws_def)
  show ?thesis
  proof (cases m)
    case HubMode
    let ?e = "hub_entity (json_norm (hub_body info cfg))"
    have "js ''commissioned'' \<notin> set hub_statuses" by (simp add: hub_statuses_def)
    moreover have "hub_status (columns hub_schema ?e) = Value (js ''commissioned'')"
      by (simp add: entity_shape text_column_def)
    ultimately obtain err w' where "ent_save (hubRepository svc) ?e w = (Inl err, w')" "db w' = db w"
      using topology.commissioned_hub_refused [OF topo mis(1) entity_shape(1,2)] by blast
    with HubMode show ?thesis
      by (simp add: serve_def save_request_def TopologyController_createHub_def createHub_def id)
  next
    case NodeMode
    let ?e = "node_entity (json_norm (node_body info cfg))"
    have "key_length (Value (sensorGroupId cfg)) \<noteq> 36" using assms(3) by (auto simp: config_ok_def)
    then have "Value (sensorGroupId cfg) \<notin> group_id ` set (sensor_groups (db w))"
      using assms(2) unfolding generated_keys_def list_all_iff by (metis imageE)
    moreover have "node_sensorGroupId (columns node_schema ?e) = Value (sensorGroupId cfg)"
      by (simp add: entity_shape text_column_def)
    ultimately obtain err w' where "ent_save (nodeRepository svc) ?e w = (Inl err, w')" "db w' = db w"
      using topology.ungrouped_node_refused [OF topo mis(2) entity_shape(4,5)] by blast
    with NodeMode show ?thesis
      by (simp add: serve_def save_request_def TopologyController_createNode_def createNode_def id)
  qed
qed

lemma body_arrives:
  assumes "config_ok cfg"
  shows "json_parse (stringify (snd (save_request env m info cfg))) = Some (json_norm (snd (save_request env m info cfg)))"
  by (intro json_parse_stringify) (simp add: save_request_def node_body_ok [OF assms] hub_body_ok)

section \<open>Wizard and backend together\<close>

text \<open>
  One wizard in front of the backend. Users act and calls of the wizard settle as in
  \<open>wizard_step\<close>, but a post is answered by the service on the current database (or its answer is
  lost, which rejects it in the browser); in between other clients change the database.
\<close>

definition answer :: "bool \<Rightarrow> outcome" where
  "answer failed = (if failed then Rejected (Error (js ''Request failed with status code 500'')) else Resolved)"

fun awaits_post :: "wizard \<Rightarrow> wizard_event \<Rightarrow> bool" where
  "awaits_post s (Settle i r) = (i < length (in_flight s) \<and> (\<exists>q. in_flight s ! i = Post q))"
| "awaits_post s (User e) = False"

inductive commissioning ::
  "web_env \<Rightarrow> 'w TopologyService \<Rightarrow> ('w \<Rightarrow> tables) \<Rightarrow> wizard_mode \<Rightarrow> wizard \<Rightarrow> 'w \<Rightarrow> bool"
  for env :: web_env and svc :: "'w TopologyService" and db :: "'w \<Rightarrow> tables" and m :: wizard_mode
where
  begins: "generated_keys (db w) \<Longrightarrow> commissioning env svc db m new_wizard w"
| page: "commissioning env svc db m s w \<Longrightarrow> \<not> awaits_post s e \<Longrightarrow> wizard_step env m s e = Some s' \<Longrightarrow>
    commissioning env svc db m s' w"
| answered: "commissioning env svc db m s w \<Longrightarrow> i < length (in_flight s) \<Longrightarrow> in_flight s ! i = Post q \<Longrightarrow>
    json_parse (stringify (snd q)) = Some j \<Longrightarrow> serve svc m j w = (failed, w') \<Longrightarrow>
    wizard_step env m s (Settle i (answer failed)) = Some s' \<Longrightarrow> commissioning env svc db m s' w'"
| lost: "commissioning env svc db m s w \<Longrightarrow> in_flight s ! i = Post q \<Longrightarrow>
    wizard_step env m s (Settle i (Rejected e)) = Some s' \<Longrightarrow> commissioning env svc db m s' w"
| others: "commissioning env svc db m s w \<Longrightarrow> generated_keys (db w') \<Longrightarrow> commissioning env svc db m s w'"

lemma resume_accepted:
  "resume c r s = Some s' \<Longrightarrow> accepted s' = accepted s \<or> (\<exists>q. c = Post q \<and> r = Resolved)"
  by (cases c; cases r) (auto simp: wizard_handlers Let_def split: if_splits)

lemma press_accepted: "accepted (user_acts env m e s) = accepted s"
proof (cases e)
  case (Click b)
  then show ?thesis by (cases b) (auto simp: wizard_handlers Let_def split: option.splits)
qed auto

lemma commissioning_state:
  assumes "backend_laws svc F db" and "commissioning env svc db m s w"
  shows "wizard_reachable env m s \<and> accepted s = [] \<and> generated_keys (db w)"
  using assms(2)
proof (induction rule: commissioning.induct)
  case (begins w)
  then show ?case by (simp add: wizard_reachable.start) (simp add: new_wizard_def)
next
  case (page s w e s')
  then have "accepted s' = accepted s"
    by (cases e) (auto split: if_splits simp: press_accepted dest!: resume_accepted)
  with page show ?case by (auto intro: wizard_reachable.step)
next
  case (answered s w i q j failed w' s')
  then have step: "resume (Post q) (answer failed) (s \<lparr> in_flight := settled i (in_flight s) \<rparr>) = Some s'"
    by (auto split: if_splits)
  have "wizard_ok env m s" using answered.IH by (blast intro: wizard_reachable_ok)
  then have "q \<in> set (posted s)"
    using answered.hyps(2,3) by (auto simp: wizard_ok_def split: if_splits)
  then obtain info cfg where q: "q = save_request env m info cfg" "config_ok cfg"
    using posted_requests answered.IH by blast
  then have "failed" "db w' = db w"
    using serve_refuses [OF assms(1) _ q(2), of w m env info] body_arrives [OF q(2), of env m info] answered.hyps(4,5) answered.IH
    by auto
  moreover from this step have "accepted s' = accepted s" by (auto simp: answer_def call_failed_def)
  moreover have "wizard_reachable env m s'"
    using wizard_reachable.step [OF _ answered.hyps(6)] answered.IH by simp
  ultimately show ?case using answered.IH by simp
next
  case (lost s w i q e s')
  then have "accepted s' = accepted s" by (auto simp: call_failed_def split: if_splits)
  moreover have "wizard_reachable env m s'"
    using wizard_reachable.step [OF _ lost.hyps(3)] lost.IH by simp
  ultimately show ?case using lost.IH by simp
next
  case (others s w w')
  then show ?case by simp
qed

text \<open>
  C22: Every request that the commissioning wizard can post, whatever the user entered and whatever
  device was scanned, arrives at the backend as valid JSON and is refused by the topology service,
  which writes nothing: a hub is posted with the status commissioned, which is none of the statuses
  of the entity, and a node with an empty or made-up sensor group, which is the key of no group.
\<close>

theorem wizard_requests_refused:
  assumes "wizard_reachable env m s" and "r \<in> set (posted s)"
    and "backend_laws svc F db" and "generated_keys (db w)"
  shows "\<exists>j w'. json_parse (stringify (snd r)) = Some j \<and> serve svc m j w = (True, w') \<and> db w' = db w"
  using posted_requests [OF assms(1)] assms(2) body_arrives serve_refuses [OF assms(3,4)] by metis

text \<open>
  C2: The commissioning wizard in front of the backend never reaches its last step: in no sequence of
  clicks, inputs, settling calls, lost answers and changes to the database by others is a post
  accepted, so the success message is never shown.
\<close>

theorem commissioning_never_completes:
  assumes "backend_laws svc F db" and "commissioning env svc db m s w"
  shows "accepted s = [] \<and> activeStep s < 4"
proof -
  from commissioning_state [OF assms] have "wizard_reachable env m s" and a: "accepted s = []" by auto
  from wizard_reachable_ok [OF this(1)] a show ?thesis by (auto simp: wizard_ok_def)
qed

section \<open>Witnesses\<close>

definition grouped_tables :: tables where
  "grouped_tables = sample_tables \<lparr> sensor_groups := [(hd (sensor_groups sample_tables))
     \<lparr> group_id := Value (js ''3f2a9c1e-0000-4000-8000-00000000000a'') \<rparr>] \<rparr>"

lemma grouped_tables [simp]: "consistent grouped_tables" "generated_keys grouped_tables"
proof -
  have "group_id (hd (sensor_groups grouped_tables)) = Value (js ''3f2a9c1e-0000-4000-8000-00000000000a'')"
    by (simp add: grouped_tables_def)
  then show "generated_keys grouped_tables" by (simp add: grouped_tables_def generated_keys_def)
  show "consistent grouped_tables"
    by (simp add: grouped_tables_def sample_tables_def consistent_def organizations_ok_def users_ok_def sites_ok_def
        sensor_groups_ok_def hubs_ok_def nodes_ok_def keys_ok_def in_enum_def hub_statuses_def node_statuses_def
        organization_schema_def site_schema_def sensor_group_schema_def hub_schema_def node_schema_def)
qed

lemma memory_backend: "backend_laws memory_topology all_fit stored"
  by (simp add: backend_laws_def memory_topology_laws misfits_rejected_def)

theorem wizard_requests_refused_witness:
  "\<exists>r j w'. posted (sample_saving HubMode) = [r] \<and> json_parse (stringify (snd r)) = Some j \<and>
     serve memory_topology HubMode j grouped_tables = (True, w') \<and> stored w' = grouped_tables"
proof -
  obtain r where "posted (sample_saving HubMode) = [r]"
    by (simp add: sample_saving_def at_step_def new_wizard_def saveConfiguration_def start_call_def Let_def)
  then show ?thesis
    using wizard_requests_refused [OF sample_saving [of HubMode], of r memory_topology all_fit stored grouped_tables]
    by (simp add: memory_backend)
qed

lemma page_run:
  "commissioning env svc db m s w \<Longrightarrow> wizard_run env m s es = Some s' \<Longrightarrow> list_all (\<lambda>e. \<exists>u. e = User u) es \<Longrightarrow>
   commissioning env svc db m s' w"
proof (induction es arbitrary: s)
  case (Cons e es)
  then obtain s1 where s1: "wizard_step env m s e = Some s1" "wizard_run env m s1 es = Some s'"
    by (auto simp: bind_eq_Some_conv)
  moreover have "commissioning env svc db m s1 w"
    using Cons.prems by (intro commissioning.page [OF Cons.prems(1) _ s1(1)]) auto
  ultimately show ?case using Cons by simp
qed simp

theorem commissioning_never_completes_witness:
  "\<exists>s. commissioning sample_env memory_topology stored HubMode s grouped_tables \<and> loading s \<and> activeStep s < 4"
proof -
  have "commissioning sample_env memory_topology stored HubMode new_wizard grouped_tables"
    by (rule commissioning.begins) simp
  moreover have "wizard_run sample_env HubMode new_wizard [User (Click Scan)] = Some (scanForDevice sample_env HubMode new_wizard)"
    by (simp add: offered_buttons new_wizard_def)
  ultimately have c: "commissioning sample_env memory_topology stored HubMode (scanForDevice sample_env HubMode new_wizard) grouped_tables"
    by (rule page_run) simp
  moreover have "loading (scanForDevice sample_env HubMode new_wizard)"
    by (simp add: scanForDevice_def sample_env_def start_call_def Let_def)
  ultimately show ?thesis using commissioning_never_completes [OF memory_backend c] by blast
qed

end
