(* ===== verification/TopologyPage.thy ===== *)
theory TopologyPage
  imports WebUI
begin

text \<open>
  \<open>src/apps/web/src/pages/TopologyPage.tsx\<close>: the state of the page, its loaders and handlers with
  the continuations of their calls, what it renders, and the states that clicks, inputs and
  settling calls can reach. The answers of the backend arrive in any order.
\<close>

section \<open>Data\<close>

record page_node =
  pnode_id :: jstring
  pnode_nodeId :: jstring
  pnode_status :: jstring
  pnode_batteryPercent :: "js_number option"
  pnode_lastReading :: "jval option"

record page_hub =
  phub_id :: jstring
  phub_deviceId :: jstring
  phub_status :: jstring
  phub_lastSeen :: "jval option"

record page_group =
  pgroup_id :: jstring
  pgroup_name :: jstring
  pgroup_siteId :: jstring
  pgroup_nodes :: "page_node list option"

record page_site =
  psite_id :: jstring
  psite_name :: jstring
  psite_organizationId :: jstring
  psite_sensorGroups :: "page_group list option"
  psite_hubs :: "page_hub list option"

record page_org =
  porg_id :: jstring
  porg_name :: jstring
  porg_description :: jstring

record form_data =
  form_name :: jstring
  form_description :: jstring

datatype dialog_type = OrgDialog | SiteDialog | SensorGroupDialog

text \<open>
  The calls the page awaits. A creation keeps the organization or site of the render it was
  started from: what it loads afterwards is theirs.
\<close>

datatype page_call =
    GetOrganizations
  | GetSites jstring
  | GetSensorGroups jstring
  | CreateOrganization form_data
  | CreateSite form_data jstring
  | CreateSensorGroup form_data jstring

datatype page_outcome =
    Failed js_error
  | Organizations "page_org list"
  | Sites "page_site list"
  | SensorGroups "page_group list"
  | Created

fun call_url :: "web_env \<Rightarrow> page_call \<Rightarrow> jstring" where
  "call_url env GetOrganizations = apiUrl env @ js ''/api/topology/organizations''"
| "call_url env (GetSites orgId) = apiUrl env @ js ''/api/topology/organizations/'' @ orgId @ js ''/sites''"
| "call_url env (GetSensorGroups siteId) = apiUrl env @ js ''/api/topology/sites/'' @ siteId @ js ''/sensor-groups''"
| "call_url env (CreateOrganization fd) = apiUrl env @ js ''/api/topology/organizations''"
| "call_url env (CreateSite fd orgId) = apiUrl env @ js ''/api/topology/sites''"
| "call_url env (CreateSensorGroup fd siteId) = apiUrl env @ js ''/api/topology/sensor-groups''"

definition form_members :: "form_data \<Rightarrow> (string \<times> jval option) list" where
  "form_members fd = [(''name'', Some (JStr (form_name fd))), (''description'', Some (JStr (form_description fd)))]"

fun call_body :: "page_call \<Rightarrow> jval option" where
  "call_body (CreateOrganization fd) = Some (object_literal (form_members fd))"
| "call_body (CreateSite fd orgId) =
     Some (object_literal (form_members fd @ [(''organizationId'', Some (JStr orgId))]))"
| "call_body (CreateSensorGroup fd siteId) =
     Some (object_literal (form_members fd @ [(''siteId'', Some (JStr siteId))]))"
| "call_body c = None"

record topology_page =
  organizations :: "page_org list"
  selectedOrg :: "page_org option"
  sites :: "page_site list"
  selectedSite :: "page_site option"
  sensorGroups :: "page_group list"
  openDialog :: bool
  dialogType :: dialog_type
  formData :: form_data
  in_flight :: "page_call list"

definition empty_form :: form_data where
  "empty_form = \<lparr> form_name = [], form_description = [] \<rparr>"

section \<open>Loaders and handlers\<close>

definition start_page_call :: "page_call \<Rightarrow> topology_page \<Rightarrow> topology_page" where
  "start_page_call c s = s \<lparr> in_flight := in_flight s @ [c] \<rparr>"

definition loadOrganizations :: "topology_page \<Rightarrow> topology_page" where
  "loadOrganizations s = start_page_call GetOrganizations s"

definition loadSites :: "jstring \<Rightarrow> topology_page \<Rightarrow> topology_page" where
  "loadSites orgId s = start_page_call (GetSites orgId) s"

definition loadSensorGroups :: "jstring \<Rightarrow> topology_page \<Rightarrow> topology_page" where
  "loadSensorGroups siteId s = start_page_call (GetSensorGroups siteId) s"

text \<open>The first render, after whose effect the organizations are being loaded.\<close>

definition new_page :: topology_page where
  "new_page = loadOrganizations \<lparr> organizations = [], selectedOrg = None, sites = [], selectedSite = None,
     sensorGroups = [], openDialog = False, dialogType = OrgDialog, formData = empty_form, in_flight = [] \<rparr>"

definition handleOrgSelect :: "page_org \<Rightarrow> topology_page \<Rightarrow> topology_page" where
  "handleOrgSelect org s = loadSites (porg_id org) (s \<lparr> selectedOrg := Some org, selectedSite := None \<rparr>)"

definition handleSiteSelect :: "page_site \<Rightarrow> topology_page \<Rightarrow> topology_page" where
  "handleSiteSelect site s = loadSensorGroups (psite_id site) (s \<lparr> selectedSite := Some site \<rparr>)"

definition handleOpenDialog :: "dialog_type \<Rightarrow> topology_page \<Rightarrow> topology_page" where
  "handleOpenDialog ty s = s \<lparr> dialogType := ty, formData := empty_form, openDialog := True \<rparr>"

definition handleCloseDialog :: "topology_page \<Rightarrow> topology_page" where
  "handleCloseDialog s = s \<lparr> openDialog := False \<rparr>"

text \<open>Without the organization or site to create in, the dialog is closed and nothing is posted.\<close>

definition handleCreate :: "topology_page \<Rightarrow> topology_page" where
  "handleCreate s =
     (if dialogType s = OrgDialog then start_page_call (CreateOrganization (formData s)) s
      else case (dialogType s, selectedOrg s, selectedSite s) of
        (SiteDialog, Some org, _) \<Rightarrow> start_page_call (CreateSite (formData s) (porg_id org)) s
      | (SensorGroupDialog, _, Some site) \<Rightarrow> start_page_call (CreateSensorGroup (formData s) (psite_id site)) s
      | _ \<Rightarrow> handleCloseDialog s)"

text \<open>What follows the answers; a failure is only logged.\<close>

fun page_resume :: "page_call \<Rightarrow> page_outcome \<Rightarrow> topology_page \<Rightarrow> topology_page option" where
  "page_resume c (Failed e) s = Some s"
| "page_resume GetOrganizations (Organizations d) s = Some (s \<lparr> organizations := d \<rparr>)"
| "page_resume (GetSites orgId) (Sites d) s = Some (s \<lparr> sites := d \<rparr>)"
| "page_resume (GetSensorGroups siteId) (SensorGroups d) s = Some (s \<lparr> sensorGroups := d \<rparr>)"
| "page_resume (CreateOrganization fd) Created s = Some (handleCloseDialog (loadOrganizations s))"
| "page_resume (CreateSite fd orgId) Created s = Some (handleCloseDialog (loadSites orgId s))"
| "page_resume (CreateSensorGroup fd siteId) Created s = Some (handleCloseDialog (loadSensorGroups siteId s))"
| "page_resume c r s = None"

section \<open>What the page shows\<close>

datatype page_button =
    AddOrg | AddSite | AddSensorGroup | PickOrg page_org | PickSite page_site | EditSensorGroup
  | Cancel | Create

datatype page_field = NameField | DescriptionField

type_synonym page_ui = "(page_button, page_field) ui"

text \<open>\<open>list?.length || 0\<close>\<close>

definition length_or_0 :: "'a list option \<Rightarrow> nat" where
  "length_or_0 xs = (case xs of None \<Rightarrow> 0 | Some ys \<Rightarrow> length ys)"

definition count_text :: "nat \<Rightarrow> jstring" where
  "count_text n = to_string 10 n"

definition organizations_card :: "topology_page \<Rightarrow> page_ui" where
  "organizations_card s = Box [
     Txt (js ''Organizations''), Button AddOrg False [Icon ''Add'' []],
     Box (map (\<lambda>org. Item (PickOrg org) (map_option porg_id (selectedOrg s) = Some (porg_id org))
       [Txt (porg_name org), Txt (porg_description org)]) (organizations s))]"

definition sites_card :: "topology_page \<Rightarrow> page_ui" where
  "sites_card s = Box [
     Txt (js ''Sites''), Button AddSite (selectedOrg s = None) [Icon ''Add'' []],
     (if selectedOrg s \<noteq> None
      then Box (map (\<lambda>site. Item (PickSite site) (map_option psite_id (selectedSite s) = Some (psite_id site))
        [Txt (psite_name site),
         Txt (count_text (length_or_0 (psite_sensorGroups site)) @ js '' sensor groups, '' @
              count_text (length_or_0 (psite_hubs site)) @ js '' hubs'')]) (sites s))
      else Txt (js ''Select an organization''))]"

definition sensor_groups_card :: "topology_page \<Rightarrow> page_ui" where
  "sensor_groups_card s = Box [
     Txt (js ''Sensor Groups''), Button AddSensorGroup (selectedSite s = None) [Icon ''Add'' []],
     (if selectedSite s \<noteq> None
      then Box (map (\<lambda>g. Box [Txt (pgroup_name g), Txt (count_text (length_or_0 (pgroup_nodes g)) @ js '' nodes''),
        Button EditSensorGroup False [Icon ''Edit'' []]]) (sensorGroups s))
      else Txt (js ''Select a site''))]"

definition total_nodes :: "topology_page \<Rightarrow> nat" where
  "total_nodes s = fold (\<lambda>m sum. sum + length_or_0 (pgroup_nodes m)) (sensorGroups s) 0"

definition site_summary :: "topology_page \<Rightarrow> page_ui" where
  "site_summary s = (case selectedSite s of
     None \<Rightarrow> Box []
   | Some site \<Rightarrow> Box [
       Icon ''Sensors'' ''primary'', Txt (js ''Nodes at this Site''),
       Txt (js ''Total nodes across all sensor groups: '' @ count_text (total_nodes s)),
       Icon ''Router'' ''primary'', Txt (js ''Hubs at this Site''),
       Txt (js ''Total hubs: '' @ count_text (length_or_0 (psite_hubs site)))])"

definition create_dialog :: "topology_page \<Rightarrow> page_ui" where
  "create_dialog s = Box [
     Txt (js ''Create New '' @ js (case dialogType s of OrgDialog \<Rightarrow> ''Organization'' | SiteDialog \<Rightarrow> ''Site''
       | SensorGroupDialog \<Rightarrow> ''Sensor Group'')),
     TextField NameField (js ''Name'') (form_name (formData s)),
     TextField DescriptionField (js ''Description'') (form_description (formData s)),
     Button Cancel False [Txt (js ''Cancel'')],
     Button Create False [Txt (js ''Create'')]]"

text \<open>An open dialog is modal: nothing behind it can be reached.\<close>

definition TopologyPage_body :: "topology_page \<Rightarrow> page_ui" where
  "TopologyPage_body s = Box [
     Txt (js ''Topology Management''),
     Txt (js ''Manage your organization structure: Organizations '' @ arrow @ js '' Sites '' @ arrow @
          js '' Sensor Groups '' @ arrow @ js '' Nodes''),
     organizations_card s, sites_card s, sensor_groups_card s, site_summary s]"

definition TopologyPage :: "topology_page \<Rightarrow> page_ui" where
  "TopologyPage s = (if openDialog s then create_dialog s else TopologyPage_body s)"

section \<open>Events\<close>

fun page_press :: "page_button \<Rightarrow> topology_page \<Rightarrow> topology_page" where
  "page_press AddOrg s = handleOpenDialog OrgDialog s"
| "page_press AddSite s = handleOpenDialog SiteDialog s"
| "page_press AddSensorGroup s = handleOpenDialog SensorGroupDialog s"
| "page_press (PickOrg org) s = handleOrgSelect org s"
| "page_press (PickSite site) s = handleSiteSelect site s"
| "page_press EditSensorGroup s = s"
| "page_press Cancel s = handleCloseDialog s"
| "page_press Create s = handleCreate s"

definition set_form :: "page_field \<Rightarrow> jstring \<Rightarrow> form_data \<Rightarrow> form_data" where
  "set_form f v fd = (case f of NameField \<Rightarrow> fd \<lparr> form_name := v \<rparr> | DescriptionField \<Rightarrow> fd \<lparr> form_description := v \<rparr>)"

fun page_user :: "(page_button, page_field) user_event \<Rightarrow> topology_page \<Rightarrow> topology_page" where
  "page_user (Click b) s = page_press b s"
| "page_user (Type f v) s = s \<lparr> formData := set_form f v (formData s) \<rparr>"
| "page_user (Choose f v) s = s"

datatype page_event = User "(page_button, page_field) user_event" | Settle nat page_outcome

fun page_step :: "topology_page \<Rightarrow> page_event \<Rightarrow> topology_page option" where
  "page_step s (User e) = (if offers (TopologyPage s) e then Some (page_user e s) else None)"
| "page_step s (Settle i r) =
     (if i < length (in_flight s)
      then page_resume (in_flight s ! i) r (s \<lparr> in_flight := settled i (in_flight s) \<rparr>) else None)"

fun page_run :: "topology_page \<Rightarrow> page_event list \<Rightarrow> topology_page option" where
  "page_run s [] = Some s"
| "page_run s (e # es) = Option.bind (page_step s e) (\<lambda>s'. page_run s' es)"

inductive page_reachable :: "topology_page \<Rightarrow> bool" where
  start: "page_reachable new_page"
| step: "page_reachable s \<Longrightarrow> page_step s e = Some s' \<Longrightarrow> page_reachable s'"

lemmas page_handlers =
  start_page_call_def loadOrganizations_def loadSites_def loadSensorGroups_def handleOrgSelect_def
  handleSiteSelect_def handleOpenDialog_def handleCloseDialog_def

lemma offered_page_buttons:
  "offers (TopologyPage s) (Click b) \<longleftrightarrow>
     (if openDialog s then b = Cancel \<or> b = Create
      else case b of
        AddOrg \<Rightarrow> True
      | AddSite \<Rightarrow> selectedOrg s \<noteq> None
      | AddSensorGroup \<Rightarrow> selectedSite s \<noteq> None
      | PickOrg org \<Rightarrow> org \<in> set (organizations s)
      | PickSite site \<Rightarrow> selectedOrg s \<noteq> None \<and> site \<in> set (sites s)
      | EditSensorGroup \<Rightarrow> selectedSite s \<noteq> None \<and> sensorGroups s \<noteq> []
      | _ \<Rightarrow> False)"
  by (cases b) (auto simp: TopologyPage_def TopologyPage_body_def create_dialog_def organizations_card_def sites_card_def
      sensor_groups_card_def site_summary_def ex_in_conv split: option.splits)

lemma reachable_run:
  "page_run s es = Some s' \<Longrightarrow> page_reachable s \<Longrightarrow> page_reachable s'"
  by (induction es arbitrary: s) (auto simp: bind_eq_Some_conv intro: page_reachable.step)

section \<open>The dialog\<close>

definition page_ok :: "topology_page \<Rightarrow> bool" where
  "page_ok s \<longleftrightarrow>
     (selectedSite s \<noteq> None \<longrightarrow> selectedOrg s \<noteq> None) \<and>
     (openDialog s \<longrightarrow> (dialogType s = SiteDialog \<longrightarrow> selectedOrg s \<noteq> None) \<and>
        (dialogType s = SensorGroupDialog \<longrightarrow> selectedSite s \<noteq> None))"

lemma press_ok: "page_ok s \<Longrightarrow> offers (TopologyPage s) (Click b) \<Longrightarrow> page_ok (page_press b s)"
  by (cases b) (auto simp: offered_page_buttons page_ok_def page_handlers handleCreate_def split: if_splits dialog_type.splits option.splits)

lemma resume_ok: "page_ok s \<Longrightarrow> page_resume c r s = Some s' \<Longrightarrow> page_ok s'"
  by (cases c; cases r) (auto simp: page_ok_def page_handlers)

lemma page_reachable_ok: "page_reachable s \<Longrightarrow> page_ok s"
proof (induction rule: page_reachable.induct)
  case start
  show ?case by (simp add: page_ok_def new_page_def page_handlers)
next
  case (step s e s')
  show ?case
  proof (cases e)
    case (User u)
    with step press_ok show ?thesis by (cases u) (auto simp: page_ok_def split: if_splits)
  next
    case (Settle i r)
    have "page_ok (s \<lparr> in_flight := cs \<rparr>)" for cs using step.IH by (simp add: page_ok_def)
    with Settle step.hyps show ?thesis by (auto split: if_splits intro: resume_ok)
  qed
qed

text \<open>
  In every reachable state of the topology page a site is selected only under a selected
  organization, and while the dialog is open its Create button always posts exactly one request: the
  entered name and description, with the identifier of the selected organization for a site and of the
  selected site for a sensor group; the branch that closes the dialog without posting is never taken.
\<close>

theorem create_posts_once:
  assumes "page_reachable s" and "openDialog s"
  shows "(selectedSite s \<noteq> None \<longrightarrow> selectedOrg s \<noteq> None) \<and>
    (\<exists>c. page_step s (User (Click Create)) = Some (s \<lparr> in_flight := in_flight s @ [c] \<rparr>) \<and>
      (case dialogType s of
         OrgDialog \<Rightarrow> c = CreateOrganization (formData s)
       | SiteDialog \<Rightarrow> \<exists>org. selectedOrg s = Some org \<and> c = CreateSite (formData s) (porg_id org)
       | SensorGroupDialog \<Rightarrow> \<exists>site. selectedSite s = Some site \<and> c = CreateSensorGroup (formData s) (psite_id site)) \<and>
      call_body c \<noteq> None)"
  using page_reachable_ok [OF assms(1)] assms(2)
  by (cases "dialogType s") (auto simp: page_ok_def offered_page_buttons handleCreate_def start_page_call_def)

theorem create_posts_once_witness:
  "\<exists>c. page_step (page_press AddOrg new_page) (User (Click Create)) =
       Some ((page_press AddOrg new_page) \<lparr> in_flight := [GetOrganizations, c] \<rparr>) \<and> call_body c \<noteq> None"
proof -
  have "page_reachable (page_press AddOrg new_page)"
    by (rule page_reachable.step [OF page_reachable.start, of "User (Click AddOrg)"])
      (simp add: offered_page_buttons new_page_def page_handlers)
  from create_posts_once [OF this] show ?thesis by (auto simp: page_handlers new_page_def)
qed

end
