(* ===== verification/TopologyLoads.thy ===== *)
theory TopologyLoads
  imports TopologyPage
begin

text \<open>
  What the lists of the topology page show: with a backend that answers every request in the order
  they were made, the lists of the selected organization and site; and what happens when answers
  overtake each other, fail, or come after the user has gone on.
\<close>

section \<open>A loader: the last request counts\<close>

text \<open>
  \<open>ids cs\<close> are the keys that the calls in flight ask for. The shown list is that of the selected
  key, unless the last of the requests in flight asks for it.
\<close>

definition keys_asked :: "('c \<Rightarrow> 'k option) \<Rightarrow> 'c list \<Rightarrow> 'k list" where
  "keys_asked f cs = List.map_filter f cs"

definition up_to_date :: "('c \<Rightarrow> 'k option) \<Rightarrow> ('k \<Rightarrow> 'v) \<Rightarrow> 'c list \<Rightarrow> 'v \<Rightarrow> 'k \<Rightarrow> bool" where
  "up_to_date f answer cs shown key \<longleftrightarrow>
     (if keys_asked f cs = [] then shown = answer key else last (keys_asked f cs) = key)"

lemma asked_simps [simp]:
  "keys_asked f [] = []"
  "keys_asked f (c # cs) = (case f c of None \<Rightarrow> keys_asked f cs | Some i \<Rightarrow> i # keys_asked f cs)"
  "keys_asked f (cs @ cs') = keys_asked f cs @ keys_asked f cs'"
  by (simp_all add: keys_asked_def List.map_filter_simps map_filter_def split: option.split)

lemma ask_last: "f c = Some key \<Longrightarrow> up_to_date f answer (cs @ [c]) shown key"
  by (simp add: up_to_date_def)

lemma ask_other: "f c = None \<Longrightarrow> up_to_date f answer (cs @ [c]) shown key = up_to_date f answer cs shown key"
  by (simp add: up_to_date_def)

lemma answer_first:
  "f c = Some i \<Longrightarrow> up_to_date f answer (c # cs) shown key \<Longrightarrow> up_to_date f answer cs (answer i) key"
  by (auto simp: up_to_date_def split: if_splits)

lemma answer_other: "f c = None \<Longrightarrow> up_to_date f answer (c # cs) shown key = up_to_date f answer cs shown key"
  by (simp add: up_to_date_def)

section \<open>Browsing\<close>

record page_backend =
  organizations_answer :: "page_org list"
  sites_answer :: "jstring \<Rightarrow> page_site list"
  groups_answer :: "jstring \<Rightarrow> page_group list"

fun page_answer :: "page_backend \<Rightarrow> page_call \<Rightarrow> page_outcome" where
  "page_answer B GetOrganizations = Organizations (organizations_answer B)"
| "page_answer B (GetSites i) = Sites (sites_answer B i)"
| "page_answer B (GetSensorGroups i) = SensorGroups (groups_answer B i)"
| "page_answer B c = Created"

fun org_asked :: "page_call \<Rightarrow> unit option" where
  "org_asked GetOrganizations = Some ()"
| "org_asked c = None"

fun sites_asked :: "page_call \<Rightarrow> jstring option" where
  "sites_asked (GetSites i) = Some i"
| "sites_asked c = None"

fun groups_asked :: "page_call \<Rightarrow> jstring option" where
  "groups_asked (GetSensorGroups i) = Some i"
| "groups_asked c = None"

text \<open>Runs in which nothing is created and the backend answers in order.\<close>

inductive browse :: "page_backend \<Rightarrow> topology_page \<Rightarrow> bool" for B :: page_backend where
  start: "browse B new_page"
| acts: "browse B s \<Longrightarrow> e \<noteq> Click Create \<Longrightarrow> page_step s (User e) = Some s' \<Longrightarrow> browse B s'"
| answered: "browse B s \<Longrightarrow> in_flight s = c # cs \<Longrightarrow> page_step s (Settle 0 (page_answer B c)) = Some s' \<Longrightarrow> browse B s'"

definition loaded :: "page_backend \<Rightarrow> topology_page \<Rightarrow> bool" where
  "loaded B s \<longleftrightarrow>
     up_to_date org_asked (\<lambda>_. organizations_answer B) (in_flight s) (organizations s) () \<and>
     (\<forall>org. selectedOrg s = Some org \<longrightarrow>
        up_to_date sites_asked (sites_answer B) (in_flight s) (sites s) (porg_id org)) \<and>
     (\<forall>site. selectedSite s = Some site \<longrightarrow>
        up_to_date groups_asked (groups_answer B) (in_flight s) (sensorGroups s) (psite_id site)) \<and>
     (\<forall>c\<in>set (in_flight s). call_body c = None)"

lemma press_loaded:
  assumes "loaded B s" and "b \<noteq> Create"
  shows "loaded B (page_press b s)"
  using assms by (cases b) (auto simp: loaded_def page_handlers ask_last ask_other)

lemma answer_loaded:
  assumes "loaded B s" and "in_flight s = c # cs" and "page_resume c (page_answer B c) (s \<lparr> in_flight := cs \<rparr>) = Some s'"
  shows "loaded B s'"
proof -
  show ?thesis
  proof (cases c)
    case GetOrganizations
    with assms show ?thesis
      by (auto simp: loaded_def answer_other) (simp add: up_to_date_def)
  next
    case (GetSites i)
    with assms show ?thesis
      by (auto simp: loaded_def answer_other ) (erule answer_first [of sites_asked "GetSites i" i, OF sites_asked.simps(1)])
  next
    case (GetSensorGroups i)
    with assms show ?thesis
      by (auto simp: loaded_def answer_other ) (erule answer_first [of groups_asked "GetSensorGroups i" i, OF groups_asked.simps(1)])
  qed (use assms in \<open>auto simp: loaded_def\<close>)
qed

lemma browse_loaded: "browse B s \<Longrightarrow> loaded B s"
proof (induction rule: browse.induct)
  case start
  show ?case by (simp add: loaded_def new_page_def page_handlers up_to_date_def)
next
  case (acts s e s')
  show ?case
  proof (cases e)
    case (Click b)
    with acts press_loaded show ?thesis by (auto split: if_splits)
  next
    case (Type f v)
    with acts show ?thesis by (auto simp: loaded_def split: if_splits)
  next
    case (Choose f v)
    with acts show ?thesis by (auto split: if_splits)
  qed
next
  case (answered s c cs s')
  then have "page_resume c (page_answer B c) (s \<lparr> in_flight := cs \<rparr>) = Some s'" by simp
  with answered answer_loaded show ?case by blast
qed

lemma browse_reachable: "browse B s \<Longrightarrow> page_reachable s"
  by (induction rule: browse.induct) (auto intro: page_reachable.intros simp del: page_step.simps)

text \<open>
  As long as nothing is created and the backend answers the requests in the order they were made,
  the page shows, once all answers are in, the organizations, the sites of the selected
  organization and the sensor groups of the selected site as the backend gives them, however the
  user clicked through the lists while they were loading.
\<close>

theorem browsing_shows_selection:
  assumes "browse B s" and "in_flight s = []"
  shows "organizations s = organizations_answer B \<and>
    (\<forall>org. selectedOrg s = Some org \<longrightarrow> sites s = sites_answer B (porg_id org)) \<and>
    (\<forall>site. selectedSite s = Some site \<longrightarrow> sensorGroups s = groups_answer B (psite_id site))"
  using browse_loaded [OF assms(1)] assms(2) by (simp add: loaded_def up_to_date_def)

section \<open>Late, failed and overtaken answers\<close>

text \<open>
  C18: What the page shows is not tied to what is selected. From any state of the page with the
  dialog closed and nothing in flight, for two listed organizations: if the answer for the second
  selection overtakes the one for the first, or if loading the second one's sites fails, the page
  shows the sites of the first under the second, and stays so; a site of the first can be selected
  under the second while its sites are loading; and a creation that ends after the user has moved on
  brings back the sites of the organization it was made in.
\<close>

theorem stale_lists:
  assumes "in_flight s = []" and "\<not> openDialog s" and "o1 \<in> set (organizations s)" and "o2 \<in> set (organizations s)"
    and "t \<in> set ss1"
  shows "(\<exists>s'. page_run s [User (Click (PickOrg o1)), User (Click (PickOrg o2)), Settle 1 (Sites ss2), Settle 0 (Sites ss1)] = Some s'
      \<and> in_flight s' = [] \<and> selectedOrg s' = Some o2 \<and> sites s' = ss1)
    \<and> (\<exists>s'. page_run s [User (Click (PickOrg o1)), Settle 0 (Sites ss1), User (Click (PickOrg o2)), Settle 0 (Failed e)] = Some s'
      \<and> in_flight s' = [] \<and> selectedOrg s' = Some o2 \<and> sites s' = ss1)
    \<and> (\<exists>s'. page_run s [User (Click (PickOrg o1)), Settle 0 (Sites ss1), User (Click (PickOrg o2)), User (Click (PickSite t)),
        Settle 0 (Sites ss2), Settle 0 (SensorGroups gs)] = Some s'
      \<and> in_flight s' = [] \<and> selectedOrg s' = Some o2 \<and> sites s' = ss2 \<and> selectedSite s' = Some t)
    \<and> (\<exists>s'. page_run s [User (Click (PickOrg o1)), Settle 0 (Sites ss1), User (Click AddSite), User (Click Create),
        User (Click Cancel), User (Click (PickOrg o2)), Settle 0 Created, Settle 0 (Sites ss2), Settle 0 (Sites ss1)] = Some s'
      \<and> in_flight s' = [] \<and> selectedOrg s' = Some o2 \<and> sites s' = ss1)"
  using assms by (simp add: offered_page_buttons page_handlers handleCreate_def)

definition two_orgs :: page_backend where
  "two_orgs = \<lparr>
     organizations_answer = [\<lparr> porg_id = js ''a'', porg_name = js ''A'', porg_description = [] \<rparr>,
       \<lparr> porg_id = js ''b'', porg_name = js ''B'', porg_description = [] \<rparr>],
     sites_answer = (\<lambda>i. [\<lparr> psite_id = i @ js ''-1'', psite_name = js ''Hall'', psite_organizationId = i,
       psite_sensorGroups = None, psite_hubs = None \<rparr>]),
     groups_answer = (\<lambda>i. []) \<rparr>"

definition loaded_page :: topology_page where
  "loaded_page = new_page \<lparr> organizations := organizations_answer two_orgs, in_flight := [] \<rparr>"

lemma loaded_page_simps [simp]:
  "in_flight loaded_page = []" "\<not> openDialog loaded_page" "organizations loaded_page = organizations_answer two_orgs"
  by (simp_all add: loaded_page_def new_page_def page_handlers)

lemma browse_loaded_page: "browse two_orgs loaded_page"
  by (rule browse.answered [OF browse.start, of GetOrganizations "[]"]) (simp_all add: loaded_page_def new_page_def page_handlers)

definition org_b :: page_org where
  "org_b = \<lparr> porg_id = js ''b'', porg_name = js ''B'', porg_description = [] \<rparr>"

lemma org_b_listed: "org_b \<in> set (organizations_answer two_orgs)"
  by (simp add: org_b_def two_orgs_def)

theorem browsing_shows_selection_witness:
  "\<exists>s. browse two_orgs s \<and> selectedOrg s = Some org_b \<and> sites s = sites_answer two_orgs (js ''b'')"
proof -
  let ?s1 = "page_press (PickOrg org_b) loaded_page"
  let ?s = "?s1 \<lparr> in_flight := [], sites := sites_answer two_orgs (js ''b'') \<rparr>"
  have b1: "browse two_orgs ?s1"
    by (rule browse.acts [OF browse_loaded_page, of "Click (PickOrg org_b)"]) (simp_all add: offered_page_buttons org_b_listed)
  have b2: "browse two_orgs ?s"
    by (rule browse.answered [OF b1, of "GetSites (js ''b'')" "[]"]) (simp_all add: page_handlers org_b_def)
  moreover have "selectedOrg ?s = Some org_b" by (simp add: page_handlers)
  ultimately show ?thesis
    using browsing_shows_selection [OF b2] by (intro exI [of _ ?s]) (auto simp: org_b_def)
qed

theorem stale_lists_witness:
  "\<exists>s'. page_run loaded_page [User (Click (PickOrg (hd (organizations_answer two_orgs)))), User (Click (PickOrg org_b)),
      Settle 1 (Sites []), Settle 0 (Sites (sites_answer two_orgs (js ''a'')))] = Some s' \<and>
    selectedOrg s' = Some org_b \<and> sites s' = sites_answer two_orgs (js ''a'')"
proof -
  have h: "hd (organizations_answer two_orgs) \<in> set (organizations loaded_page)" "org_b \<in> set (organizations loaded_page)"
    and t: "hd (sites_answer two_orgs (js ''a'')) \<in> set (sites_answer two_orgs (js ''a''))"
    using org_b_listed by (simp_all add: two_orgs_def)
  show ?thesis
    using conjunct1 [OF stale_lists [OF loaded_page_simps(1,2) h t]] by blast
qed

end
