(* ===== verification/FleetDashboard.thy ===== *)
theory FleetDashboard
  imports WebUI Topology
begin

text \<open>
  \<open>src/apps/web/src/pages/FleetDashboard.tsx\<close>: the state of the dashboard, the loader with its
  simulated data, the colours of status and battery, and the tables it renders.
\<close>

section \<open>Comparison of a number with an integer\<close>

fun greater_than :: "js_number \<Rightarrow> int \<Rightarrow> bool" where
  "greater_than NaN n = False"
| "greater_than (Infinity s) n = (\<not> s)"
| "greater_than (Finite s m e) n =
     (let k = (if s then - int m else int m) in
      if 0 \<le> e then n < k * 2 ^ nat e else n * 2 ^ nat (- e) < k)"

lemma greater_than_int [simp]: "greater_than (num_of_int k) n \<longleftrightarrow> n < k"
proof (cases "k = 0")
  case True
  then show ?thesis by (simp add: num_of_int_def)
next
  case False
  obtain m e where me: "odd_form (nat \<bar>k\<bar>) 0 = (m, e)" by fastforce
  then obtain j where "nat \<bar>k\<bar> = m * 2 ^ j" "e = int j"
    using odd_form_spec [of "nat \<bar>k\<bar>" 0 m e] False by auto
  then have "\<bar>k\<bar> = int m * 2 ^ j" by (metis abs_ge_zero int_nat_eq of_nat_mult of_nat_numeral of_nat_power)
  with me \<open>e = int j\<close> show ?thesis by (cases "k < 0") (auto simp: num_of_int_def Let_def)
qed

section \<open>State\<close>

record dashboard_stats =
  totalNodes :: js_number
  activeNodes :: js_number
  faultNodes :: js_number
  totalHubs :: js_number
  connectedHubs :: js_number

record reading =
  reading_value :: js_number
  reading_unit :: jstring

record node_status =
  ns_id :: jstring
  ns_nodeId :: jstring
  ns_status :: jstring
  ns_batteryPercent :: js_number
  ns_lastReading :: "reading option"
  ns_sensorGroupId :: jstring
  ns_sensorGroupName :: "jstring option"
  ns_lastSeen :: date
  ns_faults :: "jstring list"

record hub_status_row =
  hs_id :: jstring
  hs_deviceId :: jstring
  hs_status :: jstring
  hs_lastSeen :: date
  hs_siteName :: "jstring option"
  hs_nodeCount :: js_number

record dashboard =
  stats :: dashboard_stats
  dash_nodes :: "node_status list"
  dash_hubs :: "hub_status_row list"
  dash_loading :: bool

definition new_dashboard :: dashboard where
  "new_dashboard = \<lparr>
     stats = \<lparr> totalNodes = num_of_int 0, activeNodes = num_of_int 0, faultNodes = num_of_int 0,
       totalHubs = num_of_int 0, connectedHubs = num_of_int 0 \<rparr>,
     dash_nodes = [], dash_hubs = [], dash_loading = False \<rparr>"

text \<open>\<open>now\<close> is the time at which the loader runs; it awaits nothing.\<close>

definition simulated_nodes :: "date \<Rightarrow> node_status list" where
  "simulated_nodes now = [
     \<lparr> ns_id = js ''1'', ns_nodeId = js ''AA:BB:CC:DD:EE:01'', ns_status = js ''operational'',
       ns_batteryPercent = num_of_int 85,
       ns_lastReading = Some \<lparr> reading_value = round_dec False 452 (- 1), reading_unit = js ''PSI'' \<rparr>,
       ns_sensorGroupId = js ''sensorGroup-1'', ns_sensorGroupName = Some (js ''Compressor A''),
       ns_lastSeen = now, ns_faults = [] \<rparr>,
     \<lparr> ns_id = js ''2'', ns_nodeId = js ''AA:BB:CC:DD:EE:02'', ns_status = js ''fault'',
       ns_batteryPercent = num_of_int 42,
       ns_lastReading = Some \<lparr> reading_value = round_dec False 1205 (- 1), reading_unit = js ''PSI'' \<rparr>,
       ns_sensorGroupId = js ''sensorGroup-2'', ns_sensorGroupName = Some (js ''Pump B''),
       ns_lastSeen = now - 3600000, ns_faults = [js ''sensor_high'', js ''low_battery''] \<rparr>]"

definition simulated_hubs :: "date \<Rightarrow> hub_status_row list" where
  "simulated_hubs now = [
     \<lparr> hs_id = js ''1'', hs_deviceId = js ''hub-001'', hs_status = js ''connected'', hs_lastSeen = now,
       hs_siteName = Some (js ''Factory Floor 1''), hs_nodeCount = num_of_int 12 \<rparr>,
     \<lparr> hs_id = js ''2'', hs_deviceId = js ''hub-002'', hs_status = js ''connected'', hs_lastSeen = now,
       hs_siteName = Some (js ''Warehouse A''), hs_nodeCount = num_of_int 12 \<rparr>]"

definition loadDashboardData :: "date \<Rightarrow> dashboard \<Rightarrow> dashboard" where
  "loadDashboardData now s =
     (let s = s \<lparr> dash_loading := True \<rparr>;
          s = s \<lparr> stats := \<lparr> totalNodes = num_of_int 24, activeNodes = num_of_int 22, faultNodes = num_of_int 2,
                totalHubs = num_of_int 5, connectedHubs = num_of_int 5 \<rparr> \<rparr>;
          s = s \<lparr> dash_nodes := simulated_nodes now \<rparr>;
          s = s \<lparr> dash_hubs := simulated_hubs now \<rparr>
      in s \<lparr> dash_loading := False \<rparr>)"

section \<open>Colours\<close>

definition getStatusColor :: "jstring \<Rightarrow> string" where
  "getStatusColor status =
     (if status = js ''operational'' \<or> status = js ''connected'' then ''success''
      else if status = js ''fault'' \<or> status = js ''disconnected'' then ''error''
      else if status = js ''maintenance'' then ''warning''
      else ''default'')"

definition getBatteryIcon :: "js_number \<Rightarrow> ('b, 'f) ui" where
  "getBatteryIcon percent =
     (if greater_than percent 60 then Icon ''Battery'' ''success''
      else if greater_than percent 30 then Icon ''Battery'' ''warning''
      else Icon ''Battery'' ''error'')"

section \<open>What the dashboard shows\<close>

datatype dashboard_button = Refresh

type_synonym dashboard_ui = "(dashboard_button, unit) ui"

definition stat_card :: "string \<Rightarrow> js_number \<Rightarrow> dashboard_ui" where
  "stat_card label x = Box [Txt (js label), Txt (number_to_string x)]"

text \<open>\<open>fmt\<close> is the browser's \<open>toLocaleString\<close>. A truthy reading is any object.\<close>

definition node_table_row :: "(date \<Rightarrow> jstring) \<Rightarrow> node_status \<Rightarrow> dashboard_ui" where
  "node_table_row fmt n = Box [
     Txt (ns_nodeId n),
     Txt (if truthy_text (ns_sensorGroupName n) then the (ns_sensorGroupName n) else ns_sensorGroupId n),
     Chip (ns_status n) (getStatusColor (ns_status n)),
     Box [getBatteryIcon (ns_batteryPercent n), Txt (number_to_string (ns_batteryPercent n) @ js ''%'')],
     (case ns_lastReading n of
        None \<Rightarrow> Txt (js ''-'')
      | Some r \<Rightarrow> Txt (number_to_string (reading_value r) @ js '' '' @ reading_unit r)),
     (if ns_faults n \<noteq> [] then Box (map (\<lambda>fault. Chip fault ''error'') (ns_faults n))
      else Icon ''Check'' ''success''),
     Txt (fmt (ns_lastSeen n))]"

definition hub_table_row :: "(date \<Rightarrow> jstring) \<Rightarrow> hub_status_row \<Rightarrow> dashboard_ui" where
  "hub_table_row fmt h = Box [
     Txt (hs_deviceId h),
     Txt (text_or (hs_siteName h) ''-''),
     Chip (hs_status h) (getStatusColor (hs_status h)),
     Txt (number_to_string (hs_nodeCount h)),
     Txt (fmt (hs_lastSeen h))]"

definition table_head :: "string list \<Rightarrow> dashboard_ui" where
  "table_head cells = Box (map (\<lambda>c. Txt (js c)) cells)"

definition stat_cards :: "dashboard_stats \<Rightarrow> dashboard_ui" where
  "stat_cards st = Box [
     stat_card ''Total Nodes'' (totalNodes st), stat_card ''Active Nodes'' (activeNodes st),
     stat_card ''Fault Nodes'' (faultNodes st), stat_card ''Total Hubs'' (totalHubs st),
     stat_card ''Connected Hubs'' (connectedHubs st)]"

definition nodes_table :: "(date \<Rightarrow> jstring) \<Rightarrow> node_status list \<Rightarrow> dashboard_ui" where
  "nodes_table fmt ns = Box [
     Txt (js ''Recent Node Activity''),
     table_head [''Node ID'', ''SensorGroup'', ''Status'', ''Battery'', ''Last Reading'', ''Faults'', ''Last Seen''],
     Box (map (node_table_row fmt) ns)]"

definition hubs_table :: "(date \<Rightarrow> jstring) \<Rightarrow> hub_status_row list \<Rightarrow> dashboard_ui" where
  "hubs_table fmt hs = Box [
     Txt (js ''Hub Status''),
     table_head [''Device ID'', ''Site'', ''Status'', ''Node Count'', ''Last Seen''],
     Box (map (hub_table_row fmt) hs)]"

definition FleetDashboard :: "(date \<Rightarrow> jstring) \<Rightarrow> dashboard \<Rightarrow> dashboard_ui" where
  "FleetDashboard fmt s = Box [
     Box [Txt (js ''Fleet Dashboard''), Button Refresh (dash_loading s) [Icon ''Refresh'' []]],
     shown_if (dash_loading s) [Spinner],
     stat_cards (stats s),
     nodes_table fmt (dash_nodes s),
     hubs_table fmt (dash_hubs s)]"

lemmas dashboard_views = FleetDashboard_def stat_cards_def stat_card_def nodes_table_def hubs_table_def table_head_def shown_if_def

fun chips :: "('b, 'f) ui \<Rightarrow> (jstring \<times> string) list" where
  "chips (Chip label color) = [(label, color)]"
| "chips (Box us) = concat (map chips us)"
| "chips _ = []"

fun icons :: "('b, 'f) ui \<Rightarrow> (string \<times> string) list" where
  "icons (Icon name color) = [(name, color)]"
| "icons (Box us) = concat (map icons us)"
| "icons _ = []"

text \<open>The states after the first effect and any number of refreshes.\<close>

inductive dashboard_reachable :: "(date \<Rightarrow> jstring) \<Rightarrow> dashboard \<Rightarrow> bool" for fmt :: "date \<Rightarrow> jstring" where
  mounted: "dashboard_reachable fmt (loadDashboardData now new_dashboard)"
| refreshed: "dashboard_reachable fmt s \<Longrightarrow> offers (FleetDashboard fmt s) (Click Refresh) \<Longrightarrow>
    dashboard_reachable fmt (loadDashboardData now s)"

lemma loaded_dashboard:
  "loadDashboardData now s = \<lparr>
     stats = \<lparr> totalNodes = num_of_int 24, activeNodes = num_of_int 22, faultNodes = num_of_int 2,
       totalHubs = num_of_int 5, connectedHubs = num_of_int 5 \<rparr>,
     dash_nodes = simulated_nodes now, dash_hubs = simulated_hubs now, dash_loading = False \<rparr>"
  by (cases s) (simp add: loadDashboardData_def)

lemma reachable_loaded: "dashboard_reachable fmt s \<Longrightarrow> \<exists>now. s = loadDashboardData now new_dashboard"
  by (induction rule: dashboard_reachable.induct) (auto simp: loaded_dashboard)

text \<open>Whether the progress bar is on the screen.\<close>

fun shows_progress :: "('b, 'f) ui \<Rightarrow> bool" where
  "shows_progress Spinner = True"
| "shows_progress (Button b disabled us) = (\<exists>u\<in>set us. shows_progress u)"
| "shows_progress (Item b selected us) = (\<exists>u\<in>set us. shows_progress u)"
| "shows_progress (Box us) = (\<exists>u\<in>set us. shows_progress u)"
| "shows_progress _ = False"

lemma row_progress [simp]: "\<not> shows_progress (node_table_row fmt n)" "\<not> shows_progress (hub_table_row fmt h)"
  by (auto simp: node_table_row_def hub_table_row_def getBatteryIcon_def split: option.split)

lemma row_offers [simp]: "\<not> offers (node_table_row fmt n) e" "\<not> offers (hub_table_row fmt h) e"
  by (auto simp: node_table_row_def hub_table_row_def getBatteryIcon_def split: option.split)

text \<open>
  C34: The dashboard, whatever rows its tables hold: a status is shown green if it is operational or connected,
  red if it is fault or disconnected, yellow if it is maintenance and neutral otherwise, and every
  fault of a node as a red chip; the battery of each node is green above 60 percent, yellow above 30 and red
  otherwise; the only control is the refresh button, enabled unless the dashboard is loading, and the progress bar
  is shown while it is. But once loaded the dashboard is never seen loading, whatever is refreshed when: the
  button is always enabled, and the progress bar never appears.
\<close>

theorem dashboard_tables:
  "let chip = (\<lambda>st. (st, if st = js ''operational'' \<or> st = js ''connected'' then ''success''
       else if st = js ''fault'' \<or> st = js ''disconnected'' then ''error''
       else if st = js ''maintenance'' then ''warning'' else ''default''))
   in chips (FleetDashboard fmt s) =
        concat (map (\<lambda>n. chip (ns_status n) # map (\<lambda>f. (f, ''error'')) (ns_faults n)) (dash_nodes s)) @
        map (\<lambda>h. chip (hs_status h)) (dash_hubs s) \<and>
      [i \<leftarrow> icons (FleetDashboard fmt s). fst i = ''Battery''] =
        map (\<lambda>n. (''Battery'', if greater_than (ns_batteryPercent n) 60 then ''success''
           else if greater_than (ns_batteryPercent n) 30 then ''warning'' else ''error'')) (dash_nodes s) \<and>
      (offers (FleetDashboard fmt s) e \<longleftrightarrow> \<not> dash_loading s \<and> e = Click Refresh) \<and>
      (shows_progress (FleetDashboard fmt s) \<longleftrightarrow> dash_loading s) \<and>
      (dashboard_reachable fmt t \<longrightarrow>
         offers (FleetDashboard fmt t) (Click Refresh) \<and> \<not> shows_progress (FleetDashboard fmt t))"
proof -
  have rows: "chips (node_table_row fmt n) = (ns_status n, getStatusColor (ns_status n)) # map (\<lambda>f. (f, ''error'')) (ns_faults n)"
    "chips (hub_table_row fmt h) = [(hs_status h, getStatusColor (hs_status h))]"
    "[i \<leftarrow> icons (node_table_row fmt n). fst i = ''Battery''] = [(''Battery'', if greater_than (ns_batteryPercent n) 60
       then ''success'' else if greater_than (ns_batteryPercent n) 30 then ''warning'' else ''error'')]"
    "icons (hub_table_row fmt h) = []" for n h
    by (auto simp: node_table_row_def hub_table_row_def getBatteryIcon_def comp_def split: option.split)
  have all: "chips (FleetDashboard fmt s) = concat (map (chips \<circ> node_table_row fmt) (dash_nodes s)) @
      concat (map (chips \<circ> hub_table_row fmt) (dash_hubs s))"
    "[i \<leftarrow> icons (FleetDashboard fmt s). fst i = ''Battery''] =
      concat (map (\<lambda>n. [i \<leftarrow> icons (node_table_row fmt n). fst i = ''Battery'']) (dash_nodes s))"
    by (simp_all add: dashboard_views filter_concat comp_def rows)
  have controls: "offers (FleetDashboard fmt d) u \<longleftrightarrow> \<not> dash_loading d \<and> u = Click Refresh"
    "shows_progress (FleetDashboard fmt d) \<longleftrightarrow> dash_loading d" for d u
    by (auto simp: dashboard_views)
  have "\<not> dash_loading t" if "dashboard_reachable fmt t"
    using reachable_loaded [OF that] by (auto simp: loaded_dashboard)
  with all rows controls show ?thesis by (simp add: Let_def comp_def getStatusColor_def)
qed

theorem dashboard_tables_witness:
  "chips (FleetDashboard (\<lambda>_. []) (loadDashboardData 0 new_dashboard)) =
     [(js ''operational'', ''success''), (js ''fault'', ''error''), (js ''sensor_high'', ''error''),
      (js ''low_battery'', ''error''), (js ''connected'', ''success''), (js ''connected'', ''success'')] \<and>
   \<not> shows_progress (FleetDashboard (\<lambda>_. []) (loadDashboardData 0 new_dashboard))"
  using dashboard_tables [of "\<lambda>_. []" "loadDashboardData 0 new_dashboard" undefined "loadDashboardData 0 new_dashboard"]
    dashboard_reachable.mounted [of "\<lambda>_. []" 0]
  by (simp add: Let_def loaded_dashboard simulated_nodes_def simulated_hubs_def)

text \<open>
  The colours of the statuses that the backend's entities have: of the hubs, connected is shown as
  success and disconnected as error, but a hub in status error gets the neutral colour of unknown
  statuses, as provisioning does; of the nodes, operational, maintenance and fault have their
  colours and uncommissioned and offline the neutral one. Batteries are shown green above 60 percent,
  yellow above 30 and red otherwise, also when the percentage is not a number.
\<close>

theorem status_colours:
  "map getStatusColor hub_statuses = [''default'', ''success'', ''error'', ''default''] \<and>
   map getStatusColor node_statuses = [''default'', ''success'', ''warning'', ''error'', ''default''] \<and>
   (getBatteryIcon (num_of_int p) = Icon ''Battery'' ''success'' \<longleftrightarrow> 60 < p) \<and>
   (getBatteryIcon (num_of_int p) = Icon ''Battery'' ''warning'' \<longleftrightarrow> p \<in> {31..60}) \<and>
   getBatteryIcon NaN = Icon ''Battery'' ''error''"
  by (simp add: getStatusColor_def hub_statuses_def node_statuses_def getBatteryIcon_def)

end
