(* ===== verification/WebApp.thy ===== *)
theory WebApp
  imports WizardRuns
begin

text \<open>
  The frame of the web application: the routes and the navigation bar of \<open>App.tsx\<close>, the static
  pages \<open>HomePage.tsx\<close>, \<open>LocalModePage.tsx\<close> and \<open>RemoteModePage.tsx\<close>, where their links and
  buttons lead, and the authentication context of \<open>AuthContext.tsx\<close>.
\<close>

section \<open>Pages\<close>

text \<open>The buttons of these pages navigate to a path.\<close>

type_synonym nav_ui = "(string, unit) ui"

definition bullets :: "string list \<Rightarrow> nav_ui" where
  "bullets xs = Box (map (\<lambda>x. Txt (js x)) xs)"

definition HomePage :: nav_ui where
  "HomePage = Box [
     Txt (js ''Welcome to Industrial Sensor Network''), Txt (js ''Choose your operating mode:''),
     Box [Icon ''Bluetooth'' ''primary'', Txt (js ''Local Mode''),
       Txt (js ''Use Web Bluetooth API to commission and diagnose nodes and hubs locally. Requires Chrome, Edge, or Opera browser with HTTPS.''),
       Link (js ''Launch Local Mode'') ''/local''],
     Box [Icon ''Cloud'' ''primary'', Txt (js ''Remote Mode''),
       Txt (js ''Manage your entire fleet remotely via Azure IoT Hub. Monitor nodes, configure hubs, and orchestrate jobs from anywhere.''),
       Link (js ''Launch Remote Mode'') ''/remote''],
     Txt (js ''Features''),
     bullets [''Ultra-low-power BLE sensor nodes with multi-year battery life'',
       ''Cellular gateway hubs for remote connectivity''],
     Txt (js ''Flexible topology management (Organizations '' @ arrow @ js '' Sites '' @ arrow @
          js '' SensorGroups '' @ arrow @ js '' Nodes)''),
     bullets [''Secure configuration and firmware updates'', ''Comprehensive diagnostics and fault detection'',
       ''Audit trail for all operations'']]"

definition RemoteModePage :: nav_ui where
  "RemoteModePage = Box [
     Txt (js ''Remote Mode - Cloud Management''),
     AlertBox ''info'' (js ''This mode connects to the backend API and Azure IoT Hub for remote fleet management. Please login to continue.''),
     Txt (js ''Features''),
     bullets [''View all organizations, sites, and sensorGroups'', ''Monitor node and hub status'',
       ''Configure devices remotely via Device Twin'', ''Orchestrate firmware updates'',
       ''View job history and results'', ''Export diagnostics and logs'', ''Audit trail for all operations''],
     AlertBox ''warning'' (js ''Authentication integration with Microsoft Entra ID is pending implementation.'')]"

text \<open>\<open>supported\<close> is whether the browser has Web Bluetooth.\<close>

definition commission_card :: "bool \<Rightarrow> string \<Rightarrow> string \<Rightarrow> string \<Rightarrow> string list \<Rightarrow> string \<Rightarrow> nav_ui" where
  "commission_card supported icon title txt items target = Box [
     Icon icon ''primary'', Txt (js title), Txt (js txt), bullets items,
     Button target (\<not> supported) [Txt (js title)]]"

definition LocalModePage :: "bool \<Rightarrow> nav_ui" where
  "LocalModePage supported = Box [
     Txt (js ''Local Mode - Web Bluetooth''),
     (if \<not> supported
      then AlertBox ''error'' (js ''Web Bluetooth is not supported in this browser. Please use Chrome, Edge, or Opera with HTTPS.'')
      else AlertBox ''info'' (js ''This mode uses the Web Bluetooth API to directly communicate with nearby nodes and hubs. Ensure you are using a supported browser (Chrome, Edge, Opera) with HTTPS enabled.'')),
     commission_card supported ''Sensors'' ''Commission Node'' ''Set up a new sensor node with guided wizard:''
       [''Connect via Web Bluetooth'', ''Read device information'', ''Assign to sensorGroup'',
        ''Configure sampling parameters'', ''Set calibration values''] ''/commission/node'',
     commission_card supported ''Router'' ''Commission Hub'' ''Set up a new gateway hub with guided wizard:''
       [''Connect via Web Bluetooth'', ''Read hub information'', ''Assign to site'', ''Configure policies'',
        ''Register with cloud''] ''/commission/hub'',
     Txt (js ''Available Actions''),
     bullets [''Commission new nodes and hubs'', ''View real-time diagnostics'', ''Configure device settings'',
       ''Bind nodes to hubs'', ''Test sensor readings'', ''Update firmware (OTA)''],
     Txt (js ''Note: Web Bluetooth requires HTTPS and explicit user permission for each connection. This is a security feature to protect users from unauthorized device access.'')]"

section \<open>Routes\<close>

datatype app_page =
    Home | LocalMode | RemoteMode | TopologyManagement | Fleet | Commission wizard_mode

definition App_routes :: "(string \<times> app_page) list" where
  "App_routes = [
     (''/'', Home), (''/local'', LocalMode), (''/remote'', RemoteMode), (''/topology'', TopologyManagement),
     (''/fleet'', Fleet), (''/commission/node'', Commission NodeMode), (''/commission/hub'', Commission HubMode)]"

definition App_bar :: nav_ui where
  "App_bar = Box [
     Txt (js ''Industrial Sensor Network''), Link (js ''Home'') ''/'', Link (js ''Local'') ''/local'',
     Link (js ''Remote'') ''/remote'', Link (js ''Topology'') ''/topology'', Link (js ''Fleet'') ''/fleet'']"

definition App_footer :: nav_ui where
  "App_footer = Txt (copyright_sign @ js '' 2025 Industrial Sensor Network. All rights reserved.'')"

text \<open>
  Where a page can lead: the links of the bar and of the page, its enabled navigation buttons, and
  for the wizard the paths its reachable states navigate to.
\<close>

inductive leads_to :: "web_env \<Rightarrow> app_page \<Rightarrow> string \<Rightarrow> bool" for env :: web_env where
  bar: "t \<in> set (links App_bar) \<Longrightarrow> leads_to env p t"
| home: "t \<in> set (links HomePage) \<Longrightarrow> leads_to env Home t"
| local_mode: "offers (LocalModePage (web_bluetooth env)) (Click t) \<Longrightarrow> leads_to env LocalMode t"
| wizard: "wizard_reachable env m s \<Longrightarrow> route s = Some t \<Longrightarrow> leads_to env (Commission m) t"

inductive visits :: "web_env \<Rightarrow> string \<Rightarrow> bool" for env :: web_env where
  entry: "visits env ''/''"
| follow: "visits env t \<Longrightarrow> map_of App_routes t = Some p \<Longrightarrow> leads_to env p t' \<Longrightarrow> visits env t'"

lemma local_buttons: "offers (LocalModePage b) (Click t) \<longleftrightarrow> b \<and> (t = ''/commission/node'' \<or> t = ''/commission/hub'')"
  by (auto simp: LocalModePage_def commission_card_def bullets_def)

definition plain_paths :: "string list" where
  "plain_paths = [''/'', ''/local'', ''/remote'', ''/topology'', ''/fleet'']"

lemma link_sets: "set (links App_bar) = set plain_paths" "set (links HomePage) \<subseteq> set plain_paths"
  by (simp_all add: App_bar_def HomePage_def plain_paths_def bullets_def)

lemma leads_to_known:
  "leads_to env p t \<Longrightarrow> t \<in> set plain_paths \<or> (web_bluetooth env \<and> p = LocalMode \<and> (t = ''/commission/node'' \<or> t = ''/commission/hub''))"
proof (induction rule: leads_to.induct)
  case (bar t p)
  then show ?case by (simp add: link_sets)
next
  case (home t)
  then show ?case using link_sets(2) by blast
next
  case (local_mode t)
  then show ?case by (simp add: local_buttons)
next
  case (wizard m s t)
  then show ?case using wizard_route [of env m s] by (simp add: plain_paths_def)
qed

text \<open>
  C25: Navigation in the web application: starting from the home page, the paths that can be visited
  by the links of the bar and the pages, the enabled buttons and the end of the wizard are exactly
  the paths that have a route, so no link is dead and no page is an orphan; except that without Web
  Bluetooth the two commissioning pages cannot be reached.
\<close>

theorem navigation_covers_routes:
  "visits env t \<longleftrightarrow> t \<in> set (map fst App_routes) \<and>
     (web_bluetooth env \<or> t \<notin> {''/commission/node'', ''/commission/hub''})"
proof
  have paths: "set (map fst App_routes) = set plain_paths \<union> {''/commission/node'', ''/commission/hub''}"
    by (auto simp: App_routes_def plain_paths_def)
  have "''/commission/node'' \<notin> set plain_paths" "''/commission/hub'' \<notin> set plain_paths" by (simp_all add: plain_paths_def)
  moreover have "t \<in> set plain_paths \<or> (web_bluetooth env \<and> t \<in> {''/commission/node'', ''/commission/hub''})" if "visits env t"
    using that
  proof (induction rule: visits.induct)
    case entry
    show ?case by (simp add: plain_paths_def)
  next
    case (follow t p t')
    then show ?case using leads_to_known by blast
  qed
  ultimately show "t \<in> set (map fst App_routes) \<and> (web_bluetooth env \<or> t \<notin> {''/commission/node'', ''/commission/hub''})"
    if "visits env t"
    unfolding paths using that by blast
  have plain: "visits env u" if "u \<in> set plain_paths" for u
    by (rule visits.follow [OF visits.entry, of Home]) (simp add: App_routes_def, simp add: leads_to.bar link_sets that)
  have "visits env u" if "web_bluetooth env" "u \<in> {''/commission/node'', ''/commission/hub''}" for u
  proof (rule visits.follow [of env "''/local''" LocalMode])
    show "visits env ''/local''" by (rule plain) (simp add: plain_paths_def)
    show "map_of App_routes ''/local'' = Some LocalMode" by (simp add: App_routes_def)
    show "leads_to env LocalMode u" using that by (intro leads_to.local_mode) (auto simp: local_buttons)
  qed
  with plain show "visits env t" if "t \<in> set (map fst App_routes) \<and> (web_bluetooth env \<or> t \<notin> {''/commission/node'', ''/commission/hub''})"
    using that unfolding paths by blast
qed

theorem navigation_covers_routes_witness:
  "visits \<lparr> VITE_API_URL = None, web_bluetooth = True \<rparr> ''/commission/hub'' \<and>
   \<not> visits \<lparr> VITE_API_URL = None, web_bluetooth = False \<rparr> ''/commission/hub''"
  by (simp add: navigation_covers_routes App_routes_def)

section \<open>The authentication context\<close>

text \<open>
  The MSAL library is a parameter, over a world \<open>'w\<close> of its own: the accounts it knows, the
  pop-ups, and the silent acquisition of a token.
\<close>

record ('w, 'acc) msal =
  getAllAccounts :: "'w \<Rightarrow> 'acc list"
  loginPopup :: "('w, 'acc option) call"
  logoutPopup :: "'w \<Rightarrow> 'w"
  acquireTokenSilent :: "'acc option \<Rightarrow> ('w, jstring) call"

record 'acc auth_context =
  isAuthenticated :: bool
  user :: "'acc option"

definition auth_initial :: "'acc auth_context" where
  "auth_initial = \<lparr> isAuthenticated = False, user = None \<rparr>"

definition auth_mounted :: "('w, 'acc) msal \<Rightarrow> 'w \<Rightarrow> 'acc auth_context \<Rightarrow> 'acc auth_context" where
  "auth_mounted M w s =
     (let accounts = getAllAccounts M w in
      if accounts \<noteq> [] then s \<lparr> isAuthenticated := True, user := Some (hd accounts) \<rparr> else s)"

definition login :: "('w, 'acc) msal \<Rightarrow> 'acc auth_context \<Rightarrow> ('w, 'acc auth_context) call" where
  "login M s = try_catch
     (await (loginPopup M) (\<lambda>account. return (s \<lparr> isAuthenticated := True, user := account \<rparr>)))
     (\<lambda>_. return s)"

definition logout :: "('w, 'acc) msal \<Rightarrow> 'acc auth_context \<Rightarrow> ('w, 'acc auth_context) call" where
  "logout M s w = (Inr (s \<lparr> isAuthenticated := False, user := None \<rparr>), logoutPopup M w)"

definition getToken :: "('w, 'acc) msal \<Rightarrow> ('w, jstring option) call" where
  "getToken M w = try_catch
     (await (acquireTokenSilent M (case getAllAccounts M w of [] \<Rightarrow> None | a # as \<Rightarrow> Some a))
        (\<lambda>token. return (Some token)))
     (\<lambda>_. return None) w"

text \<open>\<open>useAuth\<close> outside a provider, where the context is \<open>undefined\<close>, throws.\<close>

definition useAuth :: "'c option \<Rightarrow> js_error + 'c" where
  "useAuth context = (case context of
     None \<Rightarrow> Inl (Error (js ''useAuth must be used within AuthProvider'')) | Some c \<Rightarrow> Inr c)"

datatype auth_operation = Login | Logout | GetToken

fun auth_step :: "('w, 'acc) msal \<Rightarrow> auth_operation \<Rightarrow> 'acc auth_context \<Rightarrow> ('w, 'acc auth_context) call" where
  "auth_step M Login s w = login M s w"
| "auth_step M Logout s w = logout M s w"
| "auth_step M GetToken s w = await (getToken M) (\<lambda>_. return s) w"

inductive auth_reachable :: "('w, 'acc) msal \<Rightarrow> 'acc auth_context \<Rightarrow> 'w \<Rightarrow> bool" for M :: "('w, 'acc) msal" where
  mounted: "auth_reachable M (auth_mounted M w auth_initial) w"
| operation: "auth_reachable M s w \<Longrightarrow> auth_step M op s w = (Inr s', w') \<Longrightarrow> auth_reachable M s' w'"
| elsewhere: "auth_reachable M s w \<Longrightarrow> auth_reachable M s w'"

text \<open>A fulfilled login names an account, as MSAL documents for the pop-up.\<close>

definition login_names_account :: "('w, 'acc) msal \<Rightarrow> bool" where
  "login_names_account M \<longleftrightarrow> (\<forall>w a w'. loginPopup M w = (Inr a, w') \<longrightarrow> a \<noteq> None)"

lemma login_result:
  "login M s w = (case loginPopup M w of
     (Inl e, w') \<Rightarrow> (Inr s, w') | (Inr a, w') \<Rightarrow> (Inr (s \<lparr> isAuthenticated := True, user := a \<rparr>), w'))"
  by (simp add: login_def try_catch_def await_def return_def split: prod.split sum.split)

lemma auth_consistent:
  assumes "login_names_account M" and "auth_reachable M s w"
  shows "isAuthenticated s \<longleftrightarrow> user s \<noteq> None"
  using assms(2)
proof (induction rule: auth_reachable.induct)
  case (mounted w)
  show ?case by (simp add: auth_mounted_def auth_initial_def Let_def)
next
  case (operation s w op s' w')
  show ?case
  proof (cases op)
    case Login
    obtain res w1 where p: "loginPopup M w = (res, w1)" by fastforce
    show ?thesis
    proof (cases res)
      case (Inl e)
      with Login operation p show ?thesis by (simp add: login_result)
    next
      case (Inr a)
      then have "a \<noteq> None" using assms(1) p by (auto simp: login_names_account_def)
      with Login operation p Inr show ?thesis by (auto simp: login_result)
    qed
  next
    case Logout
    with operation show ?thesis by (auto simp: logout_def)
  next
    case GetToken
    with operation show ?thesis by (auto simp: await_def return_def split: prod.splits sum.splits)
  qed
qed

text \<open>
  In every state of the authentication context, after any sequence of logins, logouts and token
  requests, the user is set exactly when the context says authenticated; no operation ever rejects:
  a failed login leaves the context as it was, and a token that cannot be acquired is null; the token
  is requested for the first account that the library knows.
\<close>

theorem auth_context_consistent:
  assumes "login_names_account M" and "auth_reachable M s w"
  shows "(isAuthenticated s \<longleftrightarrow> user s \<noteq> None) \<and>
    (\<exists>s' w'. auth_step M op s w = (Inr s', w') \<and>
      (op = Login \<longrightarrow> (\<exists>e. loginPopup M w = (Inl e, w')) \<longrightarrow> s' = s) \<and> (op = Logout \<longrightarrow> user s' = None)) \<and>
    (\<exists>token w'. getToken M w = (Inr token, w') \<and>
      (case acquireTokenSilent M (if getAllAccounts M w = [] then None else Some (hd (getAllAccounts M w))) w of
         (Inl e, _) \<Rightarrow> token = None | (Inr t, _) \<Rightarrow> token = Some t))"
proof -
  let ?first = "if getAllAccounts M w = [] then None else Some (hd (getAllAccounts M w))"
  have token: "getToken M w = (case acquireTokenSilent M ?first w of
      (Inl e, w') \<Rightarrow> (Inr None, w') | (Inr t, w') \<Rightarrow> (Inr (Some t), w'))"
    by (simp add: getToken_def try_catch_def await_def return_def split: prod.split sum.split list.split)
  have "\<exists>s' w'. auth_step M op s w = (Inr s', w') \<and>
      (op = Login \<longrightarrow> (\<exists>e. loginPopup M w = (Inl e, w')) \<longrightarrow> s' = s) \<and> (op = Logout \<longrightarrow> user s' = None)"
  proof (cases op)
    case Login
    then show ?thesis by (auto simp: login_result split: prod.split sum.split)
  next
    case Logout
    then show ?thesis by (simp add: logout_def)
  next
    case GetToken
    then show ?thesis by (simp add: token await_def return_def split: prod.split sum.split)
  qed
  moreover have "\<exists>token w'. getToken M w = (Inr token, w') \<and>
      (case acquireTokenSilent M ?first w of (Inl e, _) \<Rightarrow> token = None | (Inr t, _) \<Rightarrow> token = Some t)"
    by (simp add: token split: prod.split sum.split)
  ultimately show ?thesis using auth_consistent [OF assms] by blast
qed

text \<open>A library in memory: the world is the list of the accounts that are logged in.\<close>

definition memory_msal :: "(jstring list, jstring) msal" where
  "memory_msal = \<lparr>
     getAllAccounts = (\<lambda>w. w),
     loginPopup = (\<lambda>w. (Inr (Some (js ''operator'')), js ''operator'' # w)),
     logoutPopup = (\<lambda>w. []),
     acquireTokenSilent = (\<lambda>a w. case a of None \<Rightarrow> (Inl (Error (js ''no account'')), w) | Some x \<Rightarrow> (Inr x, w)) \<rparr>"

theorem auth_context_consistent_witness:
  "\<exists>s. auth_reachable memory_msal s [js ''operator''] \<and> user s = Some (js ''operator'') \<and> isAuthenticated s \<and>
     (\<exists>w'. getToken memory_msal [js ''operator''] = (Inr (Some (js ''operator'')), w'))"
proof -
  let ?s = "\<lparr> isAuthenticated = True, user = Some (js ''operator'') \<rparr>"
  have r: "auth_reachable memory_msal ?s [js ''operator'']"
    by (rule auth_reachable.operation [OF auth_reachable.mounted [where w = "[]"], where op = Login])
      (simp add: login_result memory_msal_def auth_mounted_def auth_initial_def)
  have "login_names_account memory_msal" by (simp add: login_names_account_def memory_msal_def)
  from auth_context_consistent [OF this r, of GetToken] r show ?thesis
    by (auto simp: memory_msal_def)
qed

end
