(* ===== verification/Migration.thy ===== *)
theory Migration
  imports Prelude
begin

text \<open>
  \<open>src/backend/api/src/migrations/1735494000000-RenameMachinesToSensorGroups.ts\<close>: the statements of
  the migration as steps on a database schema (tables with their columns, indexes, foreign keys).
  A foreign key follows the tables and columns it is on when they are renamed, as in Postgres. The
  rows are not modelled: that they satisfy an added constraint is taken for granted.
\<close>

section \<open>Schemas and statements\<close>

record foreign_key =
  fk_table :: string
  fk_name :: string
  fk_column :: string
  fk_target :: string
  fk_target_column :: string

record db_schema =
  table_columns :: "(string \<times> string list) list"
  indexes :: "(string \<times> string \<times> string) list"
  foreign_keys :: "foreign_key list"

datatype statement =
    RenameTable string string
  | RenameColumn string string string
  | RenameIndex string string
  | DropConstraintIfExists string string
  | AddForeignKey foreign_key

definition rename :: "'a \<Rightarrow> 'a \<Rightarrow> 'a \<Rightarrow> 'a" where
  "rename a b x = (if x = a then b else x)"

definition has_column :: "db_schema \<Rightarrow> string \<Rightarrow> string \<Rightarrow> bool" where
  "has_column s t c \<longleftrightarrow> (\<exists>cs. map_of (table_columns s) t = Some cs \<and> c \<in> set cs)"

definition has_table :: "db_schema \<Rightarrow> string \<Rightarrow> bool" where
  "has_table s t \<longleftrightarrow> t \<in> set (map fst (table_columns s))"

definition missing :: "js_error" where
  "missing = Error (js ''does not exist'')"

definition taken :: "js_error" where
  "taken = Error (js ''already exists'')"

fun execute :: "statement \<Rightarrow> db_schema \<Rightarrow> js_error + db_schema" where
  "execute (RenameTable a b) s =
     (if \<not> has_table s a then Inl missing
      else if has_table s b \<or> b \<in> set (map fst (indexes s)) then Inl taken
      else Inr (s \<lparr> table_columns := map (\<lambda>(t, cs). (rename a b t, cs)) (table_columns s),
        indexes := map (\<lambda>(i, t, c). (i, rename a b t, c)) (indexes s),
        foreign_keys := map (\<lambda>k. k \<lparr> fk_table := rename a b (fk_table k), fk_target := rename a b (fk_target k) \<rparr>) (foreign_keys s) \<rparr>))"
| "execute (RenameColumn t a b) s =
     (if \<not> has_column s t a then Inl missing
      else if has_column s t b then Inl taken
      else Inr (s \<lparr> table_columns := map (\<lambda>(u, cs). (u, if u = t then map (rename a b) cs else cs)) (table_columns s),
        indexes := map (\<lambda>(i, u, c). (i, u, if u = t then rename a b c else c)) (indexes s),
        foreign_keys := map (\<lambda>k. k \<lparr> fk_column := (if fk_table k = t then rename a b (fk_column k) else fk_column k),
          fk_target_column := (if fk_target k = t then rename a b (fk_target_column k) else fk_target_column k) \<rparr>) (foreign_keys s) \<rparr>))"
| "execute (RenameIndex a b) s =
     (if a \<notin> set (map fst (indexes s)) then Inl missing
      else if b \<in> set (map fst (indexes s)) \<or> has_table s b then Inl taken
      else Inr (s \<lparr> indexes := map (\<lambda>(i, t, c). (rename a b i, t, c)) (indexes s) \<rparr>))"
| "execute (DropConstraintIfExists t n) s =
     (if \<not> has_table s t then Inl missing
      else Inr (s \<lparr> foreign_keys := filter (\<lambda>k. \<not> (fk_table k = t \<and> fk_name k = n)) (foreign_keys s) \<rparr>))"
| "execute (AddForeignKey k) s =
     (if \<not> has_table s (fk_table k) \<or> \<not> has_table s (fk_target k) \<or> \<not> has_column s (fk_table k) (fk_column k)
         \<or> \<not> has_column s (fk_target k) (fk_target_column k) then Inl missing
      else if \<exists>k'\<in>set (foreign_keys s). fk_table k' = fk_table k \<and> fk_name k' = fk_name k then Inl taken
      else Inr (s \<lparr> foreign_keys := foreign_keys s @ [k] \<rparr>))"

text \<open>The queries are awaited one after the other; the first that fails rejects the migration.\<close>

fun queries :: "statement list \<Rightarrow> db_schema \<Rightarrow> js_error + db_schema" where
  "queries [] s = Inr s"
| "queries (q # qs) s = bind (execute q s) (queries qs)"

definition new_key :: foreign_key where
  "new_key = \<lparr> fk_table = ''nodes'', fk_name = ''FK_nodes_sensorGroupId'', fk_column = ''sensorGroupId'',
     fk_target = ''sensor_groups'', fk_target_column = ''id'' \<rparr>"

definition old_key :: foreign_key where
  "old_key = \<lparr> fk_table = ''nodes'', fk_name = ''FK_nodes_machineId'', fk_column = ''machineId'',
     fk_target = ''machines'', fk_target_column = ''id'' \<rparr>"

definition up :: "db_schema \<Rightarrow> js_error + db_schema" where
  "up = queries [
     RenameTable ''machines'' ''sensor_groups'',
     RenameColumn ''nodes'' ''machineId'' ''sensorGroupId'',
     RenameIndex ''IDX_nodes_machineId'' ''IDX_nodes_sensorGroupId'',
     DropConstraintIfExists ''nodes'' ''FK_nodes_machineId'',
     AddForeignKey new_key]"

definition down :: "db_schema \<Rightarrow> js_error + db_schema" where
  "down = queries [
     DropConstraintIfExists ''nodes'' ''FK_nodes_sensorGroupId'',
     AddForeignKey old_key,
     RenameIndex ''IDX_nodes_sensorGroupId'' ''IDX_nodes_machineId'',
     RenameColumn ''nodes'' ''sensorGroupId'' ''machineId'',
     RenameTable ''sensor_groups'' ''machines'']"

section \<open>Properties\<close>

lemma rename_simps [simp]: "rename a b a = b" "x \<noteq> a \<Longrightarrow> rename a b x = x"
  by (simp_all add: rename_def)

lemma rename_gone: "a \<noteq> b \<Longrightarrow> rename a b x \<noteq> a"
  by (simp add: rename_def)

lemma map_of_columns:
  "map_of (map (\<lambda>(u, cs). (u, if u = t then f cs else cs)) xs) t = map_option f (map_of xs t)"
  by (induction xs) auto

lemma column_renamed:
  assumes "execute (RenameColumn t a b) s = Inr s'" and "a \<noteq> b"
  shows "\<not> has_column s' t a"
proof
  assume "has_column s' t a"
  with assms obtain cs where "a \<in> rename a b ` set cs"
    by (auto simp: has_column_def map_of_columns split: if_splits)
  with rename_gone [OF assms(2)] show False by (metis imageE)
qed

text \<open>
  C30: The rename migration cannot be reverted: whenever \<open>up\<close> succeeds on a schema, \<open>down\<close> on the
  result is rejected, because it adds a foreign key on the column \<open>machineId\<close> and the table
  \<open>machines\<close> before it renames them back.
\<close>

theorem down_after_up_fails:
  assumes "up s = Inr s'"
  shows "\<exists>e. down s' = Inl e"
proof -
  obtain s1 s2 s3 s4 where s: "execute (RenameColumn ''nodes'' ''machineId'' ''sensorGroupId'') s1 = Inr s2"
    "execute (RenameIndex ''IDX_nodes_machineId'' ''IDX_nodes_sensorGroupId'') s2 = Inr s3"
    "execute (DropConstraintIfExists ''nodes'' ''FK_nodes_machineId'') s3 = Inr s4"
    "execute (AddForeignKey new_key) s4 = Inr s'"
    using assms unfolding up_def by (auto simp: bind_def simp del: execute.simps split: sum.splits)
  have "\<not> has_column s2 ''nodes'' ''machineId''" using column_renamed [OF s(1)] by simp
  moreover have "table_columns s' = table_columns s2"
    using s(2-4) by (auto split: if_splits)
  ultimately have "\<not> has_column s' ''nodes'' ''machineId''" by (simp add: has_column_def)
  then have "\<not> has_column (s' \<lparr> foreign_keys := ks \<rparr>) ''nodes'' ''machineId''" for ks by (simp add: has_column_def)
  then show ?thesis by (auto simp: down_def old_key_def bind_def)
qed

text \<open>
  The migration relies on an index of the name \<open>IDX_nodes_machineId\<close>: on a schema without it \<open>up\<close> is rejected. The entities
  give their indexes no names, and no other migration creates one.
\<close>

lemma up_needs_index:
  assumes "''IDX_nodes_machineId'' \<notin> set (map fst (indexes s))"
  shows "\<exists>e. up s = Inl e"
proof (cases "bind (execute (RenameTable ''machines'' ''sensor_groups'') s)
    (execute (RenameColumn ''nodes'' ''machineId'' ''sensorGroupId''))")
  case (Inl e)
  then show ?thesis by (auto simp: up_def bind_def simp del: execute.simps split: sum.splits)
next
  case (Inr s2)
  then obtain s1 where s: "execute (RenameTable ''machines'' ''sensor_groups'') s = Inr s1"
    "execute (RenameColumn ''nodes'' ''machineId'' ''sensorGroupId'') s1 = Inr s2"
    by (auto simp: bind_def simp del: execute.simps split: sum.splits)
  then have "map fst (indexes s2) = map fst (indexes s)"
    by (auto simp: case_prod_beta comp_def split: if_splits)
  with assms have "execute (RenameIndex ''IDX_nodes_machineId'' ''IDX_nodes_sensorGroupId'') s2 = Inl missing"
    by (simp del: set_map)
  with s show ?thesis by (simp add: up_def bind_def del: execute.simps)
qed

text \<open>
  On a schema with the tables \<open>machines\<close> and \<open>nodes\<close>, the column \<open>machineId\<close> with its index and
  foreign key, and none of the new names, \<open>up\<close> succeeds: the table and the column carry their new
  names and all other columns are kept in order, the index has its new name and is on the renamed
  column, and the only foreign key on it is the new one, to the renamed table.
\<close>

theorem up_renames:
  assumes "s = \<lparr> table_columns = [(''machines'', ''id'' # ms), (''nodes'', ns1 @ ''machineId'' # ns2)],
      indexes = [(''IDX_nodes_machineId'', ''nodes'', ''machineId'')], foreign_keys = [old_key] \<rparr>"
    and "''machineId'' \<notin> set (ns1 @ ns2)" and "''sensorGroupId'' \<notin> set (ns1 @ ns2)"
  shows "up s = Inr \<lparr> table_columns = [(''sensor_groups'', ''id'' # ms), (''nodes'', ns1 @ ''sensorGroupId'' # ns2)],
      indexes = [(''IDX_nodes_sensorGroupId'', ''nodes'', ''sensorGroupId'')], foreign_keys = [new_key] \<rparr>"
proof -
  have "map (rename ''machineId'' ''sensorGroupId'') ns1 = ns1" "map (rename ''machineId'' ''sensorGroupId'') ns2 = ns2"
    using assms(2) by (auto intro!: map_idI simp: rename_def)
  with assms show ?thesis
    by (simp add: up_def old_key_def new_key_def has_table_def has_column_def)
qed

definition sample_schema :: db_schema where
  "sample_schema = \<lparr> table_columns = [(''machines'', [''id'', ''name'']), (''nodes'', [''id'', ''machineId'', ''hubId''])],
      indexes = [(''IDX_nodes_machineId'', ''nodes'', ''machineId'')], foreign_keys = [old_key] \<rparr>"

lemma sample_up: "\<exists>s'. up sample_schema = Inr s'"
  by (simp add: sample_schema_def up_def old_key_def new_key_def has_table_def has_column_def)

theorem down_after_up_fails_witness:
  "\<exists>s' e. up sample_schema = Inr s' \<and> down s' = Inl e"
  using sample_up down_after_up_fails [of sample_schema] by blast

theorem up_renames_witness:
  "up sample_schema = Inr \<lparr> table_columns = [(''sensor_groups'', [''id'', ''name'']), (''nodes'', [''id'', ''sensorGroupId'', ''hubId''])],
      indexes = [(''IDX_nodes_sensorGroupId'', ''nodes'', ''sensorGroupId'')], foreign_keys = [new_key] \<rparr>"
  using up_renames [of sample_schema "[''name'']" "[''id'']" "[''hubId'']"]
  by (simp add: sample_schema_def)

end
