(* ===== verification/Routes.thy ===== *)
theory Routes
  imports JSText
begin

text \<open>
  The HTTP surface of the backend: the routes that the decorators of the four controllers declare,
  in the order of the modules of \<open>app.module.ts\<close>, and that the order does not matter. The router of the framework is a parameter with the law \<open>router_laws\<close>.
\<close>

section \<open>Declarations\<close>

datatype verb = GET | POST | PUT | DELETE

datatype topology_endpoint =
    Topology_getOrganizations | Topology_getOrganization | Topology_createOrganization
  | Topology_getSitesByOrganization | Topology_getSite | Topology_createSite
  | Topology_getSensorGroupsBySite | Topology_getSensorGroup | Topology_createSensorGroup
  | Topology_getHubsBySite | Topology_getHub | Topology_createHub | Topology_updateHub
  | Topology_getNodesBySensorGroup | Topology_getNodesByHub | Topology_getNode | Topology_createNode
  | Topology_updateNode | Topology_assignNodeToSensorGroup | Topology_bindNodeToHub

datatype jobs_endpoint =
    Jobs_createJob | Jobs_getJob | Jobs_getJobs | Jobs_updateJobStatus | Jobs_cancelJob
  | Jobs_pushNodeConfig | Jobs_pullNodeDiagnostics | Jobs_updateHubFirmware | Jobs_getStatistics
  | Jobs_cleanupOldJobs

datatype iot_hub_endpoint =
    IotHub_getDeviceTwin | IotHub_getReportedProperties | IotHub_updateDesiredProperties | IotHub_addJob
  | IotHub_updateTopology | IotHub_updatePolicies | IotHub_invokeMethod | IotHub_isDeviceConnected
  | IotHub_queryDevices

datatype auth_endpoint = Auth_login | Auth_getProfile

datatype endpoint =
    TopologyController topology_endpoint
  | JobsController jobs_endpoint
  | IotHubController iot_hub_endpoint
  | AuthController auth_endpoint

type_synonym 'h declared = "(verb \<times> string \<times> 'h) list"

definition TopologyController_prefix :: string where
  "TopologyController_prefix = ''api/topology''"

definition TopologyController_routes :: "topology_endpoint declared" where
  "TopologyController_routes = [
     (GET, ''organizations'', Topology_getOrganizations),
     (GET, ''organizations/:id'', Topology_getOrganization),
     (POST, ''organizations'', Topology_createOrganization),
     (GET, ''organizations/:orgId/sites'', Topology_getSitesByOrganization),
     (GET, ''sites/:id'', Topology_getSite),
     (POST, ''sites'', Topology_createSite),
     (GET, ''sites/:siteId/sensor-groups'', Topology_getSensorGroupsBySite),
     (GET, ''sensor-groups/:id'', Topology_getSensorGroup),
     (POST, ''sensor-groups'', Topology_createSensorGroup),
     (GET, ''sites/:siteId/hubs'', Topology_getHubsBySite),
     (GET, ''hubs/:id'', Topology_getHub),
     (POST, ''hubs'', Topology_createHub),
     (PUT, ''hubs/:id'', Topology_updateHub),
     (GET, ''sensor-groups/:sensorGroupId/nodes'', Topology_getNodesBySensorGroup),
     (GET, ''hubs/:hubId/nodes'', Topology_getNodesByHub),
     (GET, ''nodes/:id'', Topology_getNode),
     (POST, ''nodes'', Topology_createNode),
     (PUT, ''nodes/:id'', Topology_updateNode),
     (PUT, ''nodes/:nodeId/assign/:sensorGroupId'', Topology_assignNodeToSensorGroup),
     (PUT, ''nodes/:nodeId/bind/:hubId'', Topology_bindNodeToHub)]"

definition JobsController_prefix :: string where
  "JobsController_prefix = ''api/jobs''"

definition JobsController_routes :: "jobs_endpoint declared" where
  "JobsController_routes = [
     (POST, '''', Jobs_createJob),
     (GET, '':id'', Jobs_getJob),
     (GET, '''', Jobs_getJobs),
     (PUT, '':id/status'', Jobs_updateJobStatus),
     (PUT, '':id/cancel'', Jobs_cancelJob),
     (POST, ''push-node-config'', Jobs_pushNodeConfig),
     (POST, ''pull-node-diagnostics'', Jobs_pullNodeDiagnostics),
     (POST, ''update-hub-firmware'', Jobs_updateHubFirmware),
     (GET, ''statistics/summary'', Jobs_getStatistics),
     (POST, ''cleanup'', Jobs_cleanupOldJobs)]"

definition IotHubController_prefix :: string where
  "IotHubController_prefix = ''api/iot-hub''"

definition IotHubController_routes :: "iot_hub_endpoint declared" where
  "IotHubController_routes = [
     (GET, ''devices/:deviceId/twin'', IotHub_getDeviceTwin),
     (GET, ''devices/:deviceId/twin/reported'', IotHub_getReportedProperties),
     (POST, ''devices/:deviceId/twin/desired'', IotHub_updateDesiredProperties),
     (POST, ''devices/:deviceId/jobs'', IotHub_addJob),
     (POST, ''devices/:deviceId/topology'', IotHub_updateTopology),
     (POST, ''devices/:deviceId/policies'', IotHub_updatePolicies),
     (POST, ''devices/:deviceId/method'', IotHub_invokeMethod),
     (GET, ''devices/:deviceId/connected'', IotHub_isDeviceConnected),
     (POST, ''query'', IotHub_queryDevices)]"

definition AuthController_prefix :: string where
  "AuthController_prefix = ''api/auth''"

definition AuthController_routes :: "auth_endpoint declared" where
  "AuthController_routes = [(POST, ''login'', Auth_login), (GET, ''profile'', Auth_getProfile)]"

section \<open>Paths\<close>

datatype segment = Exact string | Param string

fun segment_of :: "string \<Rightarrow> segment" where
  "segment_of (CHR '':'' # s) = Param s"
| "segment_of s = Exact s"

text \<open>The prefix of the controller and the path of the method, joined by one slash.\<close>

definition route_pattern :: "string \<Rightarrow> string \<Rightarrow> segment list" where
  "route_pattern prefix path =
     map segment_of (filter (\<lambda>s. s \<noteq> []) (split_at (CHR ''/'') prefix @ split_at (CHR ''/'') path))"

type_synonym 'h route = "verb \<times> segment list \<times> 'h"

definition controller_routes :: "string \<Rightarrow> ('h \<Rightarrow> endpoint) \<Rightarrow> 'h declared \<Rightarrow> endpoint route list" where
  "controller_routes prefix c ds = map (\<lambda>(v, path, h). (v, route_pattern prefix path, c h)) ds"

definition api_routes :: "endpoint route list" where
  "api_routes =
     controller_routes AuthController_prefix AuthController AuthController_routes @
     controller_routes TopologyController_prefix TopologyController TopologyController_routes @
     controller_routes JobsController_prefix JobsController JobsController_routes @
     controller_routes IotHubController_prefix IotHubController IotHubController_routes"

section \<open>The router\<close>

text \<open>
  Fixed segments are compared without regard to the case of (ASCII) letters; a parameter stands for
  one segment. Segments with escapes are left to the framework.
\<close>

definition lower :: "code_unit \<Rightarrow> code_unit" where
  "lower u = (if 65 \<le> u \<and> u \<le> 90 then u + 32 else u)"

fun path_params :: "segment list \<Rightarrow> jstring list \<Rightarrow> (string \<times> jstring) list option" where
  "path_params [] [] = Some []"
| "path_params (Exact s # p) (t # ts) = (if map lower t = map lower (js s) then path_params p ts else None)"
| "path_params (Param x # p) (t # ts) = map_option (\<lambda>ps. (x, t) # ps) (path_params p ts)"
| "path_params _ _ = None"

definition plain_segment :: "jstring \<Rightarrow> bool" where
  "plain_segment t \<longleftrightarrow> t \<noteq> [] \<and> list_all (\<lambda>u. u \<notin> {0x23, 0x25, 0x2F, 0x3F}) t"

type_synonym router = "endpoint route list \<Rightarrow> verb \<Rightarrow> jstring list \<Rightarrow> (endpoint \<times> (string \<times> jstring) list) option"

text \<open>
  A request reaches some route of its verb that matches its path, with the parameters of the match;
  if there is none it reaches no handler. Which one of several is reached is not relied on.
\<close>

definition router_laws :: "router \<Rightarrow> bool" where
  "router_laws route \<longleftrightarrow> (\<forall>table verb path. list_all plain_segment path \<longrightarrow>
     (case route table verb path of
        None \<Rightarrow> \<forall>(v, p, h)\<in>set table. v = verb \<longrightarrow> path_params p path = None
      | Some (h, ps) \<Rightarrow> \<exists>p. (verb, p, h) \<in> set table \<and> path_params p path = Some ps))"

text \<open>A router that takes the first route that matches.\<close>

fun first_route :: router where
  "first_route [] verb path = None"
| "first_route ((v, p, h) # table) verb path =
     (case (if v = verb then path_params p path else None) of
        None \<Rightarrow> first_route table verb path
      | Some ps \<Rightarrow> Some (h, ps))"

lemma first_route_None: "first_route table verb path = None \<Longrightarrow> (v, p, h) \<in> set table \<Longrightarrow> v = verb \<Longrightarrow> path_params p path = None"
  by (induction table verb path rule: first_route.induct) (auto split: option.splits if_splits)

lemma first_route_Some: "first_route table verb path = Some (h, ps) \<Longrightarrow> \<exists>p. (verb, p, h) \<in> set table \<and> path_params p path = Some ps"
  by (induction table verb path rule: first_route.induct) (auto split: option.splits if_splits)

lemma first_route_laws: "router_laws first_route"
  unfolding router_laws_def
  by (auto split: option.split dest: first_route_None first_route_Some)

section \<open>No two routes match the same request\<close>

fun both_match :: "segment \<Rightarrow> segment \<Rightarrow> bool" where
  "both_match (Exact s) (Exact t) = (s = t)"
| "both_match _ _ = True"

fun overlap :: "segment list \<Rightarrow> segment list \<Rightarrow> bool" where
  "overlap [] [] = True"
| "overlap (a # p) (b # q) = (both_match a b \<and> overlap p q)"
| "overlap _ _ = False"

fun pattern_ok :: "segment list \<Rightarrow> bool" where
  "pattern_ok [] = True"
| "pattern_ok (Exact s # p) = (map lower (js s) = js s \<and> pattern_ok p)"
| "pattern_ok (Param x # p) = pattern_ok p"

lemma params_Nil [simp]:
  "path_params [] ts = Some ps \<longleftrightarrow> ts = [] \<and> ps = []" "path_params p [] = Some ps \<longleftrightarrow> p = [] \<and> ps = []"
  by (cases ts; simp; blast) (cases p rule: pattern_ok.cases; auto)

lemma params_overlap:
  "path_params p ts \<noteq> None \<Longrightarrow> path_params q ts \<noteq> None \<Longrightarrow> pattern_ok p \<Longrightarrow> pattern_ok q \<Longrightarrow> overlap p q"
proof (induction p q arbitrary: ts rule: overlap.induct)
  case (2 a p b q)
  then obtain u us where ts: "ts = u # us" by (cases ts) auto
  have literal: "s = t" if "map lower u = js s" "map lower u = js t" for s t
    using that by (metis js_inj)
  have "overlap p q" using 2 ts by (cases a; cases b) (auto split: if_splits)
  moreover have "both_match a b" using 2 ts by (cases a; cases b) (auto dest: literal split: if_splits)
  ultimately show ?case by simp
qed auto

fun unambiguous :: "'h route list \<Rightarrow> bool" where
  "unambiguous [] = True"
| "unambiguous ((v, p, h) # table) = (pattern_ok p \<and> list_all (\<lambda>(v', q, h'). v' = v \<longrightarrow> \<not> overlap p q) table \<and> unambiguous table)"

lemma api_routes_unambiguous: "unambiguous api_routes"
  by code_simp

lemma unambiguous_ok: "unambiguous table \<Longrightarrow> (v, p, h) \<in> set table \<Longrightarrow> pattern_ok p"
  by (induction table rule: unambiguous.induct) auto

lemma unambiguous_match:
  assumes "unambiguous table" and "(v, p, h) \<in> set table" and "(v, q, h') \<in> set table"
    and "path_params p ts \<noteq> None" and "path_params q ts \<noteq> None"
  shows "p = q \<and> h = h'"
  using assms(1-3)
proof (induction table rule: unambiguous.induct)
  case (2 v0 p0 h0 table)
  have head: "path_params p0 ts = None \<or> path_params p' ts = None" if "(v0, p', h'') \<in> set table" for p' h''
  proof -
    have "\<not> overlap p0 p'" "pattern_ok p0" "pattern_ok p'"
      using unambiguous_ok [of table v0 p' h''] 2(2) that by (auto simp: list_all_iff)
    with params_overlap [of p0 ts p'] show ?thesis by blast
  qed
  from 2(3,4) consider "(v, p, h) = (v0, p0, h0)" "(v, q, h') = (v0, p0, h0)" | "(v, p, h) = (v0, p0, h0)" "(v, q, h') \<in> set table"
    | "(v, p, h) \<in> set table" "(v, q, h') = (v0, p0, h0)" | "(v, p, h) \<in> set table" "(v, q, h') \<in> set table"
    by auto
  then show ?case
  proof cases
    case 2
    with head [of q h'] assms(4,5) show ?thesis by simp
  next
    case 3
    with head [of p h] assms(4,5) show ?thesis by simp
  qed (use 2 in simp_all)
qed simp

section \<open>Requests reach their handlers\<close>

lemma router_None:
  "router_laws R \<Longrightarrow> list_all plain_segment path \<Longrightarrow> R table verb path = None \<Longrightarrow> (verb, p, h) \<in> set table \<Longrightarrow>
     path_params p path = None"
  unfolding router_laws_def by (drule spec [of _ table], drule spec [of _ verb], drule spec [of _ path]) auto

lemma router_Some:
  "router_laws R \<Longrightarrow> list_all plain_segment path \<Longrightarrow> R table verb path = Some (h, ps) \<Longrightarrow>
     \<exists>p. (verb, p, h) \<in> set table \<and> path_params p path = Some ps"
  unfolding router_laws_def by (drule spec [of _ table], drule spec [of _ verb], drule spec [of _ path]) auto

lemma routed:
  assumes "router_laws R" and "list_all plain_segment path"
    and "(verb, p, h) \<in> set api_routes" and "path_params p path = Some ps"
  shows "R api_routes verb path = Some (h, ps)"
proof (cases "R api_routes verb path")
  case None
  from router_None [OF assms(1,2) None assms(3)] assms(4) show ?thesis by simp
next
  case (Some r)
  obtain h' ps' where r: "r = (h', ps')" by fastforce
  obtain q where q: "(verb, q, h') \<in> set api_routes" "path_params q path = Some ps'"
    using router_Some [OF assms(1,2)] Some r by blast
  then have "p = q \<and> h = h'"
    using unambiguous_match [OF api_routes_unambiguous assms(3) q(1), of path] assms(4) by simp
  with q(2) assms(4) Some r show ?thesis by simp
qed

text \<open>
  C20: Which handler a request reaches does not depend on the order of the modules, controllers and
  methods: for any router that takes some matching route, a request of a verb and path reaches a
  handler with parameters exactly if a route of the verb matches the path with them, and two routes
  that match the same request are the same; in particular \<open>GET /api/jobs/statistics/summary\<close> reaches
  the statistics although \<open>GET :id\<close> is declared before it.
\<close>

theorem requests_reach_one_handler:
  assumes "router_laws R" and "list_all plain_segment path"
  shows "(R api_routes verb path = Some (h, ps) \<longleftrightarrow>
      (\<exists>p. (verb, p, h) \<in> set api_routes \<and> path_params p path = Some ps)) \<and>
    (\<forall>p q h'. (verb, p, h) \<in> set api_routes \<and> (verb, q, h') \<in> set api_routes \<and>
      path_params p path \<noteq> None \<and> path_params q path \<noteq> None \<longrightarrow> p = q \<and> h = h')"
proof (intro conjI allI impI)
  show "R api_routes verb path = Some (h, ps) \<longleftrightarrow> (\<exists>p. (verb, p, h) \<in> set api_routes \<and> path_params p path = Some ps)"
    using routed [OF assms] router_Some [OF assms] by blast
qed (use unambiguous_match [OF api_routes_unambiguous] in \<open>blast+\<close>)

definition summary_path :: "jstring list" where
  "summary_path = map js [''api'', ''jobs'', ''statistics'', ''summary'']"

theorem requests_reach_one_handler_witness:
  "first_route api_routes GET summary_path = Some (JobsController Jobs_getStatistics, [])"
proof -
  have plain: "list_all plain_segment summary_path" by (simp add: summary_path_def plain_segment_def)
  have "(GET, map Exact [''api'', ''jobs'', ''statistics'', ''summary''], JobsController Jobs_getStatistics) \<in> set api_routes"
    by code_simp
  moreover have "path_params (map Exact [''api'', ''jobs'', ''statistics'', ''summary'']) summary_path = Some []"
    by (simp add: summary_path_def)
  ultimately show ?thesis
    using requests_reach_one_handler [OF first_route_laws plain] by blast
qed

section \<open>The documented interface\<close>

text \<open>The requests that \<open>docs/API.md\<close> describes.\<close>

definition documented_api :: "(verb \<times> string) list" where
  "documented_api = [
     (POST, ''/api/auth/login''),
     (GET, ''/api/topology/organizations''), (POST, ''/api/topology/organizations''),
     (GET, ''/api/topology/organizations/:id''), (PUT, ''/api/topology/organizations/:id''),
     (DELETE, ''/api/topology/organizations/:id''), (GET, ''/api/topology/organizations/:orgId/sites''),
     (POST, ''/api/topology/sites''), (GET, ''/api/topology/sites/:siteId/sensor-groups''),
     (POST, ''/api/topology/sensor-groups''), (GET, ''/api/topology/sensor-groups/:sensorGroupId/nodes''),
     (POST, ''/api/topology/nodes''), (PUT, ''/api/topology/nodes/:id''),
     (GET, ''/api/topology/sites/:siteId/hubs''), (POST, ''/api/topology/hubs''),
     (GET, ''/api/iot-hub/devices/:deviceId/twin''), (GET, ''/api/iot-hub/devices/:deviceId/twin/reported''),
     (POST, ''/api/iot-hub/devices/:deviceId/twin/desired''), (POST, ''/api/iot-hub/devices/:deviceId/jobs''),
     (POST, ''/api/iot-hub/devices/:deviceId/topology''), (POST, ''/api/iot-hub/devices/:deviceId/policies''),
     (POST, ''/api/iot-hub/devices/:deviceId/method''), (GET, ''/api/iot-hub/devices/:deviceId/connected''),
     (POST, ''/api/iot-hub/query''), (POST, ''/api/jobs''), (GET, ''/api/jobs/:id''), (GET, ''/api/jobs''),
     (PUT, ''/api/jobs/:id/status''), (PUT, ''/api/jobs/:id/cancel''), (POST, ''/api/jobs/push-node-config''),
     (POST, ''/api/jobs/pull-node-diagnostics''), (POST, ''/api/jobs/update-hub-firmware''),
     (GET, ''/api/jobs/statistics/summary''), (POST, ''/api/jobs/cleanup'')]"

fun shape :: "segment \<Rightarrow> string option" where
  "shape (Exact s) = Some s"
| "shape (Param x) = None"

definition served :: "verb \<times> string \<Rightarrow> bool" where
  "served d = list_ex (\<lambda>(v, p, h). v = fst d \<and> map shape p = map shape (route_pattern [] (snd d))) api_routes"

text \<open>All of them have a route but two: organizations can be neither updated nor deleted.\<close>

lemma documented_api_served:
  "filter (\<lambda>d. \<not> served d) documented_api =
     [(PUT, ''/api/topology/organizations/:id''), (DELETE, ''/api/topology/organizations/:id'')]"
  by code_simp

end
