(* ===== verification/AuditTrail.thy ===== *)
theory AuditTrail
  imports TopologyStore
begin

text \<open>
  \<open>src/backend/api/src/modules/audit/entities/audit-log.entity.ts\<close>: the columns of the audit log, the
  constraints that its table has, and its indexes. No code of the repository reads or writes it, so there are no operations.
\<close>

record AuditLog =
  audit_id :: "jstring column"
  audit_userId :: "jstring column"
  audit_action :: "jstring column"
  audit_resourceType :: "jstring column"
  audit_resourceId :: "jstring column"
  audit_changes :: "jval column"
  audit_ipAddress :: "jstring column"
  audit_userAgent :: "jstring column"
  audit_reason :: "jstring column"
  audit_metadata :: "jval column"
  audit_timestamp :: "date column"

definition audit_indexes :: "string list" where
  "audit_indexes = [''userId'', ''action'', ''resourceType'', ''resourceId'', ''timestamp'']"

text \<open>What an entry names: who did what to which resource. These columns are not nullable.\<close>

definition names_action :: "AuditLog \<Rightarrow> bool" where
  "names_action e \<longleftrightarrow> has_value (audit_userId e) \<and> has_value (audit_action e) \<and>
     has_value (audit_resourceType e) \<and> has_value (audit_resourceId e)"

definition audit_logs_ok :: "AuditLog list \<Rightarrow> bool" where
  "audit_logs_ok log \<longleftrightarrow> keys_ok (map audit_id log) \<and> list_all names_action log \<and> list_all (\<lambda>e. has_value (audit_timestamp e)) log"

text \<open>
  A log takes further entries that name their action, without touching those it has; the
  resource they name need not exist, for there is no foreign key.
\<close>

lemma audit_log_grows:
  assumes "audit_logs_ok log" and "has_value (audit_timestamp e)" and "has_value (audit_id e)" and "audit_id e \<notin> audit_id ` set log"
  shows "audit_logs_ok (log @ [e]) \<longleftrightarrow> names_action e"
  using assms by (auto simp: audit_logs_ok_def keys_ok_def)

end
