(* ===== verification/Bootstrap.thy ===== *)
theory Bootstrap
  imports Routes WebApp AuditTrail
begin

text \<open>
  How the backend is put together: the modules with their controllers, providers, imports and exports
  (\<open>*.module.ts\<close>), what the constructors ask for, and the settings that \<open>main.ts\<close>, \<open>app.module.ts\<close> and
  the authentication module read of the environment. The container, the pipe and the library modules of
  the framework are parameters.
\<close>

section \<open>Modules\<close>

datatype app_module = AppModule | AuthModule | TopologyModule | DevicesModule | JobsModule | IotHubModule

datatype library_module =
    ConfigModule_forRoot
  | ConfigModule
  | TypeOrmModule_forRoot
  | TypeOrmModule_forFeature "string list"
  | PassportModule
  | JwtModule

datatype imported = Own app_module | Library library_module

text \<open>What can be injected: an instance of a class, or the repository of an entity.\<close>

datatype token = Class string | Repository string

record nest_module =
  module_imports :: "imported list"
  module_controllers :: "string list"
  module_providers :: "string list"
  module_exports :: "string list"

definition AppModule_decl :: nest_module where
  "AppModule_decl = \<lparr>
     module_imports = [Library ConfigModule_forRoot, Library TypeOrmModule_forRoot, Own AuthModule, Own TopologyModule,
       Own DevicesModule, Own JobsModule, Own IotHubModule],
     module_controllers = [], module_providers = [], module_exports = [] \<rparr>"

definition AuthModule_decl :: nest_module where
  "AuthModule_decl = \<lparr>
     module_imports = [Library PassportModule, Library JwtModule],
     module_controllers = [''AuthController''], module_providers = [''AuthService'', ''JwtStrategy''],
     module_exports = [''AuthService'', ''JwtStrategy'', ''PassportModule''] \<rparr>"

definition TopologyModule_decl :: nest_module where
  "TopologyModule_decl = \<lparr>
     module_imports = [Library (TypeOrmModule_forFeature
       [''Organization'', ''Site'', ''SensorGroup'', ''Hub'', ''Node'', ''User''])],
     module_controllers = [''TopologyController''], module_providers = [''TopologyService''],
     module_exports = [''TopologyService''] \<rparr>"

definition DevicesModule_decl :: nest_module where
  "DevicesModule_decl = \<lparr> module_imports = [], module_controllers = [], module_providers = [], module_exports = [] \<rparr>"

definition JobsModule_decl :: nest_module where
  "JobsModule_decl = \<lparr>
     module_imports = [Library (TypeOrmModule_forFeature [''Job'']), Own IotHubModule],
     module_controllers = [''JobsController''], module_providers = [''JobsService''],
     module_exports = [''JobsService''] \<rparr>"

definition IotHubModule_decl :: nest_module where
  "IotHubModule_decl = \<lparr>
     module_imports = [Library ConfigModule],
     module_controllers = [''IotHubController''], module_providers = [''IotHubService''],
     module_exports = [''IotHubService''] \<rparr>"

fun module_decl :: "app_module \<Rightarrow> nest_module" where
  "module_decl AppModule = AppModule_decl"
| "module_decl AuthModule = AuthModule_decl"
| "module_decl TopologyModule = TopologyModule_decl"
| "module_decl DevicesModule = DevicesModule_decl"
| "module_decl JobsModule = JobsModule_decl"
| "module_decl IotHubModule = IotHubModule_decl"

lemmas module_decls =
  AppModule_decl_def AuthModule_decl_def TopologyModule_decl_def DevicesModule_decl_def JobsModule_decl_def IotHubModule_decl_def

inductive loaded_module :: "app_module \<Rightarrow> bool" where
  root: "loaded_module AppModule"
| imported: "loaded_module m \<Longrightarrow> Own m' \<in> set (module_imports (module_decl m)) \<Longrightarrow> loaded_module m'"

text \<open>What the constructors of the injectable classes ask for.\<close>

definition constructor_params :: "(string \<times> token list) list" where
  "constructor_params = [
     (''AuthController'', [Class ''AuthService'']),
     (''AuthService'', [Class ''JwtService'']),
     (''JwtStrategy'', []),
     (''AzureAdStrategy'', [Class ''ConfigService'']),
     (''RolesGuard'', [Class ''Reflector'']),
     (''OrganizationGuard'', []),
     (''TopologyController'', [Class ''TopologyService'']),
     (''TopologyService'', [Repository ''Organization'', Repository ''Site'', Repository ''SensorGroup'', Repository ''Hub'', Repository ''Node'']),
     (''JobsController'', [Class ''JobsService'']),
     (''JobsService'', [Repository ''Job'', Class ''IotHubService'']),
     (''IotHubController'', [Class ''IotHubService'']),
     (''IotHubService'', [Class ''ConfigService''])]"

text \<open>
  What a class in a module can be given: what its module provides, what the modules it imports export, and
  what global modules export (\<open>ConfigModule.forRoot\<close> is declared global). The exports of the library
  modules are a parameter.
\<close>

fun exported :: "(library_module \<Rightarrow> token list) \<Rightarrow> imported \<Rightarrow> token list" where
  "exported lib (Own m) = map Class (module_exports (module_decl m))"
| "exported lib (Library l) = lib l"

definition injectable :: "(library_module \<Rightarrow> token list) \<Rightarrow> app_module \<Rightarrow> token list" where
  "injectable lib m = map Class (module_providers (module_decl m)) @
     concat (map (exported lib) (module_imports (module_decl m))) @ lib ConfigModule_forRoot"

definition library_laws :: "(library_module \<Rightarrow> token list) \<Rightarrow> bool" where
  "library_laws lib \<longleftrightarrow>
     Class ''ConfigService'' \<in> set (lib ConfigModule_forRoot) \<and> Class ''ConfigService'' \<in> set (lib ConfigModule) \<and>
     Class ''JwtService'' \<in> set (lib JwtModule) \<and>
     (\<forall>es e. e \<in> set es \<longrightarrow> Repository e \<in> set (lib (TypeOrmModule_forFeature es)))"

definition documented_library :: "library_module \<Rightarrow> token list" where
  "documented_library l = (case l of
     TypeOrmModule_forFeature es \<Rightarrow> map Repository es
   | JwtModule \<Rightarrow> [Class ''JwtService'']
   | ConfigModule \<Rightarrow> [Class ''ConfigService'']
   | ConfigModule_forRoot \<Rightarrow> [Class ''ConfigService'']
   | _ \<Rightarrow> [])"

lemma documented_library_laws: "library_laws documented_library"
  by (simp add: library_laws_def documented_library_def)

text \<open>The guards that \<open>@UseGuards\<close> names at the controllers and their handlers: all these lines are commented out.\<close>

definition controller_guards :: "(string \<times> string list) list" where
  "controller_guards = [(''AuthController'', []), (''TopologyController'', []), (''JobsController'', []), (''IotHubController'', [])]"

text \<open>
  The classes that the container creates in a module: its controllers and providers, and the guards that its
  controllers name.
\<close>

definition created_class :: "app_module \<Rightarrow> string \<Rightarrow> bool" where
  "created_class m c \<longleftrightarrow> loaded_module m \<and>
     (c \<in> set (module_controllers (module_decl m) @ module_providers (module_decl m)) \<or>
      (\<exists>(controller, guards)\<in>set controller_guards.
         controller \<in> set (module_controllers (module_decl m)) \<and> c \<in> set guards))"

fun controller_table :: "string \<Rightarrow> endpoint route list" where
  "controller_table c =
     (if c = ''AuthController'' then controller_routes AuthController_prefix AuthController AuthController_routes
      else if c = ''TopologyController'' then controller_routes TopologyController_prefix TopologyController TopologyController_routes
      else if c = ''JobsController'' then controller_routes JobsController_prefix JobsController JobsController_routes
      else if c = ''IotHubController'' then controller_routes IotHubController_prefix IotHubController IotHubController_routes
      else [])"

lemma class_params:
  "map_of constructor_params ''AuthController'' = Some [Class ''AuthService'']"
  "map_of constructor_params ''AuthService'' = Some [Class ''JwtService'']"
  "map_of constructor_params ''JwtStrategy'' = Some []"
  "map_of constructor_params ''TopologyController'' = Some [Class ''TopologyService'']"
  "map_of constructor_params ''TopologyService'' =
     Some [Repository ''Organization'', Repository ''Site'', Repository ''SensorGroup'', Repository ''Hub'', Repository ''Node'']"
  "map_of constructor_params ''JobsController'' = Some [Class ''JobsService'']"
  "map_of constructor_params ''JobsService'' = Some [Repository ''Job'', Class ''IotHubService'']"
  "map_of constructor_params ''IotHubController'' = Some [Class ''IotHubService'']"
  "map_of constructor_params ''IotHubService'' = Some [Class ''ConfigService'']"
  by (simp_all add: constructor_params_def)

lemma all_loaded: "loaded_module m"
proof -
  have "Own m \<in> set (module_imports (module_decl AppModule)) \<or> m = AppModule"
    by (cases m) (simp_all add: AppModule_decl_def)
  then show ?thesis using loaded_module.intros by blast
qed

text \<open>
  C28: The backend can be put together from its modules: every class that the modules reachable from the root
  module declare finds each of its constructor parameters among what its module provides or imports, and
  the routes of the controllers they declare, in the order of the imports, are the route table. No module
  declares the Azure AD strategy or a guard and no controller names a guard, so none of them is ever created.
\<close>

theorem application_wired:
  assumes "library_laws lib"
  shows "(created_class m c \<longrightarrow> (\<exists>ps. map_of constructor_params c = Some ps \<and> set ps \<subseteq> set (injectable lib m))) \<and>
    concat (map (\<lambda>i. case i of Own m' \<Rightarrow> concat (map controller_table (module_controllers (module_decl m'))) | Library l \<Rightarrow> [])
      (module_imports (module_decl AppModule))) = api_routes \<and>
    (\<forall>m'. \<not> created_class m' ''AzureAdStrategy'' \<and> \<not> created_class m' ''RolesGuard'' \<and> \<not> created_class m' ''OrganizationGuard'')"
proof (intro conjI impI allI)
  show "\<exists>ps. map_of constructor_params c = Some ps \<and> set ps \<subseteq> set (injectable lib m)" if "created_class m c"
    using that assms by (cases m) (auto simp: created_class_def controller_guards_def module_decls class_params injectable_def library_laws_def)
  show "concat (map (\<lambda>i. case i of Own m' \<Rightarrow> concat (map controller_table (module_controllers (module_decl m'))) | Library l \<Rightarrow> [])
      (module_imports (module_decl AppModule))) = api_routes"
    by (simp add: module_decls api_routes_def)
  show "\<not> created_class m' ''AzureAdStrategy''" "\<not> created_class m' ''RolesGuard''" "\<not> created_class m' ''OrganizationGuard''" for m'
    by (cases m'; simp add: created_class_def controller_guards_def module_decls)+
qed

theorem application_wired_witness:
  "created_class JobsModule ''JobsService'' \<and> set [Repository ''Job'', Class ''IotHubService''] \<subseteq> set (injectable documented_library JobsModule)"
proof -
  have c: "created_class JobsModule ''JobsService''" by (simp add: created_class_def all_loaded module_decls)
  with application_wired [OF documented_library_laws, of JobsModule "''JobsService''"] show ?thesis
    by (auto simp: class_params)
qed

text \<open>
  The entities that the database connection finds (\<open>**/*.entity.ts\<close>), with their tables.
\<close>

definition entity_tables :: "(string \<times> string) list" where
  "entity_tables = [(''AuditLog'', ''audit_logs''), (''Job'', ''jobs''), (''Hub'', ''hubs''), (''Node'', ''nodes''),
     (''Organization'', ''organizations''), (''SensorGroup'', ''sensor_groups''), (''Site'', ''sites''), (''User'', ''users'')]"

text \<open>
  Every repository that a class is given is one of an entity with a table; for the table of users and the
  audit log nobody asks.
\<close>

lemma repositories_used:
  "\<forall>(c, ps)\<in>set constructor_params. \<forall>e. Repository e \<in> set ps \<longrightarrow> e \<in> set (map fst entity_tables)"
  "filter (\<lambda>e. \<forall>(c, ps)\<in>set constructor_params. Repository e \<notin> set ps) (map fst entity_tables) = [''AuditLog'', ''User'']"
  by (simp_all add: constructor_params_def entity_tables_def)

section \<open>Settings\<close>

text \<open>\<open>process.env\<close>\<close>

type_synonym process_env = "string \<Rightarrow> jstring option"

text \<open>\<open>parseInt(text, 10)\<close>\<close>

definition parse_int10 :: "jstring \<Rightarrow> js_number" where
  "parse_int10 s =
     (let (neg, t) = drop_sign (dropWhile is_js_space s);
          (ds, r) = take_digits t
      in if ds = [] then NaN else round64 neg (digits_value 10 ds) 1)"

record database_options =
  db_host :: jstring
  db_port :: js_number
  db_username :: jstring
  db_password :: jstring
  db_name :: jstring
  db_synchronize :: bool
  db_logging :: bool

definition database_settings :: "process_env \<Rightarrow> database_options" where
  "database_settings env = \<lparr>
     db_host = text_or (env ''DB_HOST'') ''localhost'',
     db_port = parse_int10 (text_or (env ''DB_PORT'') ''5432''),
     db_username = text_or (env ''DB_USERNAME'') ''postgres'',
     db_password = text_or (env ''DB_PASSWORD'') ''postgres'',
     db_name = text_or (env ''DB_NAME'') ''industrial_sensor'',
     db_synchronize = (env ''NODE_ENV'' \<noteq> Some (js ''production'')),
     db_logging = (env ''NODE_ENV'' = Some (js ''development'')) \<rparr>"

text \<open>
  \<open>ConfigModule.forRoot\<close> adds the variables of the first of the two files that has them, unless they are set
  already.
\<close>

definition env_files_loaded :: "process_env \<Rightarrow> process_env \<Rightarrow> process_env \<Rightarrow> process_env \<Rightarrow> bool" where
  "env_files_loaded local_file file env env' \<longleftrightarrow>
     (\<forall>k. env' k = (case env k of Some v \<Rightarrow> Some v | None \<Rightarrow>
       (case local_file k of Some v \<Rightarrow> Some v | None \<Rightarrow> file k)))"

definition signing_secret :: "process_env \<Rightarrow> jstring" where
  "signing_secret env = text_or (env ''JWT_SECRET'') ''development-secret-change-in-production''"

definition verifying_secret :: "process_env \<Rightarrow> jstring" where
  "verifying_secret env = text_or (env ''JWT_SECRET'') ''development-secret-change-in-production''"

text \<open>
  The order in which the module files are run, each once: the files that a file imports before its own decorator (the
  import statements of every module file are in the order in which its decorator names the modules). The
  fuel is the number of module files. The library modules are called as the decorators are evaluated.
\<close>

definition imported_files :: "app_module \<Rightarrow> app_module list" where
  "imported_files m = concat (map (\<lambda>i. case i of Own m' \<Rightarrow> [m'] | Library l \<Rightarrow> []) (module_imports (module_decl m)))"

fun run_file :: "nat \<Rightarrow> app_module \<Rightarrow> app_module list \<Rightarrow> app_module list" where
  "run_file 0 m done_files = done_files"
| "run_file (Suc n) m done_files =
     (if m \<in> set done_files then done_files else fold (run_file n) (imported_files m) done_files @ [m])"

definition library_calls :: "(app_module \<times> library_module) list" where
  "library_calls = concat (map (\<lambda>m. concat (map (\<lambda>i. case i of Own m' \<Rightarrow> [] | Library l \<Rightarrow> [(m, l)])
     (module_imports (module_decl m)))) (run_file 6 AppModule []))"

text \<open>The environment that a call finds whose predecessors are given: with the files once they are loaded.\<close>

definition env_after :: "(app_module \<times> library_module) list \<Rightarrow> process_env \<Rightarrow> process_env \<Rightarrow> process_env" where
  "env_after calls env env' = (if ConfigModule_forRoot \<in> snd ` set calls then env' else env)"

definition env_at :: "app_module \<times> library_module \<Rightarrow> process_env \<Rightarrow> process_env \<Rightarrow> process_env" where
  "env_at c = env_after (takeWhile (\<lambda>c'. c' \<noteq> c) library_calls)"

record started_backend =
  token_signed_with :: jstring
  token_verified_with :: jstring
  started_database :: database_options

text \<open>
  The secret of the tokens is read when \<open>JwtModule\<close> is called, the database settings when \<open>TypeOrmModule.forRoot\<close> is; the
  strategy's constructor reads its secret when all files have been run.
\<close>

definition started :: "process_env \<Rightarrow> process_env \<Rightarrow> started_backend" where
  "started env env' = \<lparr>
     token_signed_with = signing_secret (env_at (AuthModule, JwtModule) env env'),
     token_verified_with = verifying_secret (env_after library_calls env env'),
     started_database = database_settings (env_at (AppModule, TypeOrmModule_forRoot) env env') \<rparr>"

lemma files_run: "run_file 6 AppModule [] = [AuthModule, TopologyModule, DevicesModule, IotHubModule, JobsModule, AppModule]"
  by (simp add: eval_nat_numeral imported_files_def module_decls)

lemma calls_made:
  "library_calls = [(AuthModule, PassportModule), (AuthModule, JwtModule),
     (TopologyModule, TypeOrmModule_forFeature [''Organization'', ''Site'', ''SensorGroup'', ''Hub'', ''Node'', ''User'']),
     (IotHubModule, ConfigModule), (JobsModule, TypeOrmModule_forFeature [''Job'']),
     (AppModule, ConfigModule_forRoot), (AppModule, TypeOrmModule_forRoot)]"
  by (simp add: library_calls_def files_run module_decls)

lemma envs_found:
  "env_at (AuthModule, JwtModule) env env' = env"
  "env_at (AppModule, TypeOrmModule_forRoot) env env' = env'"
  "env_after library_calls env env' = env'"
  by (simp_all add: env_at_def env_after_def calls_made)

text \<open>The options of the two strategies and of the tokens.\<close>

record jwt_options =
  jwtFromRequest :: string
  ignoreExpiration :: bool
  secretOrKey :: jstring

definition jwt_strategy_options :: "process_env \<Rightarrow> jwt_options" where
  "jwt_strategy_options env = \<lparr> jwtFromRequest = ''fromAuthHeaderAsBearerToken'', ignoreExpiration = False,
     secretOrKey = verifying_secret env \<rparr>"

record azure_options =
  clientID :: "jstring option"
  clientSecret :: "jstring option"
  callbackURL :: "jstring option"
  tenant :: "jstring option"
  resource :: jstring

definition azure_strategy_options :: "process_env \<Rightarrow> azure_options" where
  "azure_strategy_options env = \<lparr>
     clientID = env ''AZURE_AD_CLIENT_ID'',
     clientSecret = env ''AZURE_AD_CLIENT_SECRET'',
     callbackURL = env ''AZURE_AD_CALLBACK_URL'',
     tenant = env ''AZURE_AD_TENANT_ID'',
     resource = js ''https://graph.microsoft.com'' \<rparr>"

record token_options =
  token_secret :: jstring
  expiresIn :: jstring

definition token_settings :: "process_env \<Rightarrow> token_options" where
  "token_settings env = \<lparr> token_secret = signing_secret env, expiresIn = js ''1h'' \<rparr>"

record cors_settings =
  cors_origin :: jstring
  cors_credentials :: bool

definition app_cors :: "process_env \<Rightarrow> cors_settings" where
  "app_cors env = \<lparr> cors_origin = text_or (env ''WEB_APP_URL'') ''http://localhost:5173'', cors_credentials = True \<rparr>"

record pipe_settings =
  whitelist :: bool
  forbidNonWhitelisted :: bool
  transform :: bool

definition app_pipe :: pipe_settings where
  "app_pipe = \<lparr> whitelist = True, forbidNonWhitelisted = True, transform = True \<rparr>"

text \<open>\<open>process.env.PORT || 3000\<close>: a text or a number.\<close>

definition app_port :: "process_env \<Rightarrow> jval" where
  "app_port env = (if truthy_text (env ''PORT'') then JStr (the (env ''PORT'')) else JNum (num_of_int 3000))"

record document_info =
  doc_title :: string
  doc_description :: string
  doc_version :: string
  doc_bearer :: bool
  doc_tags :: "(string \<times> string) list"

definition api_document :: document_info where
  "api_document = \<lparr>
     doc_title = ''Industrial Sensor Network API'',
     doc_description = ''Backend API for managing industrial sensor nodes, hubs, and topology'',
     doc_version = ''1.0.0'',
     doc_bearer = True,
     doc_tags = [
       (''auth'', ''Authentication and authorization''),
       (''topology'', ''Organization, site, and sensor group management''),
       (''devices'', ''Hub and node device management''),
       (''jobs'', ''Job orchestration and monitoring''),
       (''templates'', ''Sensor template management'')] \<rparr>"

text \<open>
  \<open>bootstrap\<close>: the settings of the application that listens, and where it serves its documentation. It is
  created from the root module; what is logged is left out.
\<close>

record running_backend =
  created_from :: app_module
  runs_cors :: cors_settings
  runs_pipe :: pipe_settings
  docs_path :: string
  docs :: document_info
  listens_on :: jval

definition bootstrap :: "process_env \<Rightarrow> running_backend" where
  "bootstrap env = \<lparr> created_from = AppModule, runs_cors = app_cors env, runs_pipe = app_pipe,
     docs_path = ''api/docs'', docs = api_document, listens_on = app_port env \<rparr>"

text \<open>\<open>@ApiTags\<close> of the controllers.\<close>

definition controller_tags :: "(string \<times> string) list" where
  "controller_tags = [(''AuthController'', ''auth''), (''TopologyController'', ''topology''), (''JobsController'', ''jobs''),
     (''IotHubController'', ''iot-hub'')]"

text \<open>The development server of the web application: its port, and where it passes requests for \<open>/api\<close> on to.\<close>

record vite_server =
  dev_port :: nat
  dev_proxy :: "(string \<times> jstring) list"

definition dev_server :: "process_env \<Rightarrow> vite_server" where
  "dev_server env = \<lparr> dev_port = 5173, dev_proxy = [(''/api'', text_or (env ''VITE_API_URL'') ''http://localhost:3000'')] \<rparr>"

text \<open>
  What encloses the web application where \<open>main.tsx\<close> mounts it, outermost first, and the configuration of the
  login library: a template shows an unset variable as \<open>undefined\<close>.
\<close>

datatype provider = StrictMode | QueryClientProvider | ThemeProvider | BrowserRouter | AuthProvider

definition app_providers :: "provider list" where
  "app_providers = [StrictMode, QueryClientProvider, ThemeProvider, BrowserRouter]"

text \<open>The authentication context that a component below some providers reads.\<close>

definition auth_context_below :: "provider list \<Rightarrow> 'c \<Rightarrow> 'c option" where
  "auth_context_below ps c = (if AuthProvider \<in> set ps then Some c else None)"

record msal_configuration =
  clientId :: "jstring option"
  authority :: jstring
  redirectUri :: "jstring option"

definition msalConfig :: "process_env \<Rightarrow> msal_configuration" where
  "msalConfig env = \<lparr>
     clientId = env ''VITE_AZURE_AD_CLIENT_ID'',
     authority = js ''https://login.microsoftonline.com/'' @
       (case env ''VITE_AZURE_AD_TENANT_ID'' of None \<Rightarrow> js ''undefined'' | Some t \<Rightarrow> t),
     redirectUri = env ''VITE_AZURE_AD_REDIRECT_URI'' \<rparr>"

section \<open>Facts about the settings\<close>

text \<open>
  C27: The secret of the environment files does not reach the signing of tokens, because the decorator of the
  authentication module is evaluated before that of the root module loads the files: if \<open>JWT_SECRET\<close> is
  set in a file only, as the example file suggests, tokens are signed with the published default while the strategy
  verifies them with the secret of the file. Both use the same secret exactly if the variable is set in
  the environment of the process, or the files leave it at the default.
\<close>

theorem tokens_signed_with_default:
  assumes "env_files_loaded local_file file env env'"
  shows "(token_signed_with (started env env') = token_verified_with (started env env') \<longleftrightarrow>
      env ''JWT_SECRET'' \<noteq> None \<or>
      text_or (case local_file ''JWT_SECRET'' of Some v \<Rightarrow> Some v | None \<Rightarrow> file ''JWT_SECRET'')
        ''development-secret-change-in-production'' = js ''development-secret-change-in-production'') \<and>
    (env ''JWT_SECRET'' = None \<and> s \<noteq> [] \<and>
        (case local_file ''JWT_SECRET'' of Some v \<Rightarrow> Some v | None \<Rightarrow> file ''JWT_SECRET'') = Some s \<longrightarrow>
      token_signed_with (started env env') = js ''development-secret-change-in-production'' \<and>
      token_verified_with (started env env') = s)"
  using assms unfolding env_files_loaded_def
  by (auto simp: started_def envs_found signing_secret_def verifying_secret_def truthy_text_def
      split: option.splits simp del: js_simps)

theorem tokens_signed_with_default_witness:
  "\<exists>env'. env_files_loaded Map.empty [''JWT_SECRET'' \<mapsto> js ''s3cret''] Map.empty env' \<and>
     token_signed_with (started Map.empty env') = js ''development-secret-change-in-production'' \<and>
     token_verified_with (started Map.empty env') = js ''s3cret''"
proof -
  let ?env' = "[''JWT_SECRET'' \<mapsto> js ''s3cret'']"
  have l: "env_files_loaded Map.empty [''JWT_SECRET'' \<mapsto> js ''s3cret''] Map.empty ?env'"
    by (simp add: env_files_loaded_def)
  have "js ''s3cret'' \<noteq> []" by (simp add: js_simps)
  with tokens_signed_with_default [OF l, of "js ''s3cret''"] show ?thesis
    using l by (intro exI [of _ ?env']) simp
qed

text \<open>
  The database schema is synchronized in every environment but the one named production, also in an unnamed one.
\<close>

lemma synchronized_by_default:
  "env ''NODE_ENV'' \<noteq> Some (js ''production'') \<Longrightarrow> db_synchronize (database_settings env)"
  by (simp add: database_settings_def)

lemma parse_int10_decimal:
  assumes "n < 2 ^ 53"
  shows "parse_int10 (to_string 10 n) = num_of_int (int n)"
proof -
  obtain d ds where ds: "digits 10 n = d # ds" by (metis digits_nonempty neq_Nil_conv)
  have less: "\<forall>d\<in>set (digits 10 n). d < 10" using digits_less [of 10] by auto
  then have d: "unat (digit_unit d) = 48 + d" "d < 10" using ds by (simp_all add: unat_digit_unit)
  then have "\<not> is_js_space (digit_unit d)" "digit_unit d \<noteq> 43" "digit_unit d \<noteq> 45" by (auto simp: is_js_space_def Let_def)
  then have "drop_sign (dropWhile is_js_space (to_string 10 n)) = (False, to_string 10 n)"
    by (simp add: to_string_def ds drop_sign_def)
  moreover have "take_digits (to_string 10 n) = (digits 10 n, [])"
    using take_digits_append [OF less, of "[]"] by (simp add: to_string_def)
  ultimately show ?thesis using round64_nat [OF assms] by (simp add: parse_int10_def)
qed

lemma database_port:
  "env ''DB_PORT'' = Some (to_string 10 n) \<Longrightarrow> n < 2 ^ 53 \<Longrightarrow> db_port (database_settings env) = num_of_int (int n)"
  using parse_int10_decimal [of n] by (simp add: database_settings_def to_string_def)

text \<open>The names under which the deployment guide sets the database are read nowhere.\<close>

lemma guide_names_ignored:
  "database_settings (env(''DATABASE_HOST'' \<mapsto> h, ''DATABASE_NAME'' \<mapsto> n)) = database_settings env"
  by (simp add: database_settings_def)

text \<open>
  Without settings the parts find each other: the backend allows the origin of the development server, and
  the web application and the proxy ask for the port the backend listens on.
\<close>

lemma to_string_ports: "to_string 10 5173 = js ''5173''" "to_string 10 3000 = js ''3000''"
  by (simp_all add: to_string_def digits.simps digit_unit_def)

lemma defaults_agree:
  "cors_origin (app_cors Map.empty) = js ''http://localhost:'' @ to_string 10 (dev_port (dev_server Map.empty))"
  "app_port Map.empty = JNum (num_of_int (int 3000))"
  "apiUrl \<lparr> VITE_API_URL = None, web_bluetooth = b \<rparr> = js ''http://localhost:'' @ to_string 10 3000"
  "map_of (dev_proxy (dev_server Map.empty)) ''/api'' = Some (js ''http://localhost:'' @ to_string 10 3000)"
  unfolding to_string_ports
  by (simp_all add: app_cors_def app_port_def dev_server_def apiUrl_def truthy_text_def) (simp add: to_string_ports)

text \<open>
  No component of the web application can use the authentication context, and set up by the names of the example file, the
  login library has no client and no tenant.
\<close>

lemma use_auth_throws:
  "useAuth (auth_context_below app_providers c) = Inl (Error (js ''useAuth must be used within AuthProvider''))"
  by (simp add: useAuth_def auth_context_below_def app_providers_def)

lemma example_names_ignored:
  "msalConfig [''VITE_AZURE_CLIENT_ID'' \<mapsto> c, ''VITE_AZURE_TENANT_ID'' \<mapsto> t, ''VITE_AZURE_REDIRECT_URI'' \<mapsto> u] =
     \<lparr> clientId = None, authority = js ''https://login.microsoftonline.com/undefined'', redirectUri = None \<rparr>"
  by (simp add: msalConfig_def)

text \<open>The tag of the IoT hub controller is described nowhere, and two described tags have no controller.\<close>

lemma undescribed_tags:
  "filter (\<lambda>t. t \<notin> set (map fst (doc_tags api_document))) (map snd controller_tags) = [''iot-hub'']"
  "filter (\<lambda>t. t \<notin> set (map snd controller_tags)) (map fst (doc_tags api_document)) = [''devices'', ''templates'']"
  by (simp_all add: api_document_def controller_tags_def)

end
