(* ===== verification/WebRequests.thy ===== *)
theory WebRequests
  imports Routes WizardBackend TopologyPage
begin

text \<open>
  Where the requests of the web application arrive at the backend: the paths of the URLs that the
  topology page and the commissioning wizard build, and the handlers they reach.
\<close>

section \<open>URLs\<close>

text \<open>
  The path of a URL of the backend, which is served at the origin \<open>apiUrl\<close>, as the segments that the
  router sees: the text behind the origin begins with a slash, and one at its end does not count.
\<close>

definition path_of :: "jstring \<Rightarrow> jstring list" where
  "path_of p = (case split_at 0x2F p of
     [] \<Rightarrow> []
   | s # ss \<Rightarrow> if ss \<noteq> [] \<and> last ss = [] then butlast ss else ss)"

definition request_path :: "web_env \<Rightarrow> jstring \<Rightarrow> jstring list" where
  "request_path env url = path_of (drop (length (apiUrl env)) url)"

lemma split_plain: "plain_segment s \<Longrightarrow> split_at 0x2F s = [s]"
  by (rule split_at_fresh) (auto simp: plain_segment_def list_all_iff)

lemma split_plain_slash: "plain_segment s \<Longrightarrow> split_at 0x2F (s @ 0x2F # p) = s # split_at 0x2F p"
  by (rule split_at_append) (auto simp: plain_segment_def list_all_iff)

text \<open>
  Keys that stand in a URL as they are: without the characters that the browser's URL parser rewrites or
  drops, and not the names of this and the parent directory.
\<close>

definition url_segment :: "jstring \<Rightarrow> bool" where
  "url_segment t \<longleftrightarrow> plain_segment t \<and> t \<notin> {js ''.'', js ''..''} \<and>
     list_all (\<lambda>u. u \<notin> {0x09, 0x0A, 0x0D, 0x5C} \<and> (u < 0xD800 \<or> 0xDFFF < u)) t"

lemma url_plain [simp]: "url_segment t \<Longrightarrow> plain_segment t"
  by (simp add: url_segment_def)

section \<open>The requests of the topology page\<close>

fun call_verb :: "page_call \<Rightarrow> verb" where
  "call_verb GetOrganizations = GET"
| "call_verb (GetSites i) = GET"
| "call_verb (GetSensorGroups i) = GET"
| "call_verb (CreateOrganization fd) = POST"
| "call_verb (CreateSite fd i) = POST"
| "call_verb (CreateSensorGroup fd i) = POST"

text \<open>The handler each request is meant for, with its parameters.\<close>

fun call_endpoint :: "page_call \<Rightarrow> topology_endpoint" where
  "call_endpoint GetOrganizations = Topology_getOrganizations"
| "call_endpoint (GetSites i) = Topology_getSitesByOrganization"
| "call_endpoint (GetSensorGroups i) = Topology_getSensorGroupsBySite"
| "call_endpoint (CreateOrganization fd) = Topology_createOrganization"
| "call_endpoint (CreateSite fd i) = Topology_createSite"
| "call_endpoint (CreateSensorGroup fd i) = Topology_createSensorGroup"

fun call_params :: "page_call \<Rightarrow> (string \<times> jstring) list" where
  "call_params (GetSites i) = [(''orgId'', i)]"
| "call_params (GetSensorGroups i) = [(''siteId'', i)]"
| "call_params c = []"

fun plain_call :: "page_call \<Rightarrow> bool" where
  "plain_call (GetSites i) = url_segment i"
| "plain_call (GetSensorGroups i) = url_segment i"
| "plain_call c = True"

fun call_pattern :: "page_call \<Rightarrow> segment list" where
  "call_pattern (GetSites i) = [Exact ''api'', Exact ''topology'', Exact ''organizations'', Param ''orgId'', Exact ''sites'']"
| "call_pattern (GetSensorGroups i) = [Exact ''api'', Exact ''topology'', Exact ''sites'', Param ''siteId'', Exact ''sensor-groups'']"
| "call_pattern (CreateSite fd i) = [Exact ''api'', Exact ''topology'', Exact ''sites'']"
| "call_pattern (CreateSensorGroup fd i) = [Exact ''api'', Exact ''topology'', Exact ''sensor-groups'']"
| "call_pattern c = [Exact ''api'', Exact ''topology'', Exact ''organizations'']"

fun call_path :: "page_call \<Rightarrow> jstring list" where
  "call_path (GetSites i) = [js ''api'', js ''topology'', js ''organizations'', i, js ''sites'']"
| "call_path (GetSensorGroups i) = [js ''api'', js ''topology'', js ''sites'', i, js ''sensor-groups'']"
| "call_path (CreateSite fd i) = [js ''api'', js ''topology'', js ''sites'']"
| "call_path (CreateSensorGroup fd i) = [js ''api'', js ''topology'', js ''sensor-groups'']"
| "call_path c = [js ''api'', js ''topology'', js ''organizations'']"

lemma plain_literals:
  "plain_segment (js ''api'')" "plain_segment (js ''topology'')" "plain_segment (js ''organizations'')"
  "plain_segment (js ''sites'')" "plain_segment (js ''sensor-groups'')" "plain_segment (js ''nodes'')"
  "plain_segment (js ''hubs'')"
  by (simp_all add: plain_segment_def)

lemma js_append: "js (s @ t) = js s @ js t"
  by simp

lemma literal_paths:
  "js ''/api/topology/organizations'' = 0x2F # js ''api'' @ 0x2F # js ''topology'' @ 0x2F # js ''organizations''"
  "js ''/api/topology/sites'' = 0x2F # js ''api'' @ 0x2F # js ''topology'' @ 0x2F # js ''sites''"
  "js ''/api/topology/sensor-groups'' = 0x2F # js ''api'' @ 0x2F # js ''topology'' @ 0x2F # js ''sensor-groups''"
  "js ''/api/topology/nodes'' = 0x2F # js ''api'' @ 0x2F # js ''topology'' @ 0x2F # js ''nodes''"
  "js ''/api/topology/hubs'' = 0x2F # js ''api'' @ 0x2F # js ''topology'' @ 0x2F # js ''hubs''"
  "js ''/api/topology/organizations/'' = 0x2F # js ''api'' @ 0x2F # js ''topology'' @ 0x2F # js ''organizations'' @ [0x2F]"
  "js ''/api/topology/sites/'' = 0x2F # js ''api'' @ 0x2F # js ''topology'' @ 0x2F # js ''sites'' @ [0x2F]"
  "js ''/sites'' = 0x2F # js ''sites''" "js ''/sensor-groups'' = 0x2F # js ''sensor-groups''"
  by simp_all

lemma split_slash: "split_at 0x2F (0x2F # p) = [] # split_at 0x2F p"
  by simp

lemma page_request_path:
  assumes "plain_call c"
  shows "request_path env (call_url env c) = call_path c"
  using assms
  by (cases c) (simp_all add: request_path_def path_of_def literal_paths split_slash split_plain_slash split_plain plain_literals
      del: js_simps split_at.simps)

lemma call_path_plain: "plain_call c \<Longrightarrow> list_all plain_segment (call_path c)"
  by (cases c) (simp_all add: plain_literals del: js_simps)

lemma call_path_matches: "path_params (call_pattern c) (call_path c) = Some (call_params c)"
  by (cases c) simp_all

lemma call_route: "(call_verb c, call_pattern c, TopologyController (call_endpoint c)) \<in> set api_routes"
proof -
  have "(call_verb c, call_pattern c, TopologyController (call_endpoint c)) \<in>
      set (controller_routes TopologyController_prefix TopologyController TopologyController_routes)"
    by (cases c) (simp_all add: controller_routes_def TopologyController_prefix_def TopologyController_routes_def route_pattern_def)
  then show ?thesis by (simp add: api_routes_def)
qed

lemma page_call_routed:
  assumes "router_laws R" and "plain_call c"
  shows "R api_routes (call_verb c) (request_path env (call_url env c)) =
    Some (TopologyController (call_endpoint c), call_params c)"
  unfolding page_request_path [OF assms(2)]
  by (rule routed [OF assms(1) call_path_plain [OF assms(2)] call_route call_path_matches])

section \<open>The posts of the wizard\<close>

lemma wizard_post_path:
  "request_path env (fst (save_request env m info cfg)) =
     [js ''api'', js ''topology'', if m = NodeMode then js ''nodes'' else js ''hubs'']"
  by (simp add: save_request_def request_path_def path_of_def literal_paths split_slash split_plain_slash split_plain plain_literals
      del: js_simps split_at.simps)

lemma wizard_post_routed:
  assumes "router_laws R"
  shows "R api_routes POST (request_path env (fst (save_request env m info cfg))) =
    Some (TopologyController (if m = NodeMode then Topology_createNode else Topology_createHub), [])"
  unfolding wizard_post_path
proof (rule routed [OF assms])
  let ?p = "[Exact ''api'', Exact ''topology'', Exact (if m = NodeMode then ''nodes'' else ''hubs'')]"
  show "list_all plain_segment [js ''api'', js ''topology'', if m = NodeMode then js ''nodes'' else js ''hubs'']"
    by (simp add: plain_literals del: js_simps)
  show "(POST, ?p, TopologyController (if m = NodeMode then Topology_createNode else Topology_createHub)) \<in> set api_routes"
    by (simp add: api_routes_def controller_routes_def TopologyController_prefix_def TopologyController_routes_def route_pattern_def)
  show "path_params ?p [js ''api'', js ''topology'', if m = NodeMode then js ''nodes'' else js ''hubs''] = Some []"
    by simp
qed

text \<open>
  C12: The web application and the backend agree on the interface: every request that the topology page
  can make for keys that a URL carries unchanged (no reserved or rewritten characters, no dot segment), and every post of the commissioning wizard in
  every reachable state, reaches the handler it is meant for, with the key as the parameter of the
  handler, whatever router the framework uses and at whatever origin the backend is served.
\<close>

theorem web_requests_routed:
  assumes "router_laws R"
  shows "(plain_call c \<longrightarrow> R api_routes (call_verb c) (request_path env (call_url env c)) =
      Some (TopologyController (call_endpoint c), call_params c)) \<and>
    (wizard_reachable env m s \<and> r \<in> set (posted s) \<longrightarrow> R api_routes POST (request_path env (fst r)) =
      Some (TopologyController (if m = NodeMode then Topology_createNode else Topology_createHub), []))"
  using page_call_routed [OF assms] posted_requests [of env m s] wizard_post_routed [OF assms] by metis

theorem web_requests_routed_witness:
  "first_route api_routes GET (request_path sample_env (call_url sample_env (GetSites (js ''org-1'')))) =
     Some (TopologyController Topology_getSitesByOrganization, [(''orgId'', js ''org-1'')]) \<and>
   (\<exists>r. posted (sample_saving HubMode) = [r] \<and>
     first_route api_routes POST (request_path sample_env (fst r)) = Some (TopologyController Topology_createHub, []))"
proof -
  obtain r where r: "posted (sample_saving HubMode) = [r]"
    by (simp add: sample_saving_def at_step_def new_wizard_def saveConfiguration_def start_call_def Let_def)
  have "plain_call (GetSites (js ''org-1''))" by (simp add: url_segment_def plain_segment_def)
  then show ?thesis
    using web_requests_routed [OF first_route_laws, of "GetSites (js ''org-1'')" sample_env HubMode "sample_saving HubMode" r]
      sample_saving [of HubMode] r by simp
qed

end
