(* ===== verification/TopologySystem.thy ===== *)
theory TopologySystem
  imports WebRequests TopologyLoads
begin

text \<open>
  The topology page in front of the backend: its requests are routed to the topology controller,
  which reads and writes the database, and its answers arrive at the page. The effect of every call
  on the database and the page, as \<open>call_effect\<close>.
\<close>

section \<open>What the page reads of the entities\<close>

text \<open>A column of an answer as the page reads it: \<open>null\<close> or missing text renders as nothing.\<close>

definition col_text :: "jstring column \<Rightarrow> jstring" where
  "col_text c = (case c of Value s \<Rightarrow> s | _ \<Rightarrow> [])"

definition col_opt :: "'a column \<Rightarrow> 'a option" where
  "col_opt c = (case c of Value a \<Rightarrow> Some a | _ \<Rightarrow> None)"

definition org_view :: "'a organization_row_scheme \<Rightarrow> page_org" where
  "org_view e = \<lparr> porg_id = col_text (org_id e), porg_name = col_text (org_name e),
     porg_description = col_text (org_description e) \<rparr>"

definition node_view :: "'a node_row_scheme \<Rightarrow> page_node" where
  "node_view e = \<lparr> pnode_id = col_text (node_id e), pnode_nodeId = col_text (node_nodeId e),
     pnode_status = col_text (node_status e), pnode_batteryPercent = col_opt (node_batteryPercent e),
     pnode_lastReading = col_opt (node_lastReading e) \<rparr>"

definition hub_view :: "'a hub_row_scheme \<Rightarrow> page_hub" where
  "hub_view e = \<lparr> phub_id = col_text (hub_id e), phub_deviceId = col_text (hub_deviceId e),
     phub_status = col_text (hub_status e),
     phub_lastSeen = map_option (\<lambda>t. JStr (toISOString t)) (col_opt (hub_lastSeen e)) \<rparr>"

text \<open>A row without its relations.\<close>

definition group_view :: "'a sensor_group_row_scheme \<Rightarrow> page_group" where
  "group_view e = \<lparr> pgroup_id = col_text (group_id e), pgroup_name = col_text (group_name e),
     pgroup_siteId = col_text (group_siteId e), pgroup_nodes = None \<rparr>"

definition site_view :: "'a site_row_scheme \<Rightarrow> page_site" where
  "site_view e = \<lparr> psite_id = col_text (site_id e), psite_name = col_text (site_name e),
     psite_organizationId = col_text (site_organizationId e), psite_sensorGroups = None, psite_hubs = None \<rparr>"

text \<open>Relations to many arrive as arrays in no particular order.\<close>

definition nested :: "('r \<Rightarrow> 'p) \<Rightarrow> 'r multiset option \<Rightarrow> 'p list option \<Rightarrow> bool" where
  "nested f M xs \<longleftrightarrow> map_option mset xs = map_option (image_mset f) M"

definition group_arrives :: "SensorGroup \<Rightarrow> page_group \<Rightarrow> bool" where
  "group_arrives e g \<longleftrightarrow> g \<lparr> pgroup_nodes := None \<rparr> = group_view e \<and> nested node_view (group_nodes e) (pgroup_nodes g)"

definition site_arrives :: "Site \<Rightarrow> page_site \<Rightarrow> bool" where
  "site_arrives e p \<longleftrightarrow> p \<lparr> psite_sensorGroups := None, psite_hubs := None \<rparr> = site_view e \<and>
     nested group_view (site_sensorGroups e) (psite_sensorGroups p) \<and> nested hub_view (site_hubs e) (psite_hubs p)"

section \<open>What the backend makes of the posted bodies\<close>

definition organization_entity :: "jval \<Rightarrow> Organization" where
  "organization_entity j = organization_row.extend (no_organization \<lparr>
     org_name := text_column (property j ''name''), org_description := text_column (property j ''description'') \<rparr>)
     (Organization.fields None None)"

definition site_entity :: "jval \<Rightarrow> Site" where
  "site_entity j = site_row.extend (no_site \<lparr>
     site_name := text_column (property j ''name''), site_description := text_column (property j ''description''),
     site_organizationId := text_column (property j ''organizationId'') \<rparr>) (Site.fields Undefined None None)"

definition sensor_group_entity :: "jval \<Rightarrow> SensorGroup" where
  "sensor_group_entity j = sensor_group_row.extend (no_sensor_group \<lparr>
     group_name := text_column (property j ''name''), group_description := text_column (property j ''description''),
     group_siteId := text_column (property j ''siteId'') \<rparr>) (SensorGroup.fields Undefined None)"

section \<open>The system\<close>

text \<open>The answer of a call: rejected calls become failed requests.\<close>

inductive endpoint_answers ::
  "'w TopologyService \<Rightarrow> topology_endpoint \<Rightarrow> (string \<times> jstring) list \<Rightarrow> jval option \<Rightarrow> 'w \<Rightarrow> page_outcome \<Rightarrow> 'w \<Rightarrow> bool"
  for svc :: "'w TopologyService" where
  organizations: "TopologyController_getOrganizations svc w = (Inr es, w') \<Longrightarrow>
    endpoint_answers svc Topology_getOrganizations ps b w (Organizations (map org_view es)) w'"
| no_organizations: "TopologyController_getOrganizations svc w = (Inl e, w') \<Longrightarrow>
    endpoint_answers svc Topology_getOrganizations ps b w (Failed e') w'"
| sites: "map_of ps ''orgId'' = Some i \<Longrightarrow> TopologyController_getSitesByOrganization svc i w = (Inr es, w') \<Longrightarrow>
    list_all2 site_arrives es ss \<Longrightarrow> endpoint_answers svc Topology_getSitesByOrganization ps b w (Sites ss) w'"
| no_sites: "map_of ps ''orgId'' = Some i \<Longrightarrow> TopologyController_getSitesByOrganization svc i w = (Inl e, w') \<Longrightarrow>
    endpoint_answers svc Topology_getSitesByOrganization ps b w (Failed e') w'"
| groups: "map_of ps ''siteId'' = Some i \<Longrightarrow> TopologyController_getSensorGroupsBySite svc i w = (Inr es, w') \<Longrightarrow>
    list_all2 group_arrives es gs \<Longrightarrow> endpoint_answers svc Topology_getSensorGroupsBySite ps b w (SensorGroups gs) w'"
| no_groups: "map_of ps ''siteId'' = Some i \<Longrightarrow> TopologyController_getSensorGroupsBySite svc i w = (Inl e, w') \<Longrightarrow>
    endpoint_answers svc Topology_getSensorGroupsBySite ps b w (Failed e') w'"
| new_organization: "b = Some j \<Longrightarrow> TopologyController_createOrganization svc (organization_entity j) w = (Inr x, w') \<Longrightarrow>
    endpoint_answers svc Topology_createOrganization ps b w Created w'"
| no_new_organization: "b = Some j \<Longrightarrow> TopologyController_createOrganization svc (organization_entity j) w = (Inl e, w') \<Longrightarrow>
    endpoint_answers svc Topology_createOrganization ps b w (Failed e') w'"
| new_site: "b = Some j \<Longrightarrow> TopologyController_createSite svc (site_entity j) w = (Inr y, w') \<Longrightarrow>
    endpoint_answers svc Topology_createSite ps b w Created w'"
| no_new_site: "b = Some j \<Longrightarrow> TopologyController_createSite svc (site_entity j) w = (Inl e, w') \<Longrightarrow>
    endpoint_answers svc Topology_createSite ps b w (Failed e') w'"
| new_group: "b = Some j \<Longrightarrow> TopologyController_createSensorGroup svc (sensor_group_entity j) w = (Inr z, w') \<Longrightarrow>
    endpoint_answers svc Topology_createSensorGroup ps b w Created w'"
| no_new_group: "b = Some j \<Longrightarrow> TopologyController_createSensorGroup svc (sensor_group_entity j) w = (Inl e, w') \<Longrightarrow>
    endpoint_answers svc Topology_createSensorGroup ps b w (Failed e') w'"

text \<open>The body of a request as the backend parses it.\<close>

definition body_arrives :: "jval option \<Rightarrow> jval option \<Rightarrow> bool" where
  "body_arrives b b' \<longleftrightarrow> (case b of None \<Rightarrow> b' = None | Some j \<Rightarrow> b' \<noteq> None \<and> b' = json_parse (stringify j))"

definition backend_answers ::
  "router \<Rightarrow> web_env \<Rightarrow> 'w TopologyService \<Rightarrow> page_call \<Rightarrow> 'w \<Rightarrow> page_outcome \<Rightarrow> 'w \<Rightarrow> bool" where
  "backend_answers R env svc c w r w' \<longleftrightarrow>
     (case R api_routes (call_verb c) (request_path env (call_url env c)) of
        Some (TopologyController ep, ps) \<Rightarrow>
          \<exists>b. body_arrives (call_body c) b \<and> endpoint_answers svc ep ps b w r w'
      | _ \<Rightarrow> w' = w \<and> (\<exists>e. r = Failed e))"

text \<open>
  Runs of the page in front of the backend, with the backend's database changed by the page only,
  and keys that can stand in a URL (generated UUIDs): the user does anything that the page offers, at any time, and
  the answers come in the order of the requests. The first argument records whether the user has so far
  left the page alone while a creation was pending.
\<close>

definition plain_keys :: "tables \<Rightarrow> bool" where
  "plain_keys T \<longleftrightarrow> list_all (\<lambda>r. url_segment (col_text (org_id r))) (tables.organizations T) \<and>
     list_all (\<lambda>r. url_segment (col_text (site_id r))) (tables.sites T)"

definition creation_pending :: "topology_page \<Rightarrow> bool" where
  "creation_pending s \<longleftrightarrow> (\<exists>c\<in>set (in_flight s). call_body c \<noteq> None)"

inductive page_system ::
  "router \<Rightarrow> web_env \<Rightarrow> 'w TopologyService \<Rightarrow> ('w \<Rightarrow> tables) \<Rightarrow> bool \<Rightarrow> topology_page \<Rightarrow> 'w \<Rightarrow> bool"
  for R :: router and env :: web_env and svc :: "'w TopologyService" and db :: "'w \<Rightarrow> tables" where
  opened: "plain_keys (db w) \<Longrightarrow> page_system R env svc db True new_page w"
| acts: "page_system R env svc db calm s w \<Longrightarrow> page_step s (User e) = Some s' \<Longrightarrow>
    page_system R env svc db (calm \<and> \<not> creation_pending s) s' w"
| answered: "page_system R env svc db calm s w \<Longrightarrow> in_flight s = c # cs \<Longrightarrow> backend_answers R env svc c w r w' \<Longrightarrow>
    plain_keys (db w') \<Longrightarrow> page_step s (Settle 0 r) = Some s' \<Longrightarrow> page_system R env svc db calm s' w'"

section \<open>What is relied on\<close>

text \<open>
  Beyond the laws of the repositories: entities that the columns cannot hold are rejected, no criteria
  and the key of a row are criteria that the database can compare.
\<close>

definition page_laws :: "'w TopologyService \<Rightarrow> column_checks \<Rightarrow> ('w \<Rightarrow> tables) \<Rightarrow> bool" where
  "page_laws svc F db \<longleftrightarrow> topology_laws svc F db \<and>
     misfits_rejected (organizationRepository svc) organization_schema (fit_organization F) db \<and>
     misfits_rejected (siteRepository svc) site_schema (fit_site F) db \<and>
     misfits_rejected (sensorGroupRepository svc) sensor_group_schema (fit_sensor_group F) db \<and>
     fit_organization F no_organization \<and>
     (\<forall>w i. Value i \<in> org_id ` set (tables.organizations (db w)) \<longrightarrow> fit_site F (no_site \<lparr> site_organizationId := Value i \<rparr>)) \<and>
     (\<forall>w i. Value i \<in> site_id ` set (tables.sites (db w)) \<longrightarrow> fit_sensor_group F (no_sensor_group \<lparr> group_siteId := Value i \<rparr>))"

context table_store begin

lemma save_creates:
  assumes "misfits_rejected R S fits db" and "no_relations S e" and "row_id S (columns S e) = Undefined"
    and "list_all has_value (map (row_id S) (rows_of S (db w)))" and "ent_save R e w = (res, w')"
  shows "(\<exists>x i t. res = Inr x \<and> db w' = with_rows S (rows_of S (db w) @ [inserted S i t e]) (db w)) \<or>
    (\<exists>err. res = Inl err \<and> db w' = db w)"
proof (cases "fits (columns S e)")
  case False
  with assms(1,5) show ?thesis unfolding misfits_rejected_def by (metis prod.inject)
next
  case True
  have "\<not> known_key S (db w) (row_id S (columns S e))"
    using assms(3,4) by (auto simp: known_key_def list_all_iff)
  moreover have "row_id S (columns S e) \<noteq> Null" using assms(3) by simp
  ultimately obtain i t where
    "written res (db w) (with_rows S (rows_of S (db w) @ [inserted S i t e]) (db w)) (db w')
      (\<lambda>e'. row_patch S (columns S e') (inserted S i t e) = inserted S i t e)"
    using save_new [OF True assms(2)] assms(5) by (metis prod.inject)
  then show ?thesis by (cases res) (auto simp: written_def split: if_splits)
qed

end

section \<open>What is shown\<close>

definition orgs_shown :: "tables \<Rightarrow> page_org list \<Rightarrow> bool" where
  "orgs_shown T os \<longleftrightarrow> mset os = image_mset org_view (mset (tables.organizations T))"

text \<open>What the lists render of a site (but for the number of its sensor groups) and of a sensor group.\<close>

definition site_line :: "page_site \<Rightarrow> jstring \<times> jstring \<times> nat" where
  "site_line p = (psite_id p, psite_name p, length_or_0 (psite_hubs p))"

definition site_row_line :: "tables \<Rightarrow> site_row \<Rightarrow> jstring \<times> jstring \<times> nat" where
  "site_row_line T r = (col_text (site_id r), col_text (site_name r),
     size (filter_mset (\<lambda>h. hub_siteId h = site_id r) (mset (tables.hubs T))))"

definition sites_shown :: "tables \<Rightarrow> jstring \<Rightarrow> page_site list \<Rightarrow> bool" where
  "sites_shown T i ss \<longleftrightarrow> image_mset site_line (mset ss) =
     image_mset (site_row_line T) (filter_mset (\<lambda>r. site_organizationId r = Value i) (mset (tables.sites T)))"

definition group_line :: "page_group \<Rightarrow> jstring \<times> jstring \<times> nat" where
  "group_line g = (pgroup_id g, pgroup_name g, length_or_0 (pgroup_nodes g))"

definition group_row_line :: "tables \<Rightarrow> sensor_group_row \<Rightarrow> jstring \<times> jstring \<times> nat" where
  "group_row_line T r = (col_text (group_id r), col_text (group_name r),
     size (filter_mset (\<lambda>n. node_sensorGroupId n = group_id r) (mset (tables.nodes T))))"

definition groups_shown :: "tables \<Rightarrow> jstring \<Rightarrow> page_group list \<Rightarrow> bool" where
  "groups_shown T i gs \<longleftrightarrow> image_mset group_line (mset gs) =
     image_mset (group_row_line T) (filter_mset (\<lambda>r. group_siteId r = Value i) (mset (sensor_groups T)))"

lemma nested_length: "nested f (Some M) xs \<Longrightarrow> length_or_0 xs = size M"
  by (cases xs) (auto simp: nested_def length_or_0_def simp flip: size_mset)

lemma arrives_list:
  assumes "list_all2 P es xs" and "\<And>e x. e \<in> set es \<Longrightarrow> P e x \<Longrightarrow> f x = g e"
  shows "image_mset f (mset xs) = image_mset g (mset es)"
  using assms by (induction rule: list_all2_induct) auto

lemma site_arrives_line:
  assumes "site_arrives (load site_schema [''sensorGroups'', ''hubs''] T r) p"
  shows "site_line p = site_row_line T r"
proof -
  let ?e = "load site_schema [''sensorGroups'', ''hubs''] T r"
  have "psite_id p = col_text (site_id r)" "psite_name p = col_text (site_name r)"
    using assms by (cases p; simp add: site_arrives_def site_view_def site_schema_def site_row.defs Site.defs)+
  moreover have "site_hubs ?e = Some (filter_mset (\<lambda>h. hub_siteId h = site_id r) (mset (tables.hubs T)))"
    by (simp add: to_many_def)
  then have "length_or_0 (psite_hubs p) = size (filter_mset (\<lambda>h. hub_siteId h = site_id r) (mset (tables.hubs T)))"
    using assms nested_length unfolding site_arrives_def by metis
  ultimately show ?thesis by (simp add: site_line_def site_row_line_def)
qed

lemma group_arrives_line:
  assumes "group_arrives (load sensor_group_schema [''nodes''] T r) g"
  shows "group_line g = group_row_line T r"
proof -
  let ?e = "load sensor_group_schema [''nodes''] T r"
  have "pgroup_id g = col_text (group_id r)" "pgroup_name g = col_text (group_name r)"
    using assms by (cases g; simp add: group_arrives_def group_view_def sensor_group_schema_def sensor_group_row.defs SensorGroup.defs)+
  moreover have "group_nodes ?e = Some (filter_mset (\<lambda>n. node_sensorGroupId n = group_id r) (mset (tables.nodes T)))"
    by (simp add: to_many_def sensor_group_schema_def sensor_group_row.defs SensorGroup.defs)
  then have "length_or_0 (pgroup_nodes g) = size (filter_mset (\<lambda>n. node_sensorGroupId n = group_id r) (mset (tables.nodes T)))"
    using assms nested_length unfolding group_arrives_def by metis
  ultimately show ?thesis by (simp add: group_line_def group_row_line_def)
qed

section \<open>Answers\<close>

lemma load_views [simp]:
  "org_view (load organization_schema rels T r) = org_view r"
  by (simp add: org_view_def organization_schema_def organization_row.defs Organization.defs)

lemma truncate_site [simp]: "site_row.truncate (load site_schema rels T r) = r"
  by (simp add: site_schema_def site_row.defs Site.defs)

lemma entity_shapes:
  "no_relations organization_schema (organization_entity j)" "org_id (columns organization_schema (organization_entity j)) = Undefined"
  "no_relations site_schema (site_entity j)" "site_id (columns site_schema (site_entity j)) = Undefined"
  "no_relations sensor_group_schema (sensor_group_entity j)" "group_id (columns sensor_group_schema (sensor_group_entity j)) = Undefined"
  by (simp_all add: organization_schema_def site_schema_def sensor_group_schema_def organization_entity_def site_entity_def
      sensor_group_entity_def organization_row.defs Organization.defs site_row.defs Site.defs sensor_group_row.defs
      SensorGroup.defs no_organization_def no_site_def no_sensor_group_def)

lemma keys_have_values:
  "consistent T \<Longrightarrow> list_all has_value (map org_id (tables.organizations T))"
  "consistent T \<Longrightarrow> list_all has_value (map site_id (tables.sites T))"
  "consistent T \<Longrightarrow> list_all has_value (map group_id (sensor_groups T))"
  by (simp_all add: consistent_def organizations_ok_def sites_ok_def sensor_groups_ok_def keys_ok_def)

context topology begin

lemma read_organizations:
  assumes "fit_organization F no_organization"
  shows "\<exists>es. findAllOrganizations svc w = (Inr es, w) \<and> orgs_shown (db w) (map org_view es)"
proof -
  have all: "row_matches organization_schema no_organization = (\<lambda>_. True)" "rows_of organization_schema = tables.organizations"
    by (simp_all add: organization_schema_def organization_matches_def no_organization_def fun_eq_iff)
  obtain es where "ent_find (organizationRepository svc) no_organization [''sites''] w = (Inr es, w)"
    "mset es = image_mset (load organization_schema [''sites''] (db w)) (mset (tables.organizations (db w)))"
    using organization.find_law [OF assms, of "[''sites'']" w] unfolding all by auto
  then show ?thesis by (simp add: findAllOrganizations_def orgs_shown_def multiset.map_comp comp_def)
qed

lemma read_sites:
  assumes "fit_site F (no_site \<lparr> site_organizationId := Value i \<rparr>)"
  shows "\<exists>es. findSitesByOrganization svc i w = (Inr es, w) \<and> (\<forall>ss. list_all2 site_arrives es ss \<longrightarrow> sites_shown (db w) i ss)"
proof -
  let ?c = "no_site \<lparr> site_organizationId := Value i \<rparr>"
  let ?load = "load site_schema [''sensorGroups'', ''hubs''] (db w)"
  have all: "row_matches site_schema ?c = (\<lambda>r. site_organizationId r = Value i)" "rows_of site_schema = tables.sites"
    by (simp_all add: site_schema_def site_matches_def no_site_def fun_eq_iff)
  obtain es where es: "ent_find (siteRepository svc) ?c [''sensorGroups'', ''hubs''] w = (Inr es, w)"
    "mset es = image_mset ?load (filter_mset (\<lambda>r. site_organizationId r = Value i) (mset (tables.sites (db w))))"
    using site.find_law [OF assms, of "[''sensorGroups'', ''hubs'']" w] unfolding all by auto
  have "sites_shown (db w) i ss" if l: "list_all2 site_arrives es ss" for ss
  proof -
    have "image_mset site_line (mset ss) = image_mset (\<lambda>e. site_row_line (db w) (site_row.truncate e)) (mset es)"
    proof (rule arrives_list [OF l])
      fix e p
      assume "e \<in> set es" "site_arrives e p"
      then have "e \<in># image_mset ?load (filter_mset (\<lambda>r. site_organizationId r = Value i) (mset (tables.sites (db w))))"
        unfolding es(2) [symmetric] by simp
      then obtain r where "e = ?load r" by auto
      with site_arrives_line [of "db w" r p] \<open>site_arrives e p\<close>
      show "site_line p = site_row_line (db w) (site_row.truncate e)"
        by simp
    qed
    then show ?thesis by (simp add: sites_shown_def es(2) multiset.map_comp comp_def)
  qed
  with es(1) show ?thesis by (simp add: findSitesByOrganization_def)
qed

lemma read_groups:
  assumes "fit_sensor_group F (no_sensor_group \<lparr> group_siteId := Value i \<rparr>)"
  shows "\<exists>es. findSensorGroupsBySite svc i w = (Inr es, w) \<and> (\<forall>gs. list_all2 group_arrives es gs \<longrightarrow> groups_shown (db w) i gs)"
proof -
  let ?c = "no_sensor_group \<lparr> group_siteId := Value i \<rparr>"
  let ?load = "load sensor_group_schema [''nodes''] (db w)"
  have all: "row_matches sensor_group_schema ?c = (\<lambda>r. group_siteId r = Value i)" "rows_of sensor_group_schema = sensor_groups"
    by (simp_all add: sensor_group_schema_def sensor_group_matches_def no_sensor_group_def fun_eq_iff)
  obtain es where es: "ent_find (sensorGroupRepository svc) ?c [''nodes''] w = (Inr es, w)"
    "mset es = image_mset ?load (filter_mset (\<lambda>r. group_siteId r = Value i) (mset (sensor_groups (db w))))"
    using sensor_group.find_law [OF assms, of "[''nodes'']" w] unfolding all by auto
  have "groups_shown (db w) i gs" if l: "list_all2 group_arrives es gs" for gs
  proof -
    have "image_mset group_line (mset gs) = image_mset (\<lambda>e. group_row_line (db w) (sensor_group_row.truncate e)) (mset es)"
    proof (rule arrives_list [OF l])
      fix e g
      assume "e \<in> set es" "group_arrives e g"
      then have "e \<in># image_mset ?load (filter_mset (\<lambda>r. group_siteId r = Value i) (mset (sensor_groups (db w))))"
        unfolding es(2) [symmetric] by simp
      then obtain r where "e = ?load r" by auto
      with group_arrives_line [of "db w" r g] \<open>group_arrives e g\<close>
      show "group_line g = group_row_line (db w) (sensor_group_row.truncate e)" by simp
    qed
    then show ?thesis by (simp add: groups_shown_def es(2) multiset.map_comp comp_def)
  qed
  with es(1) show ?thesis by (simp add: findSensorGroupsBySite_def)
qed

lemma create_rows:
  assumes "misfits_rejected (organizationRepository svc) organization_schema (fit_organization F) db"
    and "misfits_rejected (siteRepository svc) site_schema (fit_site F) db"
    and "misfits_rejected (sensorGroupRepository svc) sensor_group_schema (fit_sensor_group F) db"
  shows "createOrganization svc (organization_entity j) w = (res0, w') \<Longrightarrow>
      (\<exists>x i t. res0 = Inr x \<and> db w' = (db w) \<lparr> tables.organizations := tables.organizations (db w) @
         [inserted organization_schema i t (organization_entity j)] \<rparr>) \<or> (\<exists>e. res0 = Inl e \<and> db w' = db w)"
    and "createSite svc (site_entity j) w = (res1, w') \<Longrightarrow>
      (\<exists>x i t. res1 = Inr x \<and> db w' = (db w) \<lparr> tables.sites := tables.sites (db w) @
         [inserted site_schema i t (site_entity j)] \<rparr>) \<or> (\<exists>e. res1 = Inl e \<and> db w' = db w)"
    and "createSensorGroup svc (sensor_group_entity j) w = (res2, w') \<Longrightarrow>
      (\<exists>x i t. res2 = Inr x \<and> db w' = (db w) \<lparr> sensor_groups := sensor_groups (db w) @
         [inserted sensor_group_schema i t (sensor_group_entity j)] \<rparr>) \<or> (\<exists>e. res2 = Inl e \<and> db w' = db w)"
proof -
  note keys = keys_have_values [OF site.db_consistent [of w]]
  have ids: "row_id organization_schema = org_id" "row_id site_schema = site_id" "row_id sensor_group_schema = group_id"
    "rows_of organization_schema = tables.organizations" "rows_of site_schema = tables.sites" "rows_of sensor_group_schema = sensor_groups"
    "with_rows organization_schema = (\<lambda>rs T. T \<lparr> tables.organizations := rs \<rparr>)"
    "with_rows site_schema = (\<lambda>rs T. T \<lparr> tables.sites := rs \<rparr>)" "with_rows sensor_group_schema = (\<lambda>rs T. T \<lparr> sensor_groups := rs \<rparr>)"
    by (simp_all add: organization_schema_def site_schema_def sensor_group_schema_def)
  show "(\<exists>x i t. res0 = Inr x \<and> db w' = (db w) \<lparr> tables.organizations := tables.organizations (db w) @
         [inserted organization_schema i t (organization_entity j)] \<rparr>) \<or> (\<exists>e. res0 = Inl e \<and> db w' = db w)" if "createOrganization svc (organization_entity j) w = (res0, w')"
    using organization.save_creates [OF assms(1) entity_shapes(1), of j w res0 w'] entity_shapes(2) keys(1) ids that
    by (auto simp: createOrganization_def)
  show "(\<exists>x i t. res1 = Inr x \<and> db w' = (db w) \<lparr> tables.sites := tables.sites (db w) @
         [inserted site_schema i t (site_entity j)] \<rparr>) \<or> (\<exists>e. res1 = Inl e \<and> db w' = db w)" if "createSite svc (site_entity j) w = (res1, w')"
    using site.save_creates [OF assms(2) entity_shapes(3), of j w res1 w'] entity_shapes(4) keys(2) ids that
    by (auto simp: createSite_def)
  show "(\<exists>x i t. res2 = Inr x \<and> db w' = (db w) \<lparr> sensor_groups := sensor_groups (db w) @
         [inserted sensor_group_schema i t (sensor_group_entity j)] \<rparr>) \<or> (\<exists>e. res2 = Inl e \<and> db w' = db w)" if "createSensorGroup svc (sensor_group_entity j) w = (res2, w')"
    using sensor_group.save_creates [OF assms(3) entity_shapes(5), of j w res2 w'] entity_shapes(6) keys(3) ids that
    by (auto simp: createSensorGroup_def)
qed

end

lemma posted_members [simp]:
  "property (object_literal (form_members fd)) ''name'' = Some (JStr (form_name fd))"
  "property (object_literal (form_members fd)) ''description'' = Some (JStr (form_description fd))"
  "property (object_literal (form_members fd @ [(''organizationId'', Some (JStr i))])) ''name'' = Some (JStr (form_name fd))"
  "property (object_literal (form_members fd @ [(''organizationId'', Some (JStr i))])) ''description'' = Some (JStr (form_description fd))"
  "property (object_literal (form_members fd @ [(''organizationId'', Some (JStr i))])) ''organizationId'' = Some (JStr i)"
  "property (object_literal (form_members fd @ [(''siteId'', Some (JStr i))])) ''name'' = Some (JStr (form_name fd))"
  "property (object_literal (form_members fd @ [(''siteId'', Some (JStr i))])) ''description'' = Some (JStr (form_description fd))"
  "property (object_literal (form_members fd @ [(''siteId'', Some (JStr i))])) ''siteId'' = Some (JStr i)"
  by (simp_all add: form_members_def)

lemma inserted_columns:
  "org_name (inserted organization_schema i t (organization_entity j)) = over (text_column (property j ''name'')) Null"
  "org_description (inserted organization_schema i t (organization_entity j)) = over (text_column (property j ''description'')) Null"
  "site_name (inserted site_schema i t (site_entity j)) = over (text_column (property j ''name'')) Null"
  "site_description (inserted site_schema i t (site_entity j)) = over (text_column (property j ''description'')) Null"
  "site_organizationId (inserted site_schema i t (site_entity j)) = over (text_column (property j ''organizationId'')) Null"
  "group_name (inserted sensor_group_schema i t (sensor_group_entity j)) = over (text_column (property j ''name'')) Null"
  "group_description (inserted sensor_group_schema i t (sensor_group_entity j)) = over (text_column (property j ''description'')) Null"
  "group_siteId (inserted sensor_group_schema i t (sensor_group_entity j)) = over (text_column (property j ''siteId'')) Null"
  by (simp_all add: inserted_def organization_patch_def site_patch_def sensor_group_patch_def)
     (simp_all add: organization_schema_def site_schema_def sensor_group_schema_def organization_entity_def site_entity_def
      sensor_group_entity_def organization_row.defs Organization.defs site_row.defs Site.defs sensor_group_row.defs
      SensorGroup.defs no_organization_def no_site_def no_sensor_group_def)

lemma posted_body:
  assumes "call_body c = Some j" and "body_arrives (call_body c) b"
  shows "b = Some (json_norm j)"
proof -
  have "json_ok j" using assms(1) by (cases c) (auto simp: form_members_def literal_ok name_key_def is_digit_def)
  with assms show ?thesis by (simp add: body_arrives_def json_parse_stringify)
qed

text \<open>What a call does to the database and what it is answered.\<close>

fun call_effect :: "page_call \<Rightarrow> tables \<Rightarrow> page_outcome \<Rightarrow> tables \<Rightarrow> bool" where
  "call_effect GetOrganizations T r T' = (T' = T \<and> (\<exists>os. r = Organizations os \<and> orgs_shown T os))"
| "call_effect (GetSites i) T r T' = (T' = T \<and> (\<exists>ss. r = Sites ss \<and> sites_shown T i ss))"
| "call_effect (GetSensorGroups i) T r T' = (T' = T \<and> (\<exists>gs. r = SensorGroups gs \<and> groups_shown T i gs))"
| "call_effect (CreateOrganization fd) T r T' =
     ((r = Created \<and> (\<exists>row. org_name row = Value (form_name fd) \<and> org_description row = Value (form_description fd) \<and>
         T' = T \<lparr> tables.organizations := tables.organizations T @ [row] \<rparr>)) \<or> (T' = T \<and> (\<exists>e. r = Failed e)))"
| "call_effect (CreateSite fd i) T r T' =
     ((r = Created \<and> (\<exists>row. site_name row = Value (form_name fd) \<and> site_description row = Value (form_description fd) \<and>
         site_organizationId row = Value i \<and> T' = T \<lparr> tables.sites := tables.sites T @ [row] \<rparr>)) \<or> (T' = T \<and> (\<exists>e. r = Failed e)))"
| "call_effect (CreateSensorGroup fd i) T r T' =
     ((r = Created \<and> (\<exists>row. group_name row = Value (form_name fd) \<and> group_description row = Value (form_description fd) \<and>
         group_siteId row = Value i \<and> T' = T \<lparr> sensor_groups := sensor_groups T @ [row] \<rparr>)) \<or> (T' = T \<and> (\<exists>e. r = Failed e)))"

fun known_call :: "tables \<Rightarrow> page_call \<Rightarrow> bool" where
  "known_call T (GetSites i) = (Value i \<in> org_id ` set (tables.organizations T))"
| "known_call T (GetSensorGroups i) = (Value i \<in> site_id ` set (tables.sites T))"
| "known_call T (CreateSite fd i) = (Value i \<in> org_id ` set (tables.organizations T))"
| "known_call T (CreateSensorGroup fd i) = (Value i \<in> site_id ` set (tables.sites T))"
| "known_call T c = True"

lemma known_target:
  "known_call T (CreateSite fd i) = known_call T (GetSites i)"
  "known_call T (CreateSensorGroup fd i) = known_call T (GetSensorGroups i)"
  by simp_all

lemma known_plain:
  assumes "plain_keys T" and "known_call T c"
  shows "plain_call c"
proof (cases c)
  case (GetSites i)
  with assms obtain r where "r \<in> set (tables.organizations T)" "org_id r = Value i" by auto
  with assms(1) GetSites show ?thesis by (auto simp: plain_keys_def list_all_iff col_text_def)
next
  case (GetSensorGroups i)
  with assms obtain r where "r \<in> set (tables.sites T)" "site_id r = Value i" by auto
  with assms(1) GetSensorGroups show ?thesis by (auto simp: plain_keys_def list_all_iff col_text_def)
qed simp_all

inductive_cases endpoint_answersE:
  "endpoint_answers svc Topology_getOrganizations ps b w r w'"
  "endpoint_answers svc Topology_getSitesByOrganization ps b w r w'"
  "endpoint_answers svc Topology_getSensorGroupsBySite ps b w r w'"
  "endpoint_answers svc Topology_createOrganization ps b w r w'"
  "endpoint_answers svc Topology_createSite ps b w r w'"
  "endpoint_answers svc Topology_createSensorGroup ps b w r w'"

lemma backend_effect:
  assumes "router_laws R" and "page_laws svc F db" and "plain_keys (db w)" and "known_call (db w) c"
    and "backend_answers R env svc c w r w'"
  shows "call_effect c (db w) r (db w')"
proof -
  note routed = page_call_routed [OF assms(1) known_plain [OF assms(3,4)], of env]
  obtain b where b: "body_arrives (call_body c) b" and a: "endpoint_answers svc (call_endpoint c) (call_params c) b w r w'"
    using assms(5) by (auto simp: backend_answers_def routed)
  have topo: "topology svc F db" and fits: "fit_organization F no_organization"
    and mis: "misfits_rejected (organizationRepository svc) organization_schema (fit_organization F) db"
      "misfits_rejected (siteRepository svc) site_schema (fit_site F) db"
      "misfits_rejected (sensorGroupRepository svc) sensor_group_schema (fit_sensor_group F) db"
    and keys: "\<And>i. Value i \<in> org_id ` set (tables.organizations (db w)) \<Longrightarrow> fit_site F (no_site \<lparr> site_organizationId := Value i \<rparr>)"
      "\<And>i. Value i \<in> site_id ` set (tables.sites (db w)) \<Longrightarrow> fit_sensor_group F (no_sensor_group \<lparr> group_siteId := Value i \<rparr>)"
    using assms(2) by (simp_all add: page_laws_def topology.intro)
  note created = topology.create_rows [OF topo mis]
  show ?thesis
  proof (cases c)
    case GetOrganizations
    with a topology.read_organizations [OF topo fits, of w] show ?thesis
      by (auto simp: TopologyController_getOrganizations_def elim!: endpoint_answersE)
  next
    case (GetSites i)
    with a topology.read_sites [OF topo keys(1) [of i], of w] assms(4) show ?thesis
      by (auto simp: TopologyController_getSitesByOrganization_def elim!: endpoint_answersE)
  next
    case (GetSensorGroups i)
    with a topology.read_groups [OF topo keys(2) [of i], of w] assms(4) show ?thesis
      by (auto simp: TopologyController_getSensorGroupsBySite_def elim!: endpoint_answersE)
  next
    case (CreateOrganization fd)
    then obtain j where j: "call_body c = Some j" by simp
    have "b = Some (json_norm j)" by (rule posted_body [OF j b])
    with a CreateOrganization obtain res where "createOrganization svc (organization_entity (json_norm j)) w = (res, w')"
      "r = (case res of Inl e \<Rightarrow> r | Inr x \<Rightarrow> Created)" "isl res \<Longrightarrow> \<exists>e. r = Failed e"
      by (auto simp: TopologyController_createOrganization_def elim!: endpoint_answersE)
    with created(1) [OF this(1)] j CreateOrganization show ?thesis
      by (auto simp: inserted_columns text_column_def intro!: exI [where x = "inserted organization_schema i t e" for i t e])
  next
    case (CreateSite fd i)
    then obtain j where j: "call_body c = Some j" by simp
    have "b = Some (json_norm j)" by (rule posted_body [OF j b])
    with a CreateSite obtain res where "createSite svc (site_entity (json_norm j)) w = (res, w')"
      "r = (case res of Inl e \<Rightarrow> r | Inr x \<Rightarrow> Created)" "isl res \<Longrightarrow> \<exists>e. r = Failed e"
      by (auto simp: TopologyController_createSite_def elim!: endpoint_answersE)
    with created(2) [OF this(1)] j CreateSite show ?thesis
      by (auto simp: inserted_columns text_column_def intro!: exI [where x = "inserted site_schema i t e" for i t e])
  next
    case (CreateSensorGroup fd i)
    then obtain j where j: "call_body c = Some j" by simp
    have "b = Some (json_norm j)" by (rule posted_body [OF j b])
    with a CreateSensorGroup obtain res where "createSensorGroup svc (sensor_group_entity (json_norm j)) w = (res, w')"
      "r = (case res of Inl e \<Rightarrow> r | Inr x \<Rightarrow> Created)" "isl res \<Longrightarrow> \<exists>e. r = Failed e"
      by (auto simp: TopologyController_createSensorGroup_def elim!: endpoint_answersE)
    with created(3) [OF this(1)] j CreateSensorGroup show ?thesis
      by (auto simp: inserted_columns text_column_def intro!: exI [where x = "inserted sensor_group_schema i t e" for i t e])
  qed
qed

text \<open>
  The reading calls are always answered with rows, which the page takes.
\<close>


lemma nested_exists: "\<exists>xs. nested f M xs"
proof (cases M)
  case None
  then show ?thesis by (intro exI [of _ None]) (simp add: nested_def)
next
  case (Some N)
  obtain xs where "mset xs = image_mset f N" using ex_mset by blast
  with Some show ?thesis by (intro exI [of _ "Some xs"]) (simp add: nested_def)
qed

lemma entities_arrive: "\<exists>p. site_arrives e p" "\<exists>g. group_arrives d g"
proof -
  obtain xs ys where "nested group_view (site_sensorGroups e) xs" "nested hub_view (site_hubs e) ys"
    using nested_exists by metis
  then have "site_arrives e ((site_view e) \<lparr> psite_sensorGroups := xs, psite_hubs := ys \<rparr>)"
    by (simp add: site_arrives_def site_view_def)
  then show "\<exists>p. site_arrives e p" ..
  obtain zs where "nested node_view (group_nodes d) zs" using nested_exists by metis
  then have "group_arrives d ((group_view d) \<lparr> pgroup_nodes := zs \<rparr>)" by (simp add: group_arrives_def group_view_def)
  then show "\<exists>g. group_arrives d g" ..
qed

lemma all_arrive: "(\<And>e. \<exists>x. P e x) \<Longrightarrow> \<exists>xs. list_all2 P es xs"
  by (induction es) (auto intro: list_all2_Cons [THEN iffD2])

lemma backend_reads:
  assumes "router_laws R" and "page_laws svc F db" and "plain_keys (db w)" and "known_call (db w) c" and "call_body c = None"
  shows "\<exists>r. backend_answers R env svc c w r w \<and> (\<forall>s. page_resume c r s \<noteq> None)"
proof -
  note routed = page_call_routed [OF assms(1) known_plain [OF assms(3,4)], of env]
  have answers: "backend_answers R env svc c w r w" if "endpoint_answers svc (call_endpoint c) (call_params c) None w r w" for r
    using that assms(5) by (auto simp: backend_answers_def routed body_arrives_def)
  have topo: "topology svc F db" and fits: "fit_organization F no_organization"
    and keys: "\<And>i. Value i \<in> org_id ` set (tables.organizations (db w)) \<Longrightarrow> fit_site F (no_site \<lparr> site_organizationId := Value i \<rparr>)"
      "\<And>i. Value i \<in> site_id ` set (tables.sites (db w)) \<Longrightarrow> fit_sensor_group F (no_sensor_group \<lparr> group_siteId := Value i \<rparr>)"
    using assms(2) by (simp_all add: page_laws_def topology.intro)
  show ?thesis
  proof (cases c)
    case GetOrganizations
    obtain es where "TopologyController_getOrganizations svc w = (Inr es, w)"
      using topology.read_organizations [OF topo fits, of w] by (auto simp: TopologyController_getOrganizations_def)
    from answers [of "Organizations (map org_view es)"] endpoint_answers.organizations [OF this] GetOrganizations show ?thesis by fastforce
  next
    case (GetSites i)
    with assms(4) obtain es where "TopologyController_getSitesByOrganization svc i w = (Inr es, w)"
      using topology.read_sites [OF topo keys(1), of i w] by (auto simp: TopologyController_getSitesByOrganization_def)
    moreover obtain ss where "list_all2 site_arrives es ss" using all_arrive entities_arrive(1) by blast
    ultimately have "endpoint_answers svc (call_endpoint c) (call_params c) None w (Sites ss) w"
      using GetSites by (auto intro: endpoint_answers.sites)
    from answers [OF this] GetSites show ?thesis by fastforce
  next
    case (GetSensorGroups i)
    with assms(4) obtain es where "TopologyController_getSensorGroupsBySite svc i w = (Inr es, w)"
      using topology.read_groups [OF topo keys(2), of i w] by (auto simp: TopologyController_getSensorGroupsBySite_def)
    moreover obtain gs where "list_all2 group_arrives es gs" using all_arrive entities_arrive(2) by blast
    ultimately have "endpoint_answers svc (call_endpoint c) (call_params c) None w (SensorGroups gs) w"
      using GetSensorGroups by (auto intro: endpoint_answers.groups)
    from answers [OF this] GetSensorGroups show ?thesis by fastforce
  qed (use assms(5) in simp_all)
qed

end
