(* ===== verification/TopologyShown.thy ===== *)
theory TopologyShown
  imports TopologySystem
begin

text \<open>
  What the topology page shows in front of the backend: the rows of the database, and after a creation
  the new row. The invariant \<open>shown_ok\<close> relates the lists of the page, its calls in flight and the
  tables in every state of \<open>page_system\<close>.
\<close>

section \<open>The page shows the database\<close>

definition settles_on :: "('c \<Rightarrow> 'k option) \<Rightarrow> 'c list \<Rightarrow> 'k \<Rightarrow> bool \<Rightarrow> bool" where
  "settles_on f cs key ok \<longleftrightarrow> (if keys_asked f cs = [] then ok else last (keys_asked f cs) = key)"

lemma settles_ask: "f c = Some key \<Longrightarrow> settles_on f (cs @ [c]) key ok"
  by (simp add: settles_on_def)

lemma settles_other: "f c = None \<Longrightarrow> settles_on f (cs @ [c]) key ok = settles_on f cs key ok"
  by (simp add: settles_on_def)

lemma settles_skip: "f c = None \<Longrightarrow> settles_on f (c # cs) key ok = settles_on f cs key ok"
  by (simp add: settles_on_def)

lemma settles_answer:
  "settles_on sites_asked (GetSites i # cs) key ok \<Longrightarrow> sites_shown T i ss \<Longrightarrow> settles_on sites_asked cs key (sites_shown T key ss)"
  "settles_on groups_asked (GetSensorGroups j # cs) key ok \<Longrightarrow> groups_shown T j gs \<Longrightarrow> settles_on groups_asked cs key (groups_shown T key gs)"
  by (auto simp: settles_on_def split: if_splits)

fun on_target :: "topology_page \<Rightarrow> page_call \<Rightarrow> bool" where
  "on_target s (CreateSite fd i) = (map_option porg_id (selectedOrg s) = Some i)"
| "on_target s (CreateSensorGroup fd i) = (map_option psite_id (selectedSite s) = Some i)"
| "on_target s c = True"

definition shown_ok :: "topology_page \<Rightarrow> tables \<Rightarrow> bool" where
  "shown_ok s T \<longleftrightarrow>
     settles_on org_asked (in_flight s) () (orgs_shown T (topology_page.organizations s)) \<and>
     (\<forall>org. selectedOrg s = Some org \<longrightarrow> known_call T (GetSites (porg_id org)) \<and>
        settles_on sites_asked (in_flight s) (porg_id org) (sites_shown T (porg_id org) (topology_page.sites s))) \<and>
     (\<forall>site. selectedSite s = Some site \<longrightarrow> known_call T (GetSensorGroups (psite_id site)) \<and>
        settles_on groups_asked (in_flight s) (psite_id site) (groups_shown T (psite_id site) (sensorGroups s))) \<and>
     (\<forall>org\<in>set (topology_page.organizations s). known_call T (GetSites (porg_id org))) \<and>
     (\<forall>site\<in>set (topology_page.sites s). known_call T (GetSensorGroups (psite_id site))) \<and>
     (\<forall>c\<in>set (in_flight s). known_call T c \<and> on_target s c) \<and>
     (\<forall>c\<in>set (butlast (in_flight s)). call_body c = None)"

lemma press_shown:
  assumes "shown_ok s T" and "\<not> creation_pending s" and "offers (TopologyPage s) (Click b)"
  shows "shown_ok (page_press b s) T"
proof -
  have quiet: "\<forall>c\<in>set (in_flight s). call_body c = None" using assms(2) by (auto simp: creation_pending_def)
  then have target: "on_target s' c" if "c \<in> set (in_flight s)" for s' c using that by (cases c) auto
  show ?thesis
    using assms(1,3) quiet target
    by (cases b) (auto simp: offered_page_buttons shown_ok_def page_handlers handleCreate_def settles_ask settles_other
        butlast_append split: if_splits option.splits dialog_type.splits)
qed

lemma col_value: "has_value x \<Longrightarrow> Value (col_text x) = x"
  by (cases x) (simp_all add: col_text_def)

lemma org_shown_known:
  assumes "orgs_shown T os" and "consistent T" and "org \<in> set os"
  shows "known_call T (GetSites (porg_id org))"
proof -
  have "org \<in># image_mset org_view (mset (tables.organizations T))" using assms(1,3) by (simp add: orgs_shown_def flip: set_mset_mset)
  then obtain r where r: "r \<in> set (tables.organizations T)" "org = org_view r" by auto
  then have "porg_id org = col_text (org_id r)" "has_value (org_id r)"
    using keys_have_values(1) [OF assms(2)] by (simp_all add: org_view_def list_all_iff)
  with r(1) show ?thesis by (auto simp: col_value intro!: image_eqI [of _ _ r])
qed

lemma site_shown_known:
  assumes "sites_shown T i ss" and "consistent T" and "site \<in> set ss"
  shows "known_call T (GetSensorGroups (psite_id site))"
proof -
  have "site_line site \<in># image_mset site_line (mset ss)" using assms(3) by simp
  then obtain r where r: "r \<in> set (tables.sites T)" "site_line site = site_row_line T r"
    unfolding assms(1) [unfolded sites_shown_def] by auto
  then have "psite_id site = col_text (site_id r)" "has_value (site_id r)"
    using keys_have_values(2) [OF assms(2)] by (simp_all add: site_line_def site_row_line_def list_all_iff)
  with r(1) show ?thesis by (auto simp: col_value intro!: image_eqI [of _ _ r])
qed

lemma shown_insert [simp]:
  "sites_shown (T \<lparr> tables.organizations := os' \<rparr>) i ss = sites_shown T i ss"
  "groups_shown (T \<lparr> tables.organizations := os' \<rparr>) j gs = groups_shown T j gs"
  "orgs_shown (T \<lparr> tables.sites := ss' \<rparr>) os = orgs_shown T os"
  "groups_shown (T \<lparr> tables.sites := ss' \<rparr>) j gs = groups_shown T j gs"
  "orgs_shown (T \<lparr> sensor_groups := gs' \<rparr>) os = orgs_shown T os"
  "sites_shown (T \<lparr> sensor_groups := gs' \<rparr>) i ss = sites_shown T i ss"
  by (simp_all add: orgs_shown_def sites_shown_def groups_shown_def site_row_line_def [abs_def] group_row_line_def [abs_def])

lemma known_insert:
  "known_call T c \<Longrightarrow> known_call (T \<lparr> tables.organizations := tables.organizations T @ [r0] \<rparr>) c"
  "known_call T c \<Longrightarrow> known_call (T \<lparr> tables.sites := tables.sites T @ [r1] \<rparr>) c"
  "known_call T c \<Longrightarrow> known_call (T \<lparr> sensor_groups := sensor_groups T @ [r2] \<rparr>) c"
  by (cases c; auto)+

declare known_call.simps(1-4) [simp del]
declare known_target [simp]

lemma on_target_update [simp]:
  "on_target (s \<lparr> in_flight := cs \<rparr>) c = on_target s c"
  "on_target (s \<lparr> topology_page.organizations := os \<rparr>) c = on_target s c"
  "on_target (s \<lparr> topology_page.sites := ss \<rparr>) c = on_target s c"
  "on_target (s \<lparr> sensorGroups := gs \<rparr>) c = on_target s c"
  "on_target (s \<lparr> openDialog := b \<rparr>) c = on_target s c"
  by (cases c; simp)+

lemma answer_shown:
  assumes "shown_ok s T" and "in_flight s = c # cs" and "call_effect c T r T'" and "consistent T'"
    and "page_resume c r (s \<lparr> in_flight := cs \<rparr>) = Some s'"
  shows "shown_ok s' T'"
proof -
  have single: "call_body c \<noteq> None \<Longrightarrow> cs = []" using assms(1,2) by (auto simp: shown_ok_def split: if_splits)
  have later: "\<forall>d\<in>set (butlast cs). call_body d = None" using assms(1,2) by (auto simp: shown_ok_def split: if_splits)
  show ?thesis
  proof (cases c)
    case GetOrganizations
    with assms(3) obtain os where "T' = T" "r = Organizations os" "orgs_shown T os" by auto
    with assms(1,2,4,5) GetOrganizations later show ?thesis
      by (auto simp: shown_ok_def settles_skip settles_on_def [of org_asked] dest: org_shown_known)
  next
    case (GetSites i)
    with assms(3) obtain ss where r: "T' = T" "r = Sites ss" "sites_shown T i ss" by auto
    with assms(1,2,4,5) GetSites later show ?thesis
      by (auto simp: shown_ok_def settles_skip dest: site_shown_known intro: settles_answer)
  next
    case (GetSensorGroups i)
    with assms(3) obtain gs where r: "T' = T" "r = SensorGroups gs" "groups_shown T i gs" by auto
    with assms(1,2,4,5) GetSensorGroups later show ?thesis
      by (auto simp: shown_ok_def settles_skip intro: settles_answer)
  next
    case (CreateOrganization fd)
    note c = CreateOrganization
    have cs: "cs = []" by (rule single) (simp add: c)
    from c assms(3) consider (created) row where "r = Created" "T' = T \<lparr> tables.organizations := tables.organizations T @ [row] \<rparr>"
      | (failed) e where "r = Failed e" "T' = T" by auto
    then show ?thesis
    proof cases
      case created
      with assms(1,2,5) c cs show ?thesis
        by (simp add: shown_ok_def page_handlers settles_on_def) (auto intro: known_insert)
    next
      case failed
      with assms(1,2,5) c cs show ?thesis by (auto simp: shown_ok_def settles_on_def)
    qed
  next
    case (CreateSite fd i)
    note c = CreateSite
    have cs: "cs = []" by (rule single) (simp add: c)
    from c assms(3) consider (created) row where "r = Created" "T' = T \<lparr> tables.sites := tables.sites T @ [row] \<rparr>"
      | (failed) e where "r = Failed e" "T' = T" by auto
    then show ?thesis
    proof cases
      case created
      with assms(1,2,5) c cs show ?thesis
        by (simp add: shown_ok_def page_handlers settles_on_def) (auto intro: known_insert)
    next
      case failed
      with assms(1,2,5) c cs show ?thesis by (auto simp: shown_ok_def settles_on_def)
    qed
  next
    case (CreateSensorGroup fd i)
    note c = CreateSensorGroup
    have cs: "cs = []" by (rule single) (simp add: c)
    from c assms(3) consider (created) row where "r = Created" "T' = T \<lparr> sensor_groups := sensor_groups T @ [row] \<rparr>"
      | (failed) e where "r = Failed e" "T' = T" by auto
    then show ?thesis
    proof cases
      case created
      with assms(1,2,5) c cs show ?thesis
        by (simp add: shown_ok_def page_handlers settles_on_def) (auto intro: known_insert)
    next
      case failed
      with assms(1,2,5) c cs show ?thesis by (auto simp: shown_ok_def settles_on_def)
    qed
  qed
qed

text \<open>
  Whatever the user does: each list shows what the last request for it was about, once it is answered.
\<close>

definition sites_of_one :: "tables \<Rightarrow> page_site list \<Rightarrow> bool" where
  "sites_of_one T ss \<longleftrightarrow> ss = [] \<or> (\<exists>i. sites_shown T i ss)"

definition groups_of_one :: "tables \<Rightarrow> page_group list \<Rightarrow> bool" where
  "groups_of_one T gs \<longleftrightarrow> gs = [] \<or> (\<exists>i. groups_shown T i gs)"

lemma of_one_simps [simp]:
  "sites_of_one T []" "groups_of_one T []"
  "sites_of_one (T \<lparr> tables.organizations := os' \<rparr>) ss = sites_of_one T ss"
  "groups_of_one (T \<lparr> tables.organizations := os' \<rparr>) gs = groups_of_one T gs"
  "groups_of_one (T \<lparr> tables.sites := ss' \<rparr>) gs = groups_of_one T gs"
  "sites_of_one (T \<lparr> sensor_groups := gs' \<rparr>) ss = sites_of_one T ss"
  by (simp_all add: sites_of_one_def groups_of_one_def)

lemma of_oneI: "sites_shown T i ss \<Longrightarrow> sites_of_one T ss" "groups_shown T j gs \<Longrightarrow> groups_of_one T gs"
  by (auto simp: sites_of_one_def groups_of_one_def)

definition lists_ok :: "topology_page \<Rightarrow> tables \<Rightarrow> bool" where
  "lists_ok s T \<longleftrightarrow>
     settles_on org_asked (in_flight s) () (orgs_shown T (topology_page.organizations s)) \<and>
     (keys_asked sites_asked (in_flight s) = [] \<longrightarrow> sites_of_one T (topology_page.sites s)) \<and>
     (keys_asked groups_asked (in_flight s) = [] \<longrightarrow> groups_of_one T (sensorGroups s)) \<and>
     (\<forall>org. selectedOrg s = Some org \<longrightarrow> known_call T (GetSites (porg_id org))) \<and>
     (\<forall>site. selectedSite s = Some site \<longrightarrow> known_call T (GetSensorGroups (psite_id site))) \<and>
     (\<forall>org\<in>set (topology_page.organizations s). known_call T (GetSites (porg_id org))) \<and>
     (\<forall>site\<in>set (topology_page.sites s). known_call T (GetSensorGroups (psite_id site))) \<and>
     (\<forall>c\<in>set (in_flight s). known_call T c)"

lemma ask_again: "settles_on org_asked (cs @ [GetOrganizations]) key ok"
  by (simp add: settles_on_def)

lemma press_lists:
  assumes "lists_ok s T" and "offers (TopologyPage s) (Click b)"
  shows "lists_ok (page_press b s) T"
  using assms
  by (cases b) (auto simp: offered_page_buttons lists_ok_def page_handlers handleCreate_def settles_ask settles_other
      split: if_splits option.splits dialog_type.splits)

lemma answer_lists:
  assumes "lists_ok s T" and "in_flight s = c # cs" and "call_effect c T r T'" and "consistent T'"
    and "page_resume c r (s \<lparr> in_flight := cs \<rparr>) = Some s'"
  shows "lists_ok s' T'"
proof (cases c)
  case GetOrganizations
  with assms(3) obtain os where "T' = T" "r = Organizations os" "orgs_shown T os" by auto
  with assms(1,2,4,5) GetOrganizations show ?thesis
    by (auto simp: lists_ok_def settles_on_def [of org_asked] dest: org_shown_known)
next
  case (GetSites i)
  with assms(3) obtain ss where "T' = T" "r = Sites ss" "sites_shown T i ss" by auto
  with assms(1,2,4,5) GetSites show ?thesis
    by (auto simp: lists_ok_def settles_skip dest: site_shown_known intro: of_oneI)
next
  case (GetSensorGroups i)
  with assms(3) obtain gs where "T' = T" "r = SensorGroups gs" "groups_shown T i gs" by auto
  with assms(1,2,4,5) GetSensorGroups show ?thesis
    by (auto simp: lists_ok_def settles_skip intro: of_oneI)
next
  case (CreateOrganization fd)
  from this assms(3) consider (created) row where "r = Created" "T' = T \<lparr> tables.organizations := tables.organizations T @ [row] \<rparr>"
    | (failed) e where "r = Failed e" "T' = T" by auto
  then show ?thesis
  proof cases
    case created
    with assms(1,2,5) CreateOrganization show ?thesis
      by (simp add: lists_ok_def page_handlers) (auto simp: ask_again intro: known_insert)
  next
    case failed
    with assms(1,2,5) CreateOrganization show ?thesis by (auto simp: lists_ok_def settles_skip)
  qed
next
  case (CreateSite fd i)
  from this assms(3) consider (created) row where "r = Created" "T' = T \<lparr> tables.sites := tables.sites T @ [row] \<rparr>"
    | (failed) e where "r = Failed e" "T' = T" by auto
  then show ?thesis
  proof cases
    case created
    with assms(1,2,5) CreateSite show ?thesis
      by (simp add: lists_ok_def page_handlers settles_skip) (auto simp: settles_other known_insert)
  next
    case failed
    with assms(1,2,5) CreateSite show ?thesis by (auto simp: lists_ok_def settles_skip)
  qed
next
  case (CreateSensorGroup fd i)
  from this assms(3) consider (created) row where "r = Created" "T' = T \<lparr> sensor_groups := sensor_groups T @ [row] \<rparr>"
    | (failed) e where "r = Failed e" "T' = T" by auto
  then show ?thesis
  proof cases
    case created
    with assms(1,2,5) CreateSensorGroup show ?thesis
      by (simp add: lists_ok_def page_handlers settles_skip) (auto simp: settles_other known_insert)
  next
    case failed
    with assms(1,2,5) CreateSensorGroup show ?thesis by (auto simp: lists_ok_def settles_skip)
  qed
qed

lemma system_shown:
  assumes "router_laws R" and "page_laws svc F db" and "page_system R env svc db calm s w"
  shows "lists_ok s (db w) \<and> plain_keys (db w) \<and> (calm \<longrightarrow> shown_ok s (db w))"
  using assms(3)
proof (induction rule: page_system.induct)
  case (opened w)
  then show ?case by (simp add: shown_ok_def lists_ok_def new_page_def page_handlers settles_on_def)
next
  case (acts calm s w e s')
  then show ?case
  proof (cases e)
    case (Click b)
    with acts press_lists [of s "db w" b] press_shown [of s "db w" b] show ?thesis by (auto split: if_splits)
  next
    case (Type f v)
    have "on_target (s \<lparr> formData := x \<rparr>) c = on_target s c" for x c by (cases c) simp_all
    with Type acts show ?thesis by (auto simp: shown_ok_def lists_ok_def split: if_splits)
  qed (auto split: if_splits)
next
  case (answered calm s w c cs r w' s')
  then have k: "known_call (db w) c" by (auto simp: lists_ok_def)
  have "consistent (db w')" using assms(2) by (simp add: page_laws_def topology_laws_def repository_laws_def)
  with answered backend_effect [OF assms(1,2) _ k answered.hyps(3)] show ?case
    by (auto intro: answer_shown answer_lists)
qed

text \<open>
  C4: The topology page shows what is in the database. Let its requests be routed to the topology service
  and executed on the database, with the answers in the order of the requests, no other
  writer, and keys that can stand in a URL; and let the user do anything at any time. Whenever no answer is missing, the
  organizations on the page are those of the table, and the sites (with the number of their hubs) and
  sensor groups (with the number of their nodes) that it lists, if any, are those of one organization and of one site. If the
  user has never acted while a creation was pending, these are the selected organization and the selected
  site; otherwise they may be others, for the answer of a creation loads the list of the place it was made in.
\<close>

theorem page_shows_database:
  assumes "router_laws R" and "page_laws svc F db" and "page_system R env svc db calm s w" and "in_flight s = []"
  shows "orgs_shown (db w) (topology_page.organizations s) \<and>
    (topology_page.sites s \<noteq> [] \<longrightarrow> (\<exists>i. sites_shown (db w) i (topology_page.sites s))) \<and>
    (sensorGroups s \<noteq> [] \<longrightarrow> (\<exists>i. groups_shown (db w) i (sensorGroups s))) \<and>
    (calm \<longrightarrow>
      (\<forall>org. selectedOrg s = Some org \<longrightarrow> sites_shown (db w) (porg_id org) (topology_page.sites s)) \<and>
      (\<forall>site. selectedSite s = Some site \<longrightarrow> groups_shown (db w) (psite_id site) (sensorGroups s)))"
  using system_shown [OF assms(1-3)] assms(4)
  by (simp add: shown_ok_def lists_ok_def settles_on_def sites_of_one_def groups_of_one_def) blast

lemma shown_organization:
  "orgs_shown T os \<Longrightarrow> r \<in> set (tables.organizations T) \<Longrightarrow> org_view r \<in> set os"
  unfolding orgs_shown_def by (metis image_eqI set_image_mset set_mset_mset)

lemma shown_site:
  assumes "sites_shown T i ss" and "r \<in> set (tables.sites T)" and "site_organizationId r = Value i"
  shows "\<exists>p\<in>set ss. site_line p = site_row_line T r"
proof -
  have "site_row_line T r \<in># image_mset site_line (mset ss)"
    unfolding assms(1) [unfolded sites_shown_def] using assms(2,3) by simp
  then show ?thesis by auto
qed

lemma shown_group:
  assumes "groups_shown T i gs" and "r \<in> set (sensor_groups T)" and "group_siteId r = Value i"
  shows "\<exists>g\<in>set gs. group_line g = group_row_line T r"
proof -
  have "group_row_line T r \<in># image_mset group_line (mset gs)"
    unfolding assms(1) [unfolded groups_shown_def] using assms(2,3) by simp
  then show ?thesis by auto
qed

definition site_group_count :: "tables \<Rightarrow> jstring \<Rightarrow> nat" where
  "site_group_count T i = size (filter_mset (\<lambda>r. group_siteId r = Value i) (mset (sensor_groups T)))"

fun listed_after :: "page_call \<Rightarrow> topology_page \<Rightarrow> tables \<Rightarrow> topology_page \<Rightarrow> tables \<Rightarrow> bool" where
  "listed_after (CreateOrganization fd) s T s' T' = (\<exists>org\<in>set (topology_page.organizations s').
     porg_name org = form_name fd \<and> porg_description org = form_description fd)"
| "listed_after (CreateSite fd i) s T s' T' = (\<exists>p\<in>set (topology_page.sites s'). psite_name p = form_name fd)"
| "listed_after (CreateSensorGroup fd i) s T s' T' =
     ((\<exists>g\<in>set (sensorGroups s'). pgroup_name g = form_name fd) \<and> topology_page.sites s' = topology_page.sites s \<and>
      (\<forall>p\<in>set (topology_page.sites s). psite_id p = i \<and> length_or_0 (psite_sensorGroups p) = site_group_count T i \<longrightarrow>
         length_or_0 (psite_sensorGroups p) \<noteq> site_group_count T' i))"
| "listed_after c s T s' T' = False"

fun reload :: "page_call \<Rightarrow> page_call" where
  "reload (CreateSite fd i) = GetSites i"
| "reload (CreateSensorGroup fd i) = GetSensorGroups i"
| "reload c = GetOrganizations"

text \<open>A creation and the reading after it: the new row is among those that arrive.\<close>

lemma reload_lists:
  assumes "call_effect c T Created T1" and "call_effect (reload c) T1 r T2" and "call_body c \<noteq> None"
    and "page_resume (reload c) r s1 = Some s2" and "topology_page.sites s1 = topology_page.sites s"
  shows "T2 = T1 \<and> in_flight s2 = in_flight s1 \<and> listed_after c s T s2 T2"
proof (cases c)
  case (CreateOrganization fd)
  with assms(1) have "\<exists>row\<in>set (tables.organizations T1).
      org_name row = Value (form_name fd) \<and> org_description row = Value (form_description fd)" by auto
  then obtain row where row: "row \<in> set (tables.organizations T1)"
    "org_name row = Value (form_name fd)" "org_description row = Value (form_description fd)" by blast
  from assms(2) CreateOrganization obtain os where os: "T2 = T1" "r = Organizations os" "orgs_shown T1 os" by auto
  from shown_organization [OF os(3) row(1)] row(2,3) os assms(4) CreateOrganization show ?thesis
    by (auto simp: org_view_def col_text_def intro!: bexI [of _ "org_view row"])
next
  case (CreateSite fd i)
  with assms(1) have "\<exists>row\<in>set (tables.sites T1). site_name row = Value (form_name fd) \<and> site_organizationId row = Value i" by auto
  then obtain row where row: "row \<in> set (tables.sites T1)" "site_name row = Value (form_name fd)"
    "site_organizationId row = Value i" by blast
  from assms(2) CreateSite obtain ss where ss: "T2 = T1" "r = Sites ss" "sites_shown T1 i ss" by auto
  from shown_site [OF ss(3) row(1,3)] row(2) ss assms(4) CreateSite show ?thesis
    by (auto simp: site_line_def site_row_line_def col_text_def)
next
  case (CreateSensorGroup fd i)
  with assms(1) have "\<exists>row\<in>set (sensor_groups T1). group_name row = Value (form_name fd) \<and> group_siteId row = Value i" by auto
  then obtain row where row: "row \<in> set (sensor_groups T1)" "group_name row = Value (form_name fd)"
    "group_siteId row = Value i" by blast
  from assms(2) CreateSensorGroup obtain gs where gs: "T2 = T1" "r = SensorGroups gs" "groups_shown T1 i gs" by auto
  have "site_group_count T1 i = Suc (site_group_count T i)"
    using assms(1) CreateSensorGroup by (auto simp: site_group_count_def)
  with shown_group [OF gs(3) row(1,3)] row(2) gs assms(4,5) CreateSensorGroup show ?thesis
    by (auto simp: group_line_def group_row_line_def col_text_def)
qed (use assms(3) in simp_all)

text \<open>
  C14: What is created is shown: when the backend accepts what was entered in the dialog while no other request
  is in flight, the new row with the entered name is in its table, the dialog
  closes and the list is loaded again; that request is answered with rows, whatever they are the page takes
  them, and then, if the user has waited for it, the list contains an entry with the name (and for an
  organization the description) that was entered. The list of sites is not loaded again when a sensor group
  is created: if the number of sensor groups shown with the site was right before, it now differs from the
  number in the table.
\<close>

theorem created_entry_listed:
  assumes "router_laws R" and "page_laws svc F db" and "page_system R env svc db calm s w" and "in_flight s = [c]"
    and "call_body c \<noteq> None" and "backend_answers R env svc c w Created w1" and "plain_keys (db w1)"
  shows "call_effect c (db w) Created (db w1) \<and>
    (\<exists>s1 d. page_step s (Settle 0 Created) = Some s1 \<and> in_flight s1 = [d] \<and> \<not> openDialog s1 \<and>
      (\<exists>r s2. backend_answers R env svc d w1 r w1 \<and> page_step s1 (Settle 0 r) = Some s2) \<and>
      (\<forall>r w2 s2. backend_answers R env svc d w1 r w2 \<and> page_step s1 (Settle 0 r) = Some s2 \<longrightarrow>
         in_flight s2 = [] \<and> db w2 = db w1 \<and> listed_after c s (db w) s2 (db w2)))"
proof -
  have ok: "lists_ok s (db w)" "plain_keys (db w)" using system_shown [OF assms(1-3)] by simp_all
  then have "known_call (db w) c" using assms(4) by (simp add: lists_ok_def)
  note effect = backend_effect [OF assms(1,2) ok(2) this assms(6)]
  obtain s1 where s1: "page_step s (Settle 0 Created) = Some s1" "in_flight s1 = [reload c]" "\<not> openDialog s1"
    and same: "topology_page.sites s1 = topology_page.sites s"
    using assms(4,5) by (cases c) (auto simp: page_handlers)
  have "page_system R env svc db calm s1 w1"
    using page_system.answered [OF assms(3,4,6,7) s1(1)] .
  then have "lists_ok s1 (db w1)" using system_shown [OF assms(1,2)] by blast
  then have known: "known_call (db w1) (reload c)" using s1(2) by (simp add: lists_ok_def)
  have "call_body (reload c) = None" by (cases c) simp_all
  then have answered: "\<exists>r s2. backend_answers R env svc (reload c) w1 r w1 \<and> page_step s1 (Settle 0 r) = Some s2"
    using backend_reads [OF assms(1,2,7) known, of env] s1(2) by auto
  have "in_flight s2 = [] \<and> db w2 = db w1 \<and> listed_after c s (db w) s2 (db w2)"
    if "backend_answers R env svc (reload c) w1 r w2" and "page_step s1 (Settle 0 r) = Some s2" for r w2 s2
    using reload_lists [OF effect backend_effect [OF assms(1,2,7) known that(1)] assms(5), of "s1 \<lparr> in_flight := [] \<rparr>" s2 s]
      that(2) s1(2) same by (simp, metis)
  with s1 answered effect show ?thesis by blast
qed

section \<open>Witnesses\<close>

lemma memory_page_laws: "page_laws memory_topology all_fit stored"
  by (simp add: page_laws_def memory_topology_laws misfits_rejected_def)

abbreviation demo_system :: "topology_page \<Rightarrow> tables \<Rightarrow> bool" where
  "demo_system \<equiv> page_system first_route sample_env memory_topology stored True"

definition demo_opened :: topology_page where
  "demo_opened = new_page \<lparr> in_flight := [], topology_page.organizations := [] \<rparr>"

definition demo_form :: form_data where
  "demo_form = \<lparr> form_name = js ''Plant'', form_description = [] \<rparr>"

definition demo_creating :: topology_page where
  "demo_creating = demo_opened \<lparr> openDialog := True, dialogType := OrgDialog, formData := demo_form,
     in_flight := [CreateOrganization demo_form] \<rparr>"

definition demo_row :: organization_row where
  "demo_row = (row_default organization_schema (js ''0'') 0) \<lparr> org_name := Value (js ''Plant''), org_description := Value [] \<rparr>"

definition demo_tables :: tables where
  "demo_tables = no_tables \<lparr> tables.organizations := [demo_row] \<rparr>"

lemma demo_answers:
  assumes "plain_call c" and "body_arrives (call_body c) b"
    and "endpoint_answers memory_topology (call_endpoint c) (call_params c) b w r w'"
  shows "backend_answers first_route sample_env memory_topology c w r w'"
  unfolding backend_answers_def page_call_routed [OF first_route_laws assms(1)] using assms(2,3) by auto

lemma demo_tables_ok [simp]: "consistent demo_tables" "plain_keys demo_tables" "plain_keys no_tables" "stored no_tables = no_tables"
  by (simp_all add: demo_tables_def demo_row_def no_tables_def consistent_def organizations_ok_def users_ok_def sites_ok_def
      sensor_groups_ok_def hubs_ok_def nodes_ok_def keys_ok_def organization_schema_def plain_keys_def url_segment_def plain_segment_def
      col_text_def stored_def)

lemma demo_start: "demo_system demo_opened no_tables"
proof -
  have "backend_answers first_route sample_env memory_topology GetOrganizations no_tables (Organizations (map org_view ([] :: Organization list))) no_tables"
    by (rule demo_answers [where b = None], simp, simp add: body_arrives_def, unfold call_endpoint.simps,
        rule endpoint_answers.organizations)
       (simp add: TopologyController_getOrganizations_def findAllOrganizations_def memory_topology_def memory_repository_def
         organization_schema_def no_tables_def [symmetric], simp add: no_tables_def)
  then show ?thesis
    by (rule page_system.answered [OF page_system.opened, rotated 2]) (simp_all add: demo_opened_def new_page_def page_handlers)
qed

lemma acts_calmly:
  "page_system R env svc db True s w \<Longrightarrow> \<not> creation_pending s \<Longrightarrow> page_step s (User e) = Some s' \<Longrightarrow>
    page_system R env svc db True s' w"
  using page_system.acts [of R env svc db True s w e s'] by simp

lemma demo_pending: "demo_system demo_creating no_tables"
proof -
  have "demo_system (demo_opened \<lparr> openDialog := True, dialogType := OrgDialog, formData := empty_form \<rparr>) no_tables"
    by (rule acts_calmly [OF demo_start, of "Click AddOrg"])
       (simp_all add: creation_pending_def offered_page_buttons page_handlers demo_opened_def new_page_def)
  then have "demo_system (demo_opened \<lparr> openDialog := True, dialogType := OrgDialog, formData := demo_form \<rparr>) no_tables"
    by (rule acts_calmly [where e = "Type NameField (js ''Plant'')"])
       (simp_all add: creation_pending_def TopologyPage_def create_dialog_def demo_opened_def new_page_def page_handlers
         set_form_def empty_form_def demo_form_def)
  then show ?thesis
    by (rule acts_calmly [where e = "Click Create"])
       (simp_all add: creation_pending_def offered_page_buttons handleCreate_def page_handlers demo_opened_def new_page_def demo_creating_def)
qed

lemma demo_created: "backend_answers first_route sample_env memory_topology (CreateOrganization demo_form) no_tables Created demo_tables"
proof (rule demo_answers)
  let ?j = "object_literal (form_members demo_form)"
  have "json_ok ?j" by (auto simp: form_members_def literal_ok name_key_def is_digit_def)
  then show "body_arrives (call_body (CreateOrganization demo_form)) (Some (json_norm ?j))"
    by (simp add: body_arrives_def json_parse_stringify)
  let ?e = "organization_entity (json_norm ?j)"
  have row: "row_patch organization_schema (columns organization_schema ?e) (row_default organization_schema (fresh_key []) 0) = demo_row"
    by (simp add: organization_patch_def)
       (simp add: organization_schema_def organization_entity_def organization_row.defs Organization.defs no_organization_def
         demo_row_def text_column_def demo_form_def fresh_key_def)
  have "row_id organization_schema (columns organization_schema ?e) = Undefined"
    using entity_shapes(2) by (simp add: organization_schema_def)
  moreover have "rows_of organization_schema no_tables = []"
    "with_rows organization_schema = (\<lambda>rs T. T \<lparr> tables.organizations := rs \<rparr>)"
    by (simp_all add: organization_schema_def no_tables_def)
  ultimately have "\<exists>x. createOrganization memory_topology ?e no_tables = (Inr x, demo_tables)"
    using demo_tables_ok(1) unfolding demo_tables_def
    by (simp add: createOrganization_def memory_topology_def memory_repository_def known_key_def commit_def Let_def row [unfolded schema_patch])
  then show "endpoint_answers memory_topology (call_endpoint (CreateOrganization demo_form)) (call_params (CreateOrganization demo_form))
      (Some (json_norm ?j)) no_tables Created demo_tables"
    by (auto simp: TopologyController_createOrganization_def intro: endpoint_answers.new_organization)
qed simp

lemma demo_reload:
  "backend_answers first_route sample_env memory_topology GetOrganizations demo_tables (Organizations [org_view demo_row]) demo_tables"
proof (rule demo_answers [where b = None])
  have "organization_matches no_organization = (\<lambda>r. True)" by (simp add: organization_matches_def no_organization_def fun_eq_iff)
  then have "TopologyController_getOrganizations memory_topology demo_tables =
      (Inr [load organization_schema [''sites''] demo_tables demo_row], demo_tables)"
    by (simp add: TopologyController_getOrganizations_def findAllOrganizations_def memory_topology_def memory_repository_def)
       (simp add: organization_schema_def demo_tables_def)
  from endpoint_answers.organizations [OF this]
  show "endpoint_answers memory_topology (call_endpoint GetOrganizations) (call_params GetOrganizations) None demo_tables
      (Organizations [org_view demo_row]) demo_tables" by simp
qed (simp_all add: body_arrives_def)

definition demo_created_page :: topology_page where
  "demo_created_page = demo_creating \<lparr> in_flight := [], openDialog := False, topology_page.organizations := [org_view demo_row] \<rparr>"

theorem page_shows_database_witness:
  "\<exists>s. demo_system s demo_tables \<and> in_flight s = [] \<and> mset (topology_page.organizations s) = {# org_view demo_row #}"
proof -
  have "demo_system (demo_creating \<lparr> in_flight := [GetOrganizations], openDialog := False \<rparr>) demo_tables"
    by (rule page_system.answered [OF demo_pending _ demo_created]) (simp_all add: demo_creating_def page_handlers)
  then have sys: "demo_system demo_created_page demo_tables"
    unfolding demo_created_page_def by (rule page_system.answered [OF _ _ demo_reload]) (simp_all add: demo_creating_def)
  have "in_flight demo_created_page = []" by (simp add: demo_created_page_def)
  from page_shows_database [OF first_route_laws memory_page_laws sys this]
  have "mset (topology_page.organizations demo_created_page) = {# org_view demo_row #}"
    by (simp add: orgs_shown_def) (simp add: demo_tables_def)
  with sys \<open>in_flight demo_created_page = []\<close> show ?thesis by blast
qed

theorem created_entry_listed_witness:
  "\<exists>s1. page_step demo_creating (Settle 0 Created) = Some s1 \<and> \<not> openDialog s1 \<and>
    (\<forall>r w2 s2. backend_answers first_route sample_env memory_topology GetOrganizations demo_tables r w2 \<and>
       page_step s1 (Settle 0 r) = Some s2 \<longrightarrow> (\<exists>org\<in>set (topology_page.organizations s2). porg_name org = js ''Plant''))"
proof -
  have c: "in_flight demo_creating = [CreateOrganization demo_form]" "call_body (CreateOrganization demo_form) \<noteq> None"
    by (simp_all add: demo_creating_def)
  have "plain_keys (stored demo_tables)" by simp
  from created_entry_listed [OF first_route_laws memory_page_laws demo_pending c demo_created this]
  obtain s1 d where s1: "page_step demo_creating (Settle 0 Created) = Some s1" "in_flight s1 = [d]" "\<not> openDialog s1"
    and later: "\<forall>r w2 s2. backend_answers first_route sample_env memory_topology d demo_tables r w2 \<and>
      page_step s1 (Settle 0 r) = Some s2 \<longrightarrow> in_flight s2 = [] \<and> stored w2 = stored demo_tables \<and>
      listed_after (CreateOrganization demo_form) demo_creating (stored no_tables) s2 (stored w2)"
    by blast
  have d: "d = GetOrganizations" using s1(1,2) c(1) by (auto simp: page_handlers)
  have "\<exists>org\<in>set (topology_page.organizations s2). porg_name org = js ''Plant''"
    if "listed_after (CreateOrganization demo_form) demo_creating T s2 T'" for T s2 T'
    using that by (auto simp: demo_form_def)
  with s1(1,3) later show ?thesis unfolding d by blast
qed

end
