(* ===== verification/Spec2Isabelle.thy ===== *)
theory Spec2Isabelle
  imports BleProtocol IpcQueue IpcPayloads JobStatus Auth TopologyBinding WizardBackend TopologyLoads FleetDashboard WebApp
    Migration Bootstrap TopologyShown
begin

text \<open>
  A verification library for the TypeScript of the LP wireless sensor system: the radio and
  inter-processor protocols under \<open>src/common/protocol\<close>, the backend under \<open>src/backend/api/src\<close> and
  the web application under \<open>src/apps/web/src\<close>.

  \<^bold>\<open>The program.\<close> Sensor nodes advertise readings over BLE; a hub (two processors that talk
  over framed IPC messages) collects them and is managed by a backend through an Azure IoT hub:
  the backend keeps jobs in a database, appends them to the desired properties of the hub's
  device twin and follows the status the hub reports. The web application commissions devices over
  Web Bluetooth and posts them to the backend, whose topology it also browses and extends.

  \<^bold>\<open>Theories.\<close>

  \<^item> Prelude: errors as values (\<open>js_error\<close>), strings as lists of UTF-16 code units (\<open>jstring\<close>),
    and asynchronous calls as state transformers (\<open>call\<close>) with \<open>await\<close>, \<open>throw\<close> and
    \<open>try_catch\<close>: the state a rejected call has already changed stays changed.
  \<^item> JSNumber, JSText, JSDecimal: the language's numbers (doubles as exact dyadic values with NaN,
    infinities and both zeros, rounding to binary32, the conversions of the typed arrays), UTF-8,
    radix conversion and the decimal printing and reading of numbers.
  \<^item> Json, JsonRoundTrip: \<open>JSON.stringify\<close> and \<open>JSON.parse\<close> and their round trip.
  \<^item> JSValue: truthiness, spreading, dates.
  \<^item> ByteViews: \<open>Uint8Array\<close> windows of buffers and \<open>DataView\<close> accessors, with one interface
    (locale \<open>view_field\<close>) for the fields of every width.
  \<^item> BleProtocol: \<open>ble-protocol.ts\<close>, the UUID tables and the advertisement codec.
  \<^item> Crc32, IpcProtocol: \<open>ipc-protocol.ts\<close>, messages, framing, checksum; detection of burst errors.
  \<^item> IpcPayloads: the payload interfaces of \<open>ipc-protocol.ts\<close>, as records; the object literal and the
    typed reading of each (locale \<open>json_codec\<close>) are specification, the source leaves both to its users; and the end-to-end round trip of typed messages.
  \<^item> IpcQueue: the class \<open>IPCMessageQueue\<close>, its step relation and reachable states.
  \<^item> IotHub: \<open>iot-hub.service.ts\<close> and its controller over an abstract SDK, whose registry may reject any request;
    what it accepts becomes the contract of the jobs component (locale \<open>job_channel\<close>).
  \<^item> Jobs: \<open>job.entity.ts\<close>, \<open>jobs.service.ts\<close>, \<open>jobs.controller.ts\<close>; JobStore states what is
    relied on of the database; JobLifecycle composes database and IoT hub; JobStatus has the
    status updates, cleanup, statistics and the invariant over all sequences of operations.
  \<^item> Topology: the entities under \<open>topology/entities\<close>, \<open>topology.service.ts\<close> and
    \<open>topology.controller.ts\<close>; TopologyStore has the tables, the constraints the entities declare, the
    mapping of entities to rows (\<open>schema\<close>) and the laws of the repositories (locales
    \<open>table_store\<close> and \<open>topology\<close>); TopologyBinding follows sequences of assignments and bindings;
    TopologyViews relates nested and separate queries, updates and creation.
  \<^item> Auth: \<open>auth.service.ts\<close>, its controller, the \<open>validate\<close> methods of the strategies, the roles
    decorator and the two guards, on untyped users.
  \<^item> Migration: the two directions of the rename migration on database schemas.
  \<^item> Routes: the route tables of the four controllers, what a route matches, and the handler that a request
    reaches; the requests that \<open>docs/API.md\<close> describes and the routes that serve them.
  \<^item> AuditTrail: the columns and constraints of the audit log, which no code uses.
  \<^item> Bootstrap: the module declarations (\<open>*.module.ts\<close>), what every class asks to be given and where it gets it,
    and the settings that \<open>main.ts\<close>, \<open>app.module.ts\<close>, the authentication module, the strategies, \<open>AuthContext.tsx\<close>
    and \<open>vite.config.ts\<close> read of the environment, with the order in which the environment is filled and read.
  \<^item> WebUI: trees of controls as the pages render them, the user events a tree offers (no click on a
    disabled button), \<open>parseInt\<close> and \<open>parseFloat\<close>, and the list of calls in flight. Each page is a state
    with an executable step: a user event that its rendered tree offers, or a call in flight that
    settles, in any order.
  \<^item> Wizard: \<open>CommissioningWizard.tsx\<close>, its handlers and what follows each \<open>await\<close> in them; WizardRuns has
    the invariant over all runs, completion and the handling of failures; WizardBackend answers its
    posts by the topology service of the backend and follows the two together.
  \<^item> TopologyPage: \<open>TopologyPage.tsx\<close>; TopologyLoads says when its lists show what is selected.
  \<^item> WebRequests: the URLs that page and wizard build, and the handlers their requests reach. TopologySystem
    puts the topology page in front of router, controller, service and database: the user does anything at any time,
    and each call of the page has its effect on the tables and its answer (\<open>call_effect\<close>); a flag of the system records
    whether the user has left the page alone while a creation was pending. TopologyShown relates the lists of the page to the tables in
    every state of that system, and follows a creation until the new entry is listed.
  \<^item> FleetDashboard: \<open>FleetDashboard.tsx\<close>; WebApp: the routes of \<open>App.tsx\<close>, the static pages, where
    their links lead, and the operations of \<open>AuthContext.tsx\<close>.

  \<^bold>\<open>Parameters.\<close> Code outside the repository is a record of functions over an abstract world: the
  azure-iothub SDK (\<open>iot_sdk\<close>), TypeORM's repositories (\<open>job_repo\<close>, \<open>repository\<close>), the JWT library
  (\<open>jwt_service\<close>), the framework's metadata (\<open>metadata_api\<close>) and the browser's login library (\<open>msal\<close>).
  The router of the framework is a function of the route table and the request, and the exports of library modules
  are a function of the module.
  What is relied on of them is stated as \<open>sdk_laws\<close>, \<open>repo_laws\<close>, \<open>independent\<close>, \<open>topology_laws\<close>,
  \<open>misfits_rejected\<close>, \<open>page_laws\<close>, \<open>router_laws\<close>, \<open>library_laws\<close>, \<open>env_files_loaded\<close>, \<open>metadata_laws\<close> and
  \<open>login_names_account\<close>; instances in memory satisfy these laws and carry the witnesses. What a column can hold
  and compare is a parameter of the laws of the databases (\<open>job_columns\<close>, \<open>column_checks\<close>). Web Bluetooth and HTTP are events: a call in flight may settle with any
  admissible result. Logging is left out: it does not influence any result.

  \<^bold>\<open>Bounds and fuel.\<close> The JSON parser recurses on fuel, one more than twice the length of its
  text, which is shown to be enough for every text. Lengths of frames are 32-bit:
  theorems about framing assume payloads below 4 GiB. The queue holds 100 messages and allows
  three retries, as the source fixes. The paging loop of device queries is a
  \<open>partial_function (option)\<close>, because nothing in its text bounds it; it ends at the first page, whose
  result object cannot be spread. The order in which the module files are run is computed with the number of modules as fuel, which the
  import graph, having no cycle, cannot exhaust.

  \<^bold>\<open>Not modelled.\<close> What the framework does with the settings it is handed: the serving of the API
  document, the expiry of tokens, passport and the validation pipe; the pipe has no effect,
  for no handler declares a class with validation rules as its body. The theme and the query client of \<open>main.tsx\<close>
  and \<open>playwright.config.ts\<close> have no behaviour of their own. Of the pages, layout and style are left out, and of the
  migration, the rows. Nothing of the backend runs between the reading and the writing of one request of the topology
  page in TopologySystem, and the answers arrive in the order of the requests there (TopologyLoads has them in any order).
  The C firmware is outside this library.
\<close>

end
